(* ===== verification/Hysj_Prelude.thy ===== *)
theory Hysj_Prelude
  imports Main "HOL-Library.Word" "HOL-Library.AList"
begin

text \<open>
  What every other theory of the development shares: the machine types of the Rust code
  (bytes, \<open>u32\<close>), the outcome of a call (\<open>Ok\<close>, \<open>Err\<close> or a panic), the two ways calls are
  sequenced (pure and over a state that a \<open>&mut self\<close> method updates), the few pieces of the
  Rust standard library that the code formats keys and messages with, and the generic lemmas
  on lists, association lists and \<open>u32\<close> ranges that the component proofs rest on.
\<close>

section \<open>Types\<close>

type_synonym byte = "8 word"
type_synonym bytes = "8 word list"
type_synonym u32 = "32 word"
type_synonym u64 = "64 word"

text \<open>
  A Rust \<open>String\<close> is its UTF-8 bytes, one \<open>char\<close> each, so that \<open>len()\<close> is \<open>length\<close>. A \<open>Uuid\<close> is
  represented by its canonical text, the 36 characters that \<open>Display\<close> prints.
\<close>

type_synonym uuid = string

named_theorems outcome_simps \<open>unfolding of sequenced calls\<close>

section \<open>Outcomes of calls\<close>

datatype ('e, 'a) outcome = Ok 'a | Err 'e | Panic string

fun bind_o :: "('e, 'a) outcome \<Rightarrow> ('a \<Rightarrow> ('e, 'b) outcome) \<Rightarrow> ('e, 'b) outcome" where
  "bind_o (Ok x) f = f x"
| "bind_o (Err e) f = Err e"
| "bind_o (Panic p) f = Panic p"

fun map_err :: "('e \<Rightarrow> 'f) \<Rightarrow> ('e, 'a) outcome \<Rightarrow> ('f, 'a) outcome" where
  "map_err f (Ok x) = Ok x"
| "map_err f (Err e) = Err (f e)"
| "map_err f (Panic p) = Panic p"

definition of_sum :: "(string \<Rightarrow> 'e) \<Rightarrow> string + 'a \<Rightarrow> ('e, 'a) outcome" where
  "of_sum f r = (case r of Inl e \<Rightarrow> Err (f e) | Inr x \<Rightarrow> Ok x)"

definition expect :: "string \<Rightarrow> string + 'a \<Rightarrow> ('e, 'a) outcome" where
  "expect msg r = (case r of Inl e \<Rightarrow> Panic msg | Inr x \<Rightarrow> Ok x)"

definition is_ok :: "('e, 'a) outcome \<Rightarrow> bool" where
  "is_ok r \<longleftrightarrow> (\<exists>x. r = Ok x)"

lemma is_ok_simps [simp]:
  "is_ok (Ok x)" "\<not> is_ok (Err e)" "\<not> is_ok (Panic p)"
  by (simp_all add: is_ok_def)

lemma is_ok_code [code]:
  "is_ok r = (case r of Ok x \<Rightarrow> True | Err e \<Rightarrow> False | Panic p \<Rightarrow> False)"
  by (cases r) simp_all

lemma of_sum_simps [simp]:
  "of_sum f (Inl e) = Err (f e)" "of_sum f (Inr x) = Ok x"
  "expect msg (Inl e) = Panic msg" "expect msg (Inr x) = Ok x"
  by (simp_all add: of_sum_def expect_def)

lemma of_sum_eq_Ok [simp]: "of_sum f r = Ok x \<longleftrightarrow> r = Inr x"
  by (cases r) simp_all

lemma expect_eq_Ok [simp]: "expect msg r = Ok x \<longleftrightarrow> r = Inr x"
  by (cases r) simp_all

lemma bind_o_eq_Ok [simp]: "bind_o m f = Ok y \<longleftrightarrow> (\<exists>x. m = Ok x \<and> f x = Ok y)"
  by (cases m) simp_all

lemma map_err_eq_Ok [simp]: "map_err f r = Ok x \<longleftrightarrow> r = Ok x"
  by (cases r) simp_all

text \<open>Calls on a state: the outcome together with the state the call leaves behind.\<close>

type_synonym ('s, 'e, 'a) act = "'s \<Rightarrow> ('e, 'a) outcome \<times> 's"

definition ret :: "'a \<Rightarrow> ('s, 'e, 'a) act" where
  "ret x = (\<lambda>s. (Ok x, s))"

definition throw :: "'e \<Rightarrow> ('s, 'e, 'a) act" where
  "throw e = (\<lambda>s. (Err e, s))"

definition lift_o :: "('e, 'a) outcome \<Rightarrow> ('s, 'e, 'a) act" where
  "lift_o r = (\<lambda>s. (r, s))"

definition get_s :: "('s \<Rightarrow> 'a) \<Rightarrow> ('s, 'e, 'a) act" where
  "get_s f = (\<lambda>s. (Ok (f s), s))"

definition mod_s :: "('s \<Rightarrow> 's) \<Rightarrow> ('s, 'e, unit) act" where
  "mod_s f = (\<lambda>s. (Ok (), f s))"

definition bind_a :: "('s, 'e, 'a) act \<Rightarrow> ('a \<Rightarrow> ('s, 'e, 'b) act) \<Rightarrow> ('s, 'e, 'b) act" where
  "bind_a m f = (\<lambda>s. case m s of
      (Ok x, s') \<Rightarrow> f x s'
    | (Err e, s') \<Rightarrow> (Err e, s')
    | (Panic p, s') \<Rightarrow> (Panic p, s'))"

text \<open>\<open>let _ = call\<close>, \<open>if let Err(e) = call { log }\<close> and \<open>unwrap_or_default\<close>: the error is dropped.\<close>

definition catch_a :: "('s, 'e, 'a) act \<Rightarrow> 'a \<Rightarrow> ('s, 'f, 'a) act" where
  "catch_a m d = (\<lambda>s. case m s of
      (Ok x, s') \<Rightarrow> (Ok x, s')
    | (Err e, s') \<Rightarrow> (Ok d, s')
    | (Panic p, s') \<Rightarrow> (Panic p, s'))"

definition map_err_a :: "('e \<Rightarrow> 'f) \<Rightarrow> ('s, 'e, 'a) act \<Rightarrow> ('s, 'f, 'a) act" where
  "map_err_a f m = (\<lambda>s. case m s of (r, s') \<Rightarrow> (map_err f r, s'))"

text \<open>A \<open>for\<close> loop whose body may return early with an error.\<close>

fun for_a :: "'x list \<Rightarrow> ('x \<Rightarrow> ('s, 'e, unit) act) \<Rightarrow> ('s, 'e, unit) act" where
  "for_a [] f = ret ()"
| "for_a (x # xs) f = bind_a (f x) (\<lambda>_. for_a xs f)"

text \<open>A \<open>map(..).collect()\<close> into a \<open>Result\<close> of a vector: the first error is the result.\<close>

fun collect_o :: "('x \<Rightarrow> ('e, 'a) outcome) \<Rightarrow> 'x list \<Rightarrow> ('e, 'a list) outcome" where
  "collect_o f [] = Ok []"
| "collect_o f (x # xs) = bind_o (f x) (\<lambda>y. bind_o (collect_o f xs) (\<lambda>ys. Ok (y # ys)))"

lemma collect_o_Ok: "collect_o f xs = Ok ys \<Longrightarrow> length ys = length xs"
  by (induction xs arbitrary: ys) auto

lemma collect_o_map: "(\<And>x. x \<in> set xs \<Longrightarrow> f x = Ok (g x)) \<Longrightarrow> collect_o f xs = Ok (map g xs)"
  by (induction xs) auto

lemma act_simps [simp, outcome_simps]:
  "ret x s = (Ok x, s)" "throw e s = (Err e, s)" "lift_o r s = (r, s)"
  "get_s f s = (Ok (f s), s)" "mod_s g s = (Ok (), g s)"
  by (simp_all add: ret_def throw_def lift_o_def get_s_def mod_s_def)

lemma bind_a_Ok [outcome_simps]: "m s = (Ok x, s') \<Longrightarrow> bind_a m f s = f x s'"
  and bind_a_Err [outcome_simps]: "m s = (Err e, s') \<Longrightarrow> bind_a m f s = (Err e, s')"
  and bind_a_Panic [outcome_simps]: "m s = (Panic p, s') \<Longrightarrow> bind_a m f s = (Panic p, s')"
  by (simp_all add: bind_a_def)

lemma bind_a_split:
  "bind_a m f s = (case m s of
      (Ok x, s') \<Rightarrow> f x s' | (Err e, s') \<Rightarrow> (Err e, s') | (Panic p, s') \<Rightarrow> (Panic p, s'))"
  by (simp add: bind_a_def)

lemma bind_a_ret [simp]: "bind_a (ret x) f = f x"
  by (simp add: bind_a_def ret_def)

lemma bind_a_throw [simp]: "bind_a (throw e) f = throw e"
  by (simp add: bind_a_def throw_def)

lemma bind_a_get [simp]: "bind_a (get_s h) g s = g (h s) s"
  by (simp add: bind_a_def get_s_def)

lemma bind_a_mod [simp]: "bind_a (mod_s k) g s = g () (k s)"
  by (simp add: bind_a_def mod_s_def)

lemma bind_a_lift [simp]:
  "bind_a (lift_o (Ok x)) f = f x"
  "bind_a (lift_o (Err e)) f' = throw e"
  by (simp_all add: bind_a_def lift_o_def throw_def)

lemma bind_a_OkE:
  assumes "bind_a m f s = (Ok y, t)"
  obtains x s' where "m s = (Ok x, s')" "f x s' = (Ok y, t)"
  using assms by (auto simp: bind_a_def split: prod.splits outcome.splits)

text \<open>An operation that only observes or updates keeps a state predicate.\<close>

definition keeps :: "('s \<Rightarrow> bool) \<Rightarrow> ('s, 'e, 'a) act \<Rightarrow> bool" where
  "keeps I m \<longleftrightarrow> (\<forall>s. I s \<longrightarrow> I (snd (m s)))"

lemma keepsI: "(\<And>s. I s \<Longrightarrow> I (snd (m s))) \<Longrightarrow> keeps I m"
  by (simp add: keeps_def)

lemma keepsD: "keeps I m \<Longrightarrow> I s \<Longrightarrow> I (snd (m s))"
  by (simp add: keeps_def)

lemma keeps_bind [intro]:
  assumes "keeps I m" and "\<And>x. keeps I (f x)"
  shows "keeps I (bind_a m f)"
proof (rule keepsI)
  fix s assume "I s"
  with assms(1) have *: "I (snd (m s))" by (rule keepsD)
  show "I (snd (bind_a m f s))"
  proof (cases "m s")
    case (Pair r s')
    with * have "I s'" by simp
    with Pair show ?thesis
      using assms(2) by (cases r) (auto simp: bind_a_def keeps_def)
  qed
qed

lemma keeps_pure [intro, simp]:
  "keeps I (ret x)" "keeps I (throw e)" "keeps I (lift_o r)" "keeps I (get_s h)"
  by (simp_all add: keeps_def act_simps)

lemma keeps_catch [intro]: "keeps I m \<Longrightarrow> keeps I (catch_a m d)"
  by (fastforce simp: keeps_def catch_a_def split: prod.splits outcome.splits)

lemma keeps_map_err [intro]: "keeps I m \<Longrightarrow> keeps I (map_err_a f m)"
  by (fastforce simp: keeps_def map_err_a_def split: prod.splits)

lemma keeps_for [intro]: "(\<And>x. keeps I (f x)) \<Longrightarrow> keeps I (for_a xs f)"
  by (induction xs) auto

lemma keeps_if [intro]: "keeps I a \<Longrightarrow> keeps I b \<Longrightarrow> keeps I (if c then a else b)"
  by simp

section \<open>Association lists with distinct keys\<close>

lemma alist_dom_delete: "fst ` set (AList.delete k xs) = fst ` set xs - {k}"
  by (induction xs) auto

lemma alist_set_delete: "set (AList.delete k xs) \<subseteq> set xs"
  by (induction xs) auto

lemma alist_length_delete:
  "distinct (map fst xs) \<Longrightarrow> k \<in> fst ` set xs \<Longrightarrow> Suc (length (AList.delete k xs)) = length xs"
proof (induction xs)
  case (Cons x xs)
  show ?case
  proof (cases "fst x = k")
    case True
    with Cons.prems have "k \<notin> fst ` set xs" by auto
    with True show ?thesis by (cases x) (simp add: delete_id)
  next
    case False
    with Cons show ?thesis by (cases x) auto
  qed
qed simp

lemma alist_length_update:
  "length (AList.update k v xs) = (if k \<in> fst ` set xs then length xs else Suc (length xs))"
  by (induction xs) auto

section \<open>Text\<close>

definition str_bytes :: "string \<Rightarrow> bytes" where
  "str_bytes s = map (\<lambda>c. of_nat (of_char c)) s"

lemma length_str_bytes [simp]: "length (str_bytes s) = length s"
  by (simp add: str_bytes_def)

lemma str_bytes_append [simp]: "str_bytes (s @ t) = str_bytes s @ str_bytes t"
  by (simp add: str_bytes_def)

lemma byte_of_char_inj: "(of_nat (of_char c) :: byte) = of_nat (of_char d) \<longleftrightarrow> c = d"
proof
  assume "(of_nat (of_char c) :: byte) = of_nat (of_char d)"
  then have "unat (of_nat (of_char c) :: byte) = unat (of_nat (of_char d) :: byte)"
    by simp
  then have "(of_char c :: nat) mod 256 = of_char d mod 256"
    by (simp add: unat_of_nat)
  then have "(of_char c :: nat) = of_char d"
    using of_char_mod_256 by (metis of_char_eq_iff)
  then show "c = d" by simp
qed simp

lemma str_bytes_inj [simp]: "str_bytes s = str_bytes t \<longleftrightarrow> s = t"
proof
  assume "str_bytes s = str_bytes t"
  then show "s = t"
    unfolding str_bytes_def
    by (metis (no_types, lifting) byte_of_char_inj inj_onI map_inj_on)
qed simp

text \<open>The text whose bytes these are (\<open>String::from_utf8\<close> of the bytes serde_json writes).\<close>

definition bytes_str :: "bytes \<Rightarrow> string" where
  "bytes_str bs = map (\<lambda>b. char_of (unat b)) bs"

lemma unat_lt_byte: "unat (b :: byte) < 256"
  using unsigned_less [where 'a = nat and 'b = 8, of b] by simp

lemma str_bytes_bytes_str [simp]: "str_bytes (bytes_str bs) = bs"
  using unat_lt_byte by (simp add: str_bytes_def bytes_str_def o_def)

lemma bytes_str_str_bytes [simp]: "bytes_str (str_bytes s) = s"
proof -
  have "unat (of_nat (of_char c) :: byte) = of_char c" for c
  proof -
    have "(of_char c :: nat) < 256" by simp
    then show ?thesis by (simp add: unat_of_nat)
  qed
  then show ?thesis by (simp add: str_bytes_def bytes_str_def o_def)
qed

text \<open>\<open>String::from_utf8\<close> succeeds exactly on well-formed UTF-8.\<close>

definition utf8_tail :: "byte \<Rightarrow> bool" where
  "utf8_tail b \<longleftrightarrow> 128 \<le> b \<and> b < 192"

definition utf8_second :: "byte \<Rightarrow> byte \<Rightarrow> bool" where
  "utf8_second a b \<longleftrightarrow> utf8_tail b \<and> (a = 224 \<longrightarrow> 160 \<le> b) \<and> (a = 237 \<longrightarrow> b < 160) \<and>
     (a = 240 \<longrightarrow> 144 \<le> b) \<and> (a = 244 \<longrightarrow> b < 144)"

text \<open>
  The first character of a byte string, or the bytes a decoder skips when there is none: whether it
  is well formed, and its number of bytes.
\<close>

fun utf8_chunk :: "bytes \<Rightarrow> bool \<times> nat" where
  "utf8_chunk [] = (True, 1)"
| "utf8_chunk (a # r) =
     (if a < 128 then (True, 1)
      else if a < 194 \<or> 245 \<le> a \<or> r = [] \<or> \<not> utf8_second a (r ! 0) then (False, 1)
      else if a < 224 then (True, 2)
      else if length r < 2 \<or> \<not> utf8_tail (r ! 1) then (False, 2)
      else if a < 240 then (True, 3)
      else if length r < 3 \<or> \<not> utf8_tail (r ! 2) then (False, 3)
      else (True, 4))"

lemma utf8_chunk_pos: "0 < snd (utf8_chunk bs)"
  by (cases bs) simp_all

function utf8_chunks :: "bytes \<Rightarrow> (bool \<times> bytes) list" where
  "utf8_chunks bs =
     (if bs = [] then []
      else (fst (utf8_chunk bs), take (snd (utf8_chunk bs)) bs) # utf8_chunks (drop (snd (utf8_chunk bs)) bs))"
  by auto
termination
  by (relation "measure length") (auto simp: utf8_chunk_pos)

declare utf8_chunks.simps [simp del]

definition utf8_ok :: "bytes \<Rightarrow> bool" where
  "utf8_ok bs = list_all fst (utf8_chunks bs)"

text \<open>\<open>String::from_utf8_lossy\<close>: what is not a character becomes U+FFFD.\<close>

definition utf8_lossy :: "bytes \<Rightarrow> bytes" where
  "utf8_lossy bs = concat (map (\<lambda>(ok, c). if ok then c else [239, 191, 189]) (utf8_chunks bs))"

lemma utf8_chunks_concat: "concat (map snd (utf8_chunks bs)) = bs"
proof (induction bs rule: utf8_chunks.induct)
  case (1 bs)
  then show ?case by (cases "bs = []") (simp_all add: utf8_chunks.simps [of bs] utf8_chunks.simps [of "[]"])
qed

lemma utf8_lossy_ok: "utf8_ok bs \<Longrightarrow> utf8_lossy bs = bs"
proof -
  assume "utf8_ok bs"
  then have "map (\<lambda>(ok, c). if ok then c else [239, 191, 189]) (utf8_chunks bs) = map snd (utf8_chunks bs)"
    by (auto simp: utf8_ok_def list_all_iff)
  then show ?thesis unfolding utf8_lossy_def by (simp only: utf8_chunks_concat)
qed

lemma utf8_ok_Nil [simp]: "utf8_ok []"
  by (simp add: utf8_ok_def utf8_chunks.simps)

lemma utf8_ok_ascii [simp]: "a < 128 \<Longrightarrow> utf8_ok (a # r) = utf8_ok r"
  by (simp add: utf8_ok_def utf8_chunks.simps [of "a # r"])

lemma utf8_ascii: "\<forall>b \<in> set bs. b < 128 \<Longrightarrow> utf8_ok bs"
  by (induction bs) simp_all

text \<open>The strings a Rust \<open>String\<close> can hold, and its number of characters.\<close>

definition rust_string :: "string \<Rightarrow> bool" where
  "rust_string s \<longleftrightarrow> utf8_ok (str_bytes s)"

definition char_count :: "string \<Rightarrow> nat" where
  "char_count s = length (filter (\<lambda>b. \<not> utf8_tail b) (str_bytes s))"

text \<open>\<open>Display\<close> of an unsigned integer.\<close>

fun nat_str :: "nat \<Rightarrow> string" where
  "nat_str n = (if n < 10 then [char_of (48 + n)] else nat_str (n div 10) @ [char_of (48 + n mod 10)])"

declare nat_str.simps [simp del]

text \<open>\<open>format!("{:02x}", b)\<close> for each byte.\<close>

definition hex_digit :: "nat \<Rightarrow> char" where
  "hex_digit n = (if n < 10 then char_of (48 + n) else char_of (87 + n))"

definition hex_byte :: "byte \<Rightarrow> string" where
  "hex_byte b = [hex_digit (unat b div 16), hex_digit (unat b mod 16)]"

lemma hex_digit_inj: "m < 16 \<Longrightarrow> n < 16 \<Longrightarrow> hex_digit m = hex_digit n \<Longrightarrow> m = n"
proof -
  assume m: "m < 16" and n: "n < 16" and eq: "hex_digit m = hex_digit n"
  have d: "of_char (hex_digit k) = (if k < 10 then 48 + k else 87 + k)" if "k < 16" for k :: nat
    using that by (simp add: hex_digit_def)
  from eq have "(of_char (hex_digit m) :: nat) = of_char (hex_digit n)" by simp
  with m n show "m = n" by (simp add: d split: if_splits)
qed

lemma hex_byte_inj: "hex_byte a = hex_byte b \<Longrightarrow> a = b"
proof -
  assume "hex_byte a = hex_byte b"
  then have h: "hex_digit (unat a div 16) = hex_digit (unat b div 16)"
    and l: "hex_digit (unat a mod 16) = hex_digit (unat b mod 16)"
    by (simp_all add: hex_byte_def)
  have lt: "unat c div 16 < 16" for c :: byte
  proof -
    have "unat c < 256" by (rule unat_lt_byte)
    then show ?thesis by (simp add: less_mult_imp_div_less)
  qed
  from h lt have "unat a div 16 = unat b div 16" by (blast intro: hex_digit_inj)
  moreover from l have "unat a mod 16 = unat b mod 16" by (rule hex_digit_inj [rotated 2]) simp_all
  ultimately have "unat a = unat b" by (metis div_mult_mod_eq)
  then show "a = b" by (rule word_unat_eq_iff [THEN iffD2])
qed

section \<open>Ranges of \<open>u32\<close>\<close>

definition range_u32 :: "u32 \<Rightarrow> u32 \<Rightarrow> u32 list" where
  "range_u32 a b = map of_nat [unat a ..< unat b]"

lemma unat_of_nat_u32 [simp]: "n < 4294967296 \<Longrightarrow> unat (of_nat n :: u32) = n"
  by (simp add: unat_of_nat)

lemma unat_lt_u32: "unat (w :: u32) < 4294967296"
  using unsigned_less [of w] by simp

lemma of_nat_u32_inj: "m < 4294967296 \<Longrightarrow> n < 4294967296 \<Longrightarrow> (of_nat m :: u32) = of_nat n \<longleftrightarrow> m = n"
  by (metis unat_of_nat_u32)

lemma unat_plus1_u32: "unat (w :: u32) < 4294967295 \<Longrightarrow> unat (w + 1) = Suc (unat w)"
  by (simp add: unat_word_ariths)

lemma unat_sub_u32: "(b :: u32) \<le> a \<Longrightarrow> unat (a - b) = unat a - unat b"
  by (simp add: unat_sub)

end
