(* ===== verification/Crypto_Primitives.thy ===== *)
theory Crypto_Primitives
  imports Hysj_Prelude
begin

text \<open>
  The cryptographic crates the code calls (x25519-dalek, ed25519-dalek, hkdf, hmac,
  chacha20poly1305, ml-kem, serde_json, base64) are not part of the repository. They are
  parameters: one record \<open>prims\<close> of primitive operations, and one record \<open>codec\<close> per type that
  serde derives a JSON encoding for. What the code relies on is stated as the named
  hypotheses \<open>dh_laws\<close>, \<open>kdf_laws\<close>, \<open>aead_laws\<close>, \<open>kem_laws\<close>, \<open>sig_laws\<close> and \<open>codec_laws\<close>. The
  modules keys.rs, kdf.rs, cipher.rs and chain.rs of crates/hysj-crypto are modelled here over
  these parameters; random bytes drawn from \<open>OsRng\<close> are arguments.
\<close>

section \<open>The primitives and what is relied on\<close>

record prims =
  x_pub :: "bytes \<Rightarrow> bytes"
  x_dh :: "bytes \<Rightarrow> bytes \<Rightarrow> bytes"
  hkdf_sha256 :: "bytes \<Rightarrow> bytes \<Rightarrow> bytes \<Rightarrow> nat \<Rightarrow> bytes option"
  hmac256 :: "bytes \<Rightarrow> bytes \<Rightarrow> bytes"
  aead_seal :: "bytes \<Rightarrow> bytes \<Rightarrow> bytes \<Rightarrow> bytes \<Rightarrow> string + bytes"
  aead_open :: "bytes \<Rightarrow> bytes \<Rightarrow> bytes \<Rightarrow> bytes \<Rightarrow> string + bytes"
  ed_pub :: "bytes \<Rightarrow> bytes"
  ed_sign :: "bytes \<Rightarrow> bytes \<Rightarrow> bytes"
  ed_key_ok :: "bytes \<Rightarrow> bool"
  ed_verify :: "bytes \<Rightarrow> bytes \<Rightarrow> bytes \<Rightarrow> bool"
  kem_generate :: "bytes \<Rightarrow> bytes \<times> bytes"
  kem_encap :: "bytes \<Rightarrow> bytes \<Rightarrow> string + bytes \<times> bytes"
  kem_decap :: "bytes \<Rightarrow> bytes \<Rightarrow> string + bytes"

record 'a codec =
  to_json :: "'a \<Rightarrow> string + bytes"
  from_json :: "bytes \<Rightarrow> string + 'a"

text \<open>X25519: both sides compute the same shared secret, and keys and secrets have 32 bytes.\<close>

definition dh_laws :: "prims \<Rightarrow> bool" where
  "dh_laws P \<longleftrightarrow>
     (\<forall>a b. length a = 32 \<longrightarrow> length b = 32 \<longrightarrow> x_dh P a (x_pub P b) = x_dh P b (x_pub P a)) \<and>
     (\<forall>a. length (x_pub P a) = 32)"

text \<open>HMAC-SHA256 returns 32 bytes; HKDF-SHA256 expands to any length up to \<open>255 * 32\<close>.\<close>

definition kdf_laws :: "prims \<Rightarrow> bool" where
  "kdf_laws P \<longleftrightarrow>
     (\<forall>k d. length (hmac256 P k d) = 32) \<and>
     (\<forall>salt ikm info n. n \<le> 8160 \<longrightarrow>
        (\<exists>okm. hkdf_sha256 P salt ikm info n = Some okm \<and> length okm = n))"

text \<open>XChaCha20-Poly1305: what was sealed opens under the same key, nonce and associated data.\<close>

definition aead_laws :: "prims \<Rightarrow> bool" where
  "aead_laws P \<longleftrightarrow>
     (\<forall>k n a m c. aead_seal P k n a m = Inr c \<longrightarrow>
        length c = length m + 16 \<and> aead_open P k n a c = Inr m)"

text \<open>ML-KEM-768: sizes of the encoded keys and ciphertexts, and correct decapsulation.\<close>

definition kem_laws :: "prims \<Rightarrow> bool" where
  "kem_laws P \<longleftrightarrow>
     (\<forall>r. length (fst (kem_generate P r)) = 1184 \<and> length (snd (kem_generate P r)) = 2400) \<and>
     (\<forall>r e ct ss. kem_encap P (fst (kem_generate P r)) e = Inr (ct, ss) \<longrightarrow>
        length ct = 1088 \<and> kem_decap P (snd (kem_generate P r)) ct = Inr ss)"

text \<open>Ed25519: a signature has 64 bytes and verifies under the signer's key, which parses.\<close>

definition sig_laws :: "prims \<Rightarrow> bool" where
  "sig_laws P \<longleftrightarrow>
     (\<forall>sk m. length (ed_sign P sk m) = 64 \<and> ed_verify P (ed_pub P sk) m (ed_sign P sk m)) \<and>
     (\<forall>sk. length (ed_pub P sk) = 32 \<and> ed_key_ok P (ed_pub P sk))"

text \<open>serde_json: what a value serializes to is read back as that value.\<close>

definition codec_laws :: "'a codec \<Rightarrow> bool" where
  "codec_laws C \<longleftrightarrow> (\<forall>x b. to_json C x = Inr b \<longrightarrow> from_json C b = Inr x)"

lemma codec_lawsD: "codec_laws C \<Longrightarrow> to_json C x = Inr b \<Longrightarrow> from_json C b = Inr x"
  by (simp add: codec_laws_def)

lemma dh_laws_comm:
  "dh_laws P \<Longrightarrow> length a = 32 \<Longrightarrow> length b = 32 \<Longrightarrow> x_dh P a (x_pub P b) = x_dh P b (x_pub P a)"
  by (simp add: dh_laws_def)

lemma dh_laws_length [simp]: "dh_laws P \<Longrightarrow> length (x_pub P a) = 32"
  by (simp add: dh_laws_def)

lemma kdf_laws_hmac [simp]: "kdf_laws P \<Longrightarrow> length (hmac256 P k d) = 32"
  by (simp add: kdf_laws_def)

lemma kdf_laws_hkdf:
  assumes "kdf_laws P" and "n \<le> 8160"
  obtains okm where "hkdf_sha256 P salt ikm info n = Some okm" "length okm = n"
  using assms by (meson kdf_laws_def)

section \<open>lib.rs: the error type\<close>

datatype crypto_error =
    EncryptionFailed string
  | DecryptionFailed string
  | InvalidKeyLength nat nat
  | InvalidSignature
  | KdfError string
  | SerializationError string
  | DeserializationError string
  | InvalidInput string
  | X3DHError string
  | RatchetError string
  | SealedSenderError string
  | OnionError string
  | PostQuantumError string

text \<open>\<open>Display\<close>, as the \<open>#[error(..)]\<close> attributes give it.\<close>

fun crypto_error_str :: "crypto_error \<Rightarrow> string" where
  "crypto_error_str (EncryptionFailed s) = ''encryption failed: '' @ s"
| "crypto_error_str (DecryptionFailed s) = ''decryption failed: '' @ s"
| "crypto_error_str (InvalidKeyLength e a) =
     ''invalid key length: expected '' @ nat_str e @ '', got '' @ nat_str a"
| "crypto_error_str InvalidSignature = ''invalid signature''"
| "crypto_error_str (KdfError s) = ''key derivation failed: '' @ s"
| "crypto_error_str (SerializationError s) = ''serialization failed: '' @ s"
| "crypto_error_str (DeserializationError s) = ''deserialization failed: '' @ s"
| "crypto_error_str (InvalidInput s) = ''invalid input: '' @ s"
| "crypto_error_str (X3DHError s) = ''x3dh handshake failed: '' @ s"
| "crypto_error_str (RatchetError s) = ''ratchet error: '' @ s"
| "crypto_error_str (SealedSenderError s) = ''sealed sender error: '' @ s"
| "crypto_error_str (OnionError s) = ''onion routing error: '' @ s"
| "crypto_error_str (PostQuantumError s) = ''post-quantum error: '' @ s"

type_synonym 'a crypto = "(crypto_error, 'a) outcome"

text \<open>
  \<open>arr.copy_from_slice(&v[..32])\<close> panics on a shorter slice, and \<open>arr.copy_from_slice(v)\<close>
  panics unless the lengths agree.
\<close>

definition slice32 :: "bytes \<Rightarrow> ('e, bytes) outcome" where
  "slice32 v = (if length v < 32 then Panic ''range end index 32 out of range'' else Ok (take 32 v))"

definition exact32 :: "bytes \<Rightarrow> ('e, bytes) outcome" where
  "exact32 v = (if length v \<noteq> 32 then Panic ''copy_from_slice: source slice length does not match'' else Ok v)"

lemma slice32_Ok [simp]: "length v = 32 \<Longrightarrow> slice32 v = Ok v"
  by (simp add: slice32_def)

lemma exact32_Ok [simp]: "length v = 32 \<Longrightarrow> exact32 v = Ok v"
  by (simp add: exact32_def)

section \<open>keys.rs\<close>

record x25519_keypair =
  kp_secret :: bytes
  kp_public :: bytes

definition generate_x25519_keypair :: "prims \<Rightarrow> bytes \<Rightarrow> x25519_keypair" where
  "generate_x25519_keypair P rnd = \<lparr>kp_secret = rnd, kp_public = x_pub P rnd\<rparr>"

definition diffie_hellman :: "prims \<Rightarrow> bytes \<Rightarrow> bytes \<Rightarrow> bytes" where
  "diffie_hellman P my_secret their_public = x_dh P my_secret their_public"

record ed25519_keypair =
  signing_key :: bytes
  verifying_key :: bytes

definition generate_ed25519_keypair :: "prims \<Rightarrow> bytes \<Rightarrow> ed25519_keypair" where
  "generate_ed25519_keypair P rnd = \<lparr>signing_key = rnd, verifying_key = ed_pub P rnd\<rparr>"

definition sign :: "prims \<Rightarrow> ed25519_keypair \<Rightarrow> bytes \<Rightarrow> bytes" where
  "sign P keypair message = ed_sign P (signing_key keypair) message"

definition verify :: "prims \<Rightarrow> bytes \<Rightarrow> bytes \<Rightarrow> bytes \<Rightarrow> bool" where
  "verify P public_key message signature =
     (if length signature \<noteq> 64 then False else ed_verify P public_key message signature)"

definition zero_memory :: "bytes \<Rightarrow> bytes" where
  "zero_memory buf = map (\<lambda>_. 0) buf"

lemma verify_sign:
  "sig_laws P \<Longrightarrow> verify P (verifying_key (generate_ed25519_keypair P r)) m
     (sign P (generate_ed25519_keypair P r) m)"
  by (simp add: verify_def sign_def generate_ed25519_keypair_def sig_laws_def)

section \<open>kdf.rs\<close>

definition hkdf_derive :: "prims \<Rightarrow> bytes \<Rightarrow> bytes \<Rightarrow> bytes \<Rightarrow> nat \<Rightarrow> ('e, bytes) outcome" where
  "hkdf_derive P ikm salt info output_len =
     (case hkdf_sha256 P salt ikm info output_len of
        Some okm \<Rightarrow> Ok okm
      | None \<Rightarrow> Panic ''HKDF output length should be valid'')"

definition hmac_sha256 :: "prims \<Rightarrow> bytes \<Rightarrow> bytes \<Rightarrow> bytes" where
  "hmac_sha256 P key data = hmac256 P key data"

definition derive_root_key :: "prims \<Rightarrow> bytes \<Rightarrow> bytes \<Rightarrow> (bytes \<times> bytes) crypto" where
  "derive_root_key P root_key dh_output =
     (case hkdf_sha256 P root_key dh_output (str_bytes ''hysj-ratchet-root'') 64 of
        Some output \<Rightarrow> Ok (take 32 output, drop 32 output)
      | None \<Rightarrow> Panic ''64-byte HKDF expand should succeed'')"

definition derive_chain_key :: "prims \<Rightarrow> bytes \<Rightarrow> bytes \<times> bytes" where
  "derive_chain_key P chain_key =
     (let new_chain_key = hmac_sha256 P chain_key [0x02];
          message_key = hmac_sha256 P chain_key [0x01]
      in (new_chain_key, message_key))"

lemma hkdf_derive_Ok:
  assumes "kdf_laws P" and "n \<le> 8160"
  obtains okm where "hkdf_derive P ikm salt info n = Ok okm" "length okm = n"
  using assms by (metis hkdf_derive_def kdf_laws_hkdf option.case(2))

lemma derive_root_key_Ok:
  assumes "kdf_laws P"
  obtains rk ck where "derive_root_key P root dh = Ok (rk, ck)" "length rk = 32" "length ck = 32"
proof -
  obtain okm where "hkdf_sha256 P root dh (str_bytes ''hysj-ratchet-root'') 64 = Some okm" "length okm = 64"
    using assms by (rule kdf_laws_hkdf [of P 64]) simp
  then show ?thesis
    by (intro that [of "take 32 okm" "drop 32 okm"]) (simp_all add: derive_root_key_def)
qed

lemma derive_chain_key_length [simp]:
  "kdf_laws P \<Longrightarrow> length (fst (derive_chain_key P ck)) = 32"
  "kdf_laws P \<Longrightarrow> length (snd (derive_chain_key P ck)) = 32"
  by (simp_all add: derive_chain_key_def hmac_sha256_def)

section \<open>cipher.rs\<close>

definition cipher_encrypt :: "prims \<Rightarrow> bytes \<Rightarrow> bytes \<Rightarrow> bytes \<Rightarrow> bytes \<Rightarrow> bytes crypto" where
  "cipher_encrypt P nonce_bytes plaintext key aad =
     bind_o (of_sum EncryptionFailed (aead_seal P key nonce_bytes aad plaintext)) (\<lambda>ciphertext.
     Ok (nonce_bytes @ ciphertext))"

definition cipher_decrypt :: "prims \<Rightarrow> bytes \<Rightarrow> bytes \<Rightarrow> bytes \<Rightarrow> bytes crypto" where
  "cipher_decrypt P ciphertext_with_nonce key aad =
     (if length ciphertext_with_nonce < 24 + 16 then Err (DecryptionFailed ''ciphertext too short'')
      else
        let nonce_bytes = take 24 ciphertext_with_nonce;
            ciphertext = drop 24 ciphertext_with_nonce
        in of_sum DecryptionFailed (aead_open P key nonce_bytes aad ciphertext))"

lemma cipher_roundtrip:
  assumes "aead_laws P" and "length nonce = 24" and "cipher_encrypt P nonce m key aad = Ok c"
  shows "cipher_decrypt P c key aad = Ok m"
  using assms by (auto simp: cipher_encrypt_def cipher_decrypt_def aead_laws_def Let_def)

lemma cipher_encrypt_length:
  assumes "aead_laws P" and "length nonce = 24" and "cipher_encrypt P nonce m key aad = Ok c"
  shows "length c = length m + 40"
  using assms by (auto simp: cipher_encrypt_def aead_laws_def)

lemma cipher_decrypt_short: "length c < 40 \<Longrightarrow> \<not> is_ok (cipher_decrypt P c key aad)"
  by (simp add: cipher_decrypt_def)

lemma cipher_no_panic [simp]:
  "cipher_encrypt P n m k a \<noteq> Panic p" "cipher_decrypt P c k a \<noteq> Panic p"
  by (auto simp: cipher_encrypt_def cipher_decrypt_def of_sum_def Let_def split: sum.splits)

section \<open>ratchet/chain.rs\<close>

record chain =
  chain_key :: bytes
  chain_message_number :: u32

definition chain_new :: "bytes \<Rightarrow> chain" where
  "chain_new ck = \<lparr>chain_key = ck, chain_message_number = 0\<rparr>"

text \<open>\<open>chain_message_number += 1\<close> wraps, as in the release profile.\<close>

definition chain_advance :: "prims \<Rightarrow> (chain, crypto_error, bytes) act" where
  "chain_advance P =
     bind_a (get_s chain_key) (\<lambda>ck.
     let (new_chain_key, message_key_vec) = derive_chain_key P ck in
     bind_a (mod_s (\<lambda>c. c\<lparr>chain_key := new_chain_key, chain_message_number := chain_message_number c + 1\<rparr>)) (\<lambda>_.
     lift_o (slice32 message_key_vec)))"

text \<open>The chain key and the message key after \<open>n\<close> advances from \<open>ck\<close>.\<close>

fun ck_at :: "prims \<Rightarrow> bytes \<Rightarrow> nat \<Rightarrow> bytes" where
  "ck_at P ck 0 = ck"
| "ck_at P ck (Suc n) = fst (derive_chain_key P (ck_at P ck n))"

definition mk_at :: "prims \<Rightarrow> bytes \<Rightarrow> nat \<Rightarrow> bytes" where
  "mk_at P ck n = snd (derive_chain_key P (ck_at P ck n))"

lemma length_mk_at [simp]: "kdf_laws P \<Longrightarrow> length (mk_at P ck n) = 32"
  by (simp add: mk_at_def)

lemma derive_chain_key_at: "derive_chain_key P (ck_at P ck n) = (ck_at P ck (Suc n), mk_at P ck n)"
  by (simp add: mk_at_def)

fun chain_run :: "prims \<Rightarrow> nat \<Rightarrow> chain \<Rightarrow> (crypto_error, bytes) outcome list \<times> chain" where
  "chain_run P 0 c = ([], c)"
| "chain_run P (Suc n) c =
     (let (r, c1) = chain_advance P c; (rs, c2) = chain_run P n c1 in (r # rs, c2))"

lemma chain_advance_at:
  assumes "kdf_laws P" and "chain_key c = ck_at P ck n"
  shows "chain_advance P c =
    (Ok (mk_at P ck n), c\<lparr>chain_key := ck_at P ck (Suc n), chain_message_number := chain_message_number c + 1\<rparr>)"
  using assms by (simp add: chain_advance_def derive_chain_key_at lift_o_def del: ck_at.simps)

lemma chain_run_from:
  assumes "kdf_laws P" and "chain_key c = ck_at P ck n"
  shows "chain_run P k c =
    (map (\<lambda>i. Ok (mk_at P ck i)) [n..<n + k],
     c\<lparr>chain_key := ck_at P ck (n + k), chain_message_number := chain_message_number c + of_nat k\<rparr>)"
  using assms(2)
proof (induction k arbitrary: c n)
  case 0
  then show ?case by simp
next
  case (Suc k)
  let ?c = "c\<lparr>chain_key := ck_at P ck (Suc n), chain_message_number := chain_message_number c + 1\<rparr>"
  have "chain_run P k ?c =
    (map (\<lambda>i. Ok (mk_at P ck i)) [Suc n..<Suc n + k],
     ?c\<lparr>chain_key := ck_at P ck (Suc n + k), chain_message_number := chain_message_number ?c + of_nat k\<rparr>)"
    by (rule Suc.IH) simp
  with chain_advance_at [OF assms(1) Suc.prems] show ?case
    by (simp add: upt_conv_Cons algebra_simps del: upt_Suc ck_at.simps)
qed

end
