(* ===== verification/Skipped_Keys.thy ===== *)
theory Skipped_Keys
  imports Crypto_Primitives
begin

text \<open>
  crates/hysj-crypto/src/ratchet/skipped.rs: the cache of message keys of skipped messages. The
  \<open>HashMap\<close> is an association list with distinct keys, \<open>insertion_order\<close> the list that decides
  which key is evicted. The locale \<open>key_cache\<close> is what the ratchet relies on; it is interpreted
  on the operations of this file.
\<close>

section \<open>What a cache of message keys promises\<close>

locale key_cache =
  fixes empty :: "'c"
    and insert :: "string \<Rightarrow> u32 \<Rightarrow> bytes \<Rightarrow> 'c \<Rightarrow> 'c"
    and take :: "string \<Rightarrow> u32 \<Rightarrow> 'c \<Rightarrow> bytes option \<times> 'c"
    and look :: "'c \<Rightarrow> string \<times> u32 \<Rightarrow> bytes option"
    and size :: "'c \<Rightarrow> nat"
    and invar :: "'c \<Rightarrow> bool"
    and capacity :: nat
  assumes invar_empty: "invar empty"
    and look_empty: "look empty = (\<lambda>_. None)"
    and size_empty: "size empty = 0"
    and invar_insert: "invar c \<Longrightarrow> invar (insert h n k c)"
    and look_insert: "invar c \<Longrightarrow> size c < capacity \<Longrightarrow> look (insert h n k c) = (look c)((h, n) \<mapsto> k)"
    and size_insert: "invar c \<Longrightarrow> size (insert h n k c) \<le> Suc (size c)"
    and size_bound: "invar c \<Longrightarrow> size c \<le> capacity"
    and take_result: "invar c \<Longrightarrow> fst (take h n c) = look c (h, n)"
    and look_take: "invar c \<Longrightarrow> look (snd (take h n c)) = (look c)((h, n) := None)"
    and invar_take: "invar c \<Longrightarrow> invar (snd (take h n c))"
    and size_take: "invar c \<Longrightarrow> size (snd (take h n c)) \<le> size c"
begin

lemma take_hit: "invar c \<Longrightarrow> look c (h, n) = Some k \<Longrightarrow> take h n c = (Some k, snd (take h n c))"
  by (metis prod.collapse take_result)

lemma take_twice:
  "invar c \<Longrightarrow> fst (take h n (snd (take h n c))) = None"
  by (simp add: take_result invar_take look_take)

lemma insert_many:
  assumes "invar c" and "size c + length ns \<le> capacity"
  shows "invar (fold (\<lambda>n. insert h n (f n)) ns c) \<and>
    size (fold (\<lambda>n. insert h n (f n)) ns c) \<le> size c + length ns \<and>
    (\<forall>h' m. look (fold (\<lambda>n. insert h n (f n)) ns c) (h', m) =
       (if h' = h \<and> m \<in> set ns then Some (f m) else look c (h', m)))"
  using assms
proof (induction ns arbitrary: c)
  case Nil
  then show ?case by simp
next
  case (Cons n ns)
  let ?c = "insert h n (f n) c"
  have inv: "invar ?c" using Cons.prems by (simp add: invar_insert)
  have sz: "size ?c \<le> Suc (size c)" using Cons.prems by (simp add: size_insert)
  with Cons.prems have "size ?c + length ns \<le> capacity" by simp
  from Cons.IH [OF inv this] sz Cons.prems show ?case
    by (auto simp: look_insert)
qed

end

section \<open>skipped.rs\<close>

definition MAX_SKIPPED_KEYS :: nat where
  "MAX_SKIPPED_KEYS = 1000"

record skipped_keys =
  sk_keys :: "((string \<times> u32) \<times> bytes) list"
  sk_order :: "(string \<times> u32) list"

definition sk_new :: skipped_keys where
  "sk_new = \<lparr>sk_keys = [], sk_order = []\<rparr>"

text \<open>\<open>while self.keys.len() >= MAX_SKIPPED_KEYS\<close>: each round removes the head of the order.\<close>

fun sk_evict :: "((string \<times> u32) \<times> bytes) list \<Rightarrow> (string \<times> u32) list \<Rightarrow>
    ((string \<times> u32) \<times> bytes) list \<times> (string \<times> u32) list" where
  "sk_evict keys [] = (keys, [])"
| "sk_evict keys (oldest # order) =
     (if length keys \<ge> MAX_SKIPPED_KEYS then sk_evict (AList.delete oldest keys) order
      else (keys, oldest # order))"

definition sk_insert :: "string \<Rightarrow> u32 \<Rightarrow> bytes \<Rightarrow> skipped_keys \<Rightarrow> skipped_keys" where
  "sk_insert dh_public_hex n message_key sk =
     (let key = (dh_public_hex, n) in
      if map_of (sk_keys sk) key \<noteq> None then
        sk\<lparr>sk_keys := AList.update key message_key (sk_keys sk)\<rparr>
      else
        let (keys, order) = sk_evict (sk_keys sk) (sk_order sk) in
        \<lparr>sk_keys = AList.update key message_key keys, sk_order = order @ [key]\<rparr>)"

definition sk_take :: "string \<Rightarrow> u32 \<Rightarrow> skipped_keys \<Rightarrow> bytes option \<times> skipped_keys" where
  "sk_take dh_public_hex n sk =
     (let key = (dh_public_hex, n) in
      case map_of (sk_keys sk) key of
        Some msg_key \<Rightarrow>
          (Some msg_key,
           \<lparr>sk_keys = AList.delete key (sk_keys sk), sk_order = filter (\<lambda>k. k \<noteq> key) (sk_order sk)\<rparr>)
      | None \<Rightarrow> (None, sk))"

definition sk_contains :: "skipped_keys \<Rightarrow> string \<Rightarrow> u32 \<Rightarrow> bool" where
  "sk_contains sk dh_public_hex n \<longleftrightarrow> map_of (sk_keys sk) (dh_public_hex, n) \<noteq> None"

definition sk_len :: "skipped_keys \<Rightarrow> nat" where
  "sk_len sk = length (sk_keys sk)"

definition sk_is_empty :: "skipped_keys \<Rightarrow> bool" where
  "sk_is_empty sk \<longleftrightarrow> sk_keys sk = []"

text \<open>\<open>Drop\<close>: the message keys are zeroed in place.\<close>

definition sk_drop :: "skipped_keys \<Rightarrow> skipped_keys" where
  "sk_drop sk = sk\<lparr>sk_keys := map (\<lambda>(k, v). (k, zero_memory v)) (sk_keys sk)\<rparr>"

section \<open>The invariant\<close>

definition sk_look :: "skipped_keys \<Rightarrow> string \<times> u32 \<Rightarrow> bytes option" where
  "sk_look sk = map_of (sk_keys sk)"

definition sk_inv :: "skipped_keys \<Rightarrow> bool" where
  "sk_inv sk \<longleftrightarrow>
     distinct (map fst (sk_keys sk)) \<and> distinct (sk_order sk) \<and>
     set (sk_order sk) = fst ` set (sk_keys sk) \<and> length (sk_keys sk) \<le> MAX_SKIPPED_KEYS"

lemma sk_inv_new: "sk_inv sk_new"
  by (simp add: sk_inv_def sk_new_def MAX_SKIPPED_KEYS_def)

lemma length_order:
  "sk_inv sk \<Longrightarrow> length (sk_order sk) = length (sk_keys sk)"
  by (metis distinct_card image_set length_map sk_inv_def)

text \<open>
  With the invariant the eviction loop removes exactly one key, the oldest, and only from a full
  cache.
\<close>

lemma sk_evict_room:
  "length keys < MAX_SKIPPED_KEYS \<Longrightarrow> sk_evict keys order = (keys, order)"
  by (cases order) simp_all

lemma sk_evict_full:
  assumes "distinct (map fst keys)" and "length keys = MAX_SKIPPED_KEYS"
    and "oldest \<in> fst ` set keys"
  shows "sk_evict keys (oldest # order) = (AList.delete oldest keys, order)"
proof -
  have "length (AList.delete oldest keys) < MAX_SKIPPED_KEYS"
    using alist_length_delete [OF assms(1,3)] assms(2) by simp
  with assms(2) show ?thesis by (simp add: sk_evict_room)
qed

lemma sk_evict_inv:
  assumes "sk_inv sk" and "sk_evict (sk_keys sk) (sk_order sk) = (keys, order)"
  shows "sk_inv \<lparr>sk_keys = keys, sk_order = order\<rparr> \<and> length keys < MAX_SKIPPED_KEYS"
proof (cases "length (sk_keys sk) < MAX_SKIPPED_KEYS")
  case True
  with assms show ?thesis by (simp add: sk_evict_room sk_inv_def)
next
  case False
  then have full: "length (sk_keys sk) = MAX_SKIPPED_KEYS"
    using assms(1) by (simp add: sk_inv_def)
  then have "length (sk_order sk) = MAX_SKIPPED_KEYS"
    using assms(1) by (simp add: length_order)
  then obtain oldest rest where ord: "sk_order sk = oldest # rest"
    by (cases "sk_order sk") (auto simp: MAX_SKIPPED_KEYS_def)
  from assms(1) ord have mem: "oldest \<in> fst ` set (sk_keys sk)" by (auto simp: sk_inv_def)
  from assms(1) have dist: "distinct (map fst (sk_keys sk))" by (simp add: sk_inv_def)
  from sk_evict_full [OF dist full mem] assms(2) ord
  have k: "keys = AList.delete oldest (sk_keys sk)" "order = rest" by simp_all
  have "length keys < MAX_SKIPPED_KEYS"
    using alist_length_delete [OF dist mem] k full by simp
  with assms(1) ord k dist show ?thesis
    by (auto simp: sk_inv_def alist_dom_delete intro: distinct_delete)
qed

lemma sk_evict_subset: "sk_evict ks os = (ks', os') \<Longrightarrow> set ks' \<subseteq> set ks"
proof (induction ks os rule: sk_evict.induct)
  case (2 ks old os)
  then show ?case by (auto split: if_splits dest: subsetD [OF alist_set_delete])
qed simp

lemma sk_insert_inv:
  assumes "sk_inv sk"
  shows "sk_inv (sk_insert h n k sk)"
proof (cases "map_of (sk_keys sk) (h, n) = None")
  case True
  obtain keys order where ev: "sk_evict (sk_keys sk) (sk_order sk) = (keys, order)"
    by fastforce
  from sk_evict_inv [OF assms ev]
  have inv: "sk_inv \<lparr>sk_keys = keys, sk_order = order\<rparr>" and len: "length keys < MAX_SKIPPED_KEYS"
    by simp_all
  from sk_evict_subset [OF ev] True have new: "(h, n) \<notin> fst ` set keys"
    by (auto simp: map_of_eq_None_iff)
  with inv len True ev show ?thesis
    by (auto simp: sk_insert_def Let_def sk_inv_def distinct_update alist_length_update dom_update
        split: prod.splits)
next
  case False
  then have mem: "(h, n) \<in> fst ` set (sk_keys sk)" by (metis map_of_eq_None_iff)
  with assms False show ?thesis
    by (auto simp: sk_insert_def sk_inv_def distinct_update alist_length_update dom_update)
qed

lemma sk_take_inv: "sk_inv sk \<Longrightarrow> sk_inv (snd (sk_take h n sk))"
  by (auto simp: sk_take_def sk_inv_def Let_def distinct_delete alist_dom_delete
      split: option.splits intro: order_trans [OF length_delete_le])

lemma sk_insert_room:
  assumes "length (sk_keys sk) < MAX_SKIPPED_KEYS"
  shows "sk_look (sk_insert h n k sk) = (sk_look sk)((h, n) \<mapsto> k)"
  using assms by (auto simp: sk_look_def sk_insert_def Let_def sk_evict_room update_conv')

lemma sk_insert_len: "sk_inv sk \<Longrightarrow> sk_len (sk_insert h n k sk) \<le> Suc (sk_len sk)"
proof -
  have evict_len: "length ks' \<le> length ks" if "sk_evict ks os = (ks', os')" for ks os ks' os'
    using that
  proof (induction ks os rule: sk_evict.induct)
    case (2 ks old os)
    then show ?case by (auto split: if_splits intro: order_trans [OF _ length_delete_le])
  qed simp
  show ?thesis
    by (auto simp: sk_len_def sk_insert_def Let_def alist_length_update dest: evict_len split: prod.splits)
qed

lemma sk_take_eq:
  "fst (sk_take h n sk) = sk_look sk (h, n)"
  "sk_look (snd (sk_take h n sk)) = (sk_look sk)((h, n) := None)"
  by (auto simp: sk_take_def sk_look_def Let_def delete_conv' fun_eq_iff split: option.splits)

lemma sk_take_len: "sk_len (snd (sk_take h n sk)) \<le> sk_len sk"
  by (auto simp: sk_take_def sk_len_def Let_def length_delete_le split: option.splits)

text \<open>The operations of skipped.rs meet the contract with a capacity of 1000 keys.\<close>

interpretation skc: key_cache sk_new sk_insert sk_take sk_look sk_len sk_inv MAX_SKIPPED_KEYS
proof unfold_locales
  show "sk_look sk_new = (\<lambda>_. None)" "sk_len sk_new = 0"
    by (simp_all add: sk_look_def sk_len_def sk_new_def)
  show "sk_look (sk_insert h n k c) = (sk_look c)((h, n) \<mapsto> k)"
    if "sk_inv c" "sk_len c < MAX_SKIPPED_KEYS" for c h n k
    using that by (simp add: sk_insert_room sk_len_def)
  show "sk_len c \<le> MAX_SKIPPED_KEYS" if "sk_inv c" for c
    using that by (simp add: sk_inv_def sk_len_def)
qed (simp_all add: sk_inv_new sk_insert_inv sk_insert_len sk_take_inv sk_take_eq sk_take_len)

lemma sk_contains_look: "sk_contains sk h n \<longleftrightarrow> sk_look sk (h, n) \<noteq> None"
  by (simp add: sk_contains_def sk_look_def)

text \<open>A full cache: the oldest key goes, every other one stays.\<close>

lemma sk_insert_full_look:
  assumes "sk_inv sk" and "sk_len sk = MAX_SKIPPED_KEYS" and "sk_look sk (h, n) = None"
  shows "sk_look (sk_insert h n k sk) = (sk_look sk)(hd (sk_order sk) := None, (h, n) \<mapsto> k) \<and>
    sk_order (sk_insert h n k sk) = tl (sk_order sk) @ [(h, n)] \<and>
    sk_len (sk_insert h n k sk) = MAX_SKIPPED_KEYS"
proof -
  from assms(1,2) have "length (sk_order sk) = MAX_SKIPPED_KEYS"
    by (simp add: length_order sk_len_def)
  then obtain oldest rest where ord: "sk_order sk = oldest # rest"
    by (cases "sk_order sk") (auto simp: MAX_SKIPPED_KEYS_def)
  from assms(1) ord have mem: "oldest \<in> fst ` set (sk_keys sk)" by (auto simp: sk_inv_def)
  from assms(1) have dist: "distinct (map fst (sk_keys sk))" by (simp add: sk_inv_def)
  from assms(2) have full: "length (sk_keys sk) = MAX_SKIPPED_KEYS" by (simp add: sk_len_def)
  have ev: "sk_evict (sk_keys sk) (sk_order sk) = (AList.delete oldest (sk_keys sk), rest)"
    using sk_evict_full [OF dist full mem] ord by simp
  have "(h, n) \<notin> fst ` set (AList.delete oldest (sk_keys sk))"
    using assms(3) by (auto simp: alist_dom_delete sk_look_def map_of_eq_None_iff)
  with ev ord assms(3) full alist_length_delete [OF dist mem] show ?thesis
    by (auto simp: sk_insert_def Let_def sk_look_def sk_len_def update_conv' delete_conv' alist_length_update)
qed

end
