(* ===== verification/Double_Ratchet.thy ===== *)
theory Double_Ratchet
  imports Skipped_Keys
begin

text \<open>
  crates/hysj-crypto/src/ratchet/header.rs and double_ratchet.rs: the message header, the
  ratchet state and every operation on it. A method taking \<open>&mut self\<close> is an \<open>act\<close> on the
  state, so the state a failed call leaves behind is part of the model. The nonce of a
  ciphertext and the 32 random bytes of a new DH key are arguments.
\<close>

section \<open>header.rs\<close>

record message_header =
  dh_public :: bytes
  previous_chain_length :: u32
  message_number :: u32

definition header_new :: "bytes \<Rightarrow> u32 \<Rightarrow> u32 \<Rightarrow> message_header" where
  "header_new dh prev n = \<lparr>dh_public = dh, previous_chain_length = prev, message_number = n\<rparr>"

lemma header_new_simps [simp]:
  "dh_public (header_new d p n) = d" "previous_chain_length (header_new d p n) = p"
  "message_number (header_new d p n) = n"
  by (simp_all add: header_new_def)

definition header_to_bytes :: "message_header codec \<Rightarrow> message_header \<Rightarrow> ('e, bytes) outcome" where
  "header_to_bytes J h = expect ''header serialization should not fail'' (to_json J h)"

section \<open>double_ratchet.rs: state and helpers\<close>

definition MAX_SKIP :: u32 where
  "MAX_SKIP = 1000"

record ratchet_state =
  root_key :: bytes
  sending_chain_key :: "bytes option"
  receiving_chain_key :: "bytes option"
  dh_send_secret :: bytes
  dh_send_public :: bytes
  dh_receive_public :: "bytes option"
  send_message_number :: u32
  recv_message_number :: u32
  previous_sending_chain_length :: u32
  rs_skipped :: skipped_keys

type_synonym 'a ratchet = "(ratchet_state, crypto_error, 'a) act"

definition to_x25519_public :: "bytes \<Rightarrow> ('e, bytes) outcome" where
  "to_x25519_public bs = slice32 bs"

definition to_x25519_secret :: "bytes \<Rightarrow> ('e, bytes) outcome" where
  "to_x25519_secret bs = slice32 bs"

definition hex_encode :: "bytes \<Rightarrow> string" where
  "hex_encode bs = concat (map hex_byte bs)"

lemma hex_encode_inj [simp]: "hex_encode a = hex_encode b \<longleftrightarrow> a = b"
proof
  show "hex_encode a = hex_encode b \<Longrightarrow> a = b"
  proof (induction a arbitrary: b)
    case Nil
    then show ?case by (cases b) (simp_all add: hex_encode_def hex_byte_def)
  next
    case (Cons x xs)
    then obtain y ys where b: "b = y # ys"
      by (cases b) (simp_all add: hex_encode_def hex_byte_def)
    with Cons.prems have "hex_byte x = hex_byte y" "hex_encode xs = hex_encode ys"
      by (simp_all add: hex_encode_def hex_byte_def)
    with Cons.IH b show ?case by (simp add: hex_byte_inj)
  qed
qed simp

section \<open>Initialisation\<close>

definition init_sender :: "prims \<Rightarrow> bytes \<Rightarrow> bytes \<Rightarrow> bytes \<Rightarrow> ratchet_state crypto" where
  "init_sender P rnd shared_secret recipient_dh_public =
     (let dh_keypair = generate_x25519_keypair P rnd in
      bind_o (to_x25519_public recipient_dh_public) (\<lambda>their_public.
      let dh_output = x_dh P (kp_secret dh_keypair) their_public in
      bind_o (derive_root_key P shared_secret dh_output) (\<lambda>(root, sending).
      Ok \<lparr>root_key = root,
          sending_chain_key = Some sending,
          receiving_chain_key = None,
          dh_send_secret = kp_secret dh_keypair,
          dh_send_public = kp_public dh_keypair,
          dh_receive_public = Some recipient_dh_public,
          send_message_number = 0,
          recv_message_number = 0,
          previous_sending_chain_length = 0,
          rs_skipped = sk_new\<rparr>)))"

definition init_receiver :: "bytes \<Rightarrow> bytes \<times> bytes \<Rightarrow> ratchet_state" where
  "init_receiver shared_secret our_dh_keypair =
     (let (secret_bytes, public_bytes) = our_dh_keypair in
      \<lparr>root_key = shared_secret,
       sending_chain_key = None,
       receiving_chain_key = None,
       dh_send_secret = secret_bytes,
       dh_send_public = public_bytes,
       dh_receive_public = None,
       send_message_number = 0,
       recv_message_number = 0,
       previous_sending_chain_length = 0,
       rs_skipped = sk_new\<rparr>)"

section \<open>Encryption\<close>

definition rs_encrypt ::
    "prims \<Rightarrow> message_header codec \<Rightarrow> bytes \<Rightarrow> bytes \<Rightarrow> (bytes \<times> message_header) ratchet" where
  "rs_encrypt P J nonce plaintext =
     bind_a (get_s sending_chain_key) (\<lambda>ck_opt.
     case ck_opt of
       None \<Rightarrow> throw (RatchetError ''no sending chain key established'')
     | Some sending_ck \<Rightarrow>
         let (new_chain_key, message_key_vec) = derive_chain_key P sending_ck in
         bind_a (mod_s (\<lambda>s. s\<lparr>sending_chain_key := Some new_chain_key\<rparr>)) (\<lambda>_.
         bind_a (lift_o (slice32 message_key_vec)) (\<lambda>message_key.
         bind_a (get_s (\<lambda>s. header_new (dh_send_public s) (previous_sending_chain_length s)
                              (send_message_number s))) (\<lambda>header.
         bind_a (lift_o (header_to_bytes J header)) (\<lambda>aad.
         bind_a (lift_o (cipher_encrypt P nonce plaintext message_key aad)) (\<lambda>ciphertext.
         bind_a (mod_s (\<lambda>s. s\<lparr>send_message_number := send_message_number s + 1\<rparr>)) (\<lambda>_.
         ret (ciphertext, header))))))))"

section \<open>Skipping and the DH ratchet step\<close>

text \<open>The \<open>for n in recv..until\<close> loop of \<open>skip_missed_messages\<close>.\<close>

fun skip_loop :: "prims \<Rightarrow> string \<Rightarrow> u32 list \<Rightarrow> bytes \<Rightarrow> skipped_keys \<Rightarrow> bytes \<times> skipped_keys" where
  "skip_loop P dh_hex [] current_ck sk = (current_ck, sk)"
| "skip_loop P dh_hex (n # ns) current_ck sk =
     (let (new_ck, msg_key) = derive_chain_key P current_ck in
      skip_loop P dh_hex ns new_ck (sk_insert dh_hex n msg_key sk))"

definition skip_missed_messages :: "prims \<Rightarrow> u32 \<Rightarrow> unit ratchet" where
  "skip_missed_messages P until =
     bind_a (get_s (\<lambda>s. s)) (\<lambda>s.
     if recv_message_number s > until then ret ()
     else
       let skip_count = until - recv_message_number s in
       if skip_count > MAX_SKIP then
         throw (RatchetError (''too many skipped messages: '' @ nat_str (unat skip_count)))
       else
         case receiving_chain_key s of
           None \<Rightarrow> ret ()
         | Some receiving_ck \<Rightarrow>
             let dh_hex = (case dh_receive_public s of Some pk \<Rightarrow> hex_encode pk | None \<Rightarrow> '''');
                 (current_ck, sk) = skip_loop P dh_hex (range_u32 (recv_message_number s) until)
                                      receiving_ck (rs_skipped s)
             in mod_s (\<lambda>s. s\<lparr>rs_skipped := sk, receiving_chain_key := Some current_ck,
                              recv_message_number := until\<rparr>))"

definition dh_ratchet :: "prims \<Rightarrow> bytes \<Rightarrow> bytes \<Rightarrow> unit ratchet" where
  "dh_ratchet P rnd their_dh_public =
     bind_a (mod_s (\<lambda>s. s\<lparr>dh_receive_public := Some their_dh_public,
                           previous_sending_chain_length := send_message_number s,
                           send_message_number := 0,
                           recv_message_number := 0\<rparr>)) (\<lambda>_.
     bind_a (lift_o (to_x25519_public their_dh_public)) (\<lambda>their_public.
     bind_a (get_s dh_send_secret) (\<lambda>own_secret.
     bind_a (lift_o (to_x25519_secret own_secret)) (\<lambda>current_secret.
     let dh_output = x_dh P current_secret their_public in
     bind_a (get_s root_key) (\<lambda>root.
     bind_a (lift_o (derive_root_key P root dh_output)) (\<lambda>(new_root_key, receiving).
     bind_a (mod_s (\<lambda>s. s\<lparr>root_key := new_root_key, receiving_chain_key := Some receiving\<rparr>)) (\<lambda>_.
     let new_keypair = generate_x25519_keypair P rnd in
     bind_a (mod_s (\<lambda>s. s\<lparr>dh_send_secret := kp_secret new_keypair,
                           dh_send_public := kp_public new_keypair\<rparr>)) (\<lambda>_.
     let dh_output2 = x_dh P (kp_secret new_keypair) their_public in
     bind_a (lift_o (derive_root_key P new_root_key dh_output2)) (\<lambda>(new_root_key2, sending).
     mod_s (\<lambda>s. s\<lparr>root_key := new_root_key2, sending_chain_key := Some sending\<rparr>))))))))))"

section \<open>Decryption\<close>

definition decrypt_with :: "prims \<Rightarrow> message_header codec \<Rightarrow> bytes \<Rightarrow> message_header \<Rightarrow> bytes \<Rightarrow> bytes crypto" where
  "decrypt_with P J ciphertext header message_key =
     bind_o (header_to_bytes J header) (\<lambda>aad. cipher_decrypt P ciphertext message_key aad)"

definition need_ratchet :: "ratchet_state \<Rightarrow> message_header \<Rightarrow> bool" where
  "need_ratchet s header =
     (case dh_receive_public s of Some current \<Rightarrow> current \<noteq> dh_public header | None \<Rightarrow> True)"

text \<open>Steps 3 to 6 of \<open>decrypt\<close>: skip within the chain, derive the key, decrypt, count.\<close>

definition decrypt_chain :: "prims \<Rightarrow> message_header codec \<Rightarrow> bytes \<Rightarrow> message_header \<Rightarrow> bytes ratchet" where
  "decrypt_chain P J ciphertext header =
     bind_a (skip_missed_messages P (message_number header)) (\<lambda>_.
     bind_a (get_s receiving_chain_key) (\<lambda>ck_opt.
     case ck_opt of
       None \<Rightarrow> throw (RatchetError ''no receiving chain key'')
     | Some receiving_ck \<Rightarrow>
         let (new_chain_key, message_key_vec) = derive_chain_key P receiving_ck in
         bind_a (mod_s (\<lambda>s. s\<lparr>receiving_chain_key := Some new_chain_key\<rparr>)) (\<lambda>_.
         bind_a (lift_o (slice32 message_key_vec)) (\<lambda>message_key.
         bind_a (lift_o (decrypt_with P J ciphertext header message_key)) (\<lambda>plaintext.
         bind_a (mod_s (\<lambda>s. s\<lparr>recv_message_number := recv_message_number s + 1\<rparr>)) (\<lambda>_.
         ret plaintext))))))"

definition rs_decrypt ::
    "prims \<Rightarrow> message_header codec \<Rightarrow> bytes \<Rightarrow> bytes \<Rightarrow> message_header \<Rightarrow> bytes ratchet" where
  "rs_decrypt P J rnd ciphertext header =
     (let header_dh_hex = hex_encode (dh_public header) in
      bind_a (get_s (\<lambda>s. sk_take header_dh_hex (message_number header) (rs_skipped s))) (\<lambda>(taken, sk).
      bind_a (mod_s (\<lambda>s. s\<lparr>rs_skipped := sk\<rparr>)) (\<lambda>_.
      case taken of
        Some msg_key_vec \<Rightarrow>
          bind_a (lift_o (slice32 msg_key_vec)) (\<lambda>message_key.
          lift_o (decrypt_with P J ciphertext header message_key))
      | None \<Rightarrow>
          bind_a (get_s (\<lambda>s. need_ratchet s header)) (\<lambda>need.
          bind_a (if need then
                    bind_a (skip_missed_messages P (previous_chain_length header)) (\<lambda>_.
                    dh_ratchet P rnd (dh_public header))
                  else ret ()) (\<lambda>_.
          decrypt_chain P J ciphertext header)))))"

section \<open>Serialization and drop\<close>

definition rs_serialize :: "ratchet_state codec \<Rightarrow> ratchet_state \<Rightarrow> ('e, bytes) outcome" where
  "rs_serialize S s = expect ''ratchet state serialization should not fail'' (to_json S s)"

definition rs_deserialize :: "ratchet_state codec \<Rightarrow> bytes \<Rightarrow> ratchet_state crypto" where
  "rs_deserialize S data = of_sum DeserializationError (from_json S data)"

definition rs_drop :: "ratchet_state \<Rightarrow> ratchet_state" where
  "rs_drop s = s\<lparr>root_key := zero_memory (root_key s),
                sending_chain_key := map_option zero_memory (sending_chain_key s),
                receiving_chain_key := map_option zero_memory (receiving_chain_key s),
                dh_send_secret := zero_memory (dh_send_secret s)\<rparr>"

text \<open>
  serde_json writes a map as an object, whose keys are strings; its documentation says that
  serializing a map with other keys fails. The cache is keyed by a pair.
\<close>

definition state_json_laws :: "ratchet_state codec \<Rightarrow> bool" where
  "state_json_laws S \<longleftrightarrow> codec_laws S \<and>
     (\<forall>s. if sk_keys (rs_skipped s) = [] then \<exists>b. to_json S s = Inr b
          else to_json S s = Inl ''key must be a string'')"

end
