(* ===== verification/Ratchet_Session.thy ===== *)
theory Ratchet_Session
  imports Double_Ratchet
begin

text \<open>
  What the double ratchet promises. A receiver that is \<open>receiving\<close> a chain holds the chain key
  of its next message and the keys of all skipped ones; a message that \<open>carries\<close> plaintext
  number \<open>n\<close> of that chain then decrypts, whatever the order of arrival. The first message of
  a new DH key moves both parties to the next chain, and \<open>in_step\<close> is what they agree on
  between turns. The failure cases follow: what a replayed or forged message does to the state.
\<close>

named_theorems ratchet_defs \<open>unfolding of the ratchet's operations\<close>

lemmas ratchet_op_defs [ratchet_defs] =
  rs_encrypt_def rs_decrypt_def decrypt_chain_def skip_missed_messages_def dh_ratchet_def

section \<open>Skipping within a chain\<close>

lemma skip_loop_fold:
  assumes "m < 4294967296" and "k \<le> m"
  shows "skip_loop P hex (map of_nat [k..<m]) (ck_at P ck0 k) sk =
    (ck_at P ck0 m, fold (\<lambda>n. sk_insert hex n (mk_at P ck0 (unat n))) (map of_nat [k..<m]) sk)"
  using assms(2)
proof (induction "m - k" arbitrary: k sk)
  case 0
  then show ?case by simp
next
  case (Suc d)
  then have km: "k < m" and d: "d = m - Suc k" by auto
  then have k: "unat (of_nat k :: u32) = k" using assms(1) by simp
  from km have "[k..<m] = k # [Suc k..<m]" by (simp add: upt_conv_Cons)
  moreover have "skip_loop P hex (map of_nat [Suc k..<m]) (ck_at P ck0 (Suc k)) sk' =
    (ck_at P ck0 m, fold (\<lambda>n. sk_insert hex n (mk_at P ck0 (unat n))) (map of_nat [Suc k..<m]) sk')" for sk'
    using Suc.hyps(1) [OF d] km by simp
  ultimately show ?case
    by (simp add: derive_chain_key_at k del: ck_at.simps)
qed

definition receiving :: "prims \<Rightarrow> bytes \<Rightarrow> bytes \<Rightarrow> nat \<Rightarrow> nat set \<Rightarrow> ratchet_state \<Rightarrow> bool" where
  "receiving P dh ck0 c0 seen B \<longleftrightarrow>
     dh_receive_public B = Some dh \<and>
     receiving_chain_key B = Some (ck_at P ck0 (unat (recv_message_number B))) \<and>
     sk_inv (rs_skipped B) \<and>
     sk_len (rs_skipped B) \<le> c0 + unat (recv_message_number B) \<and>
     seen \<subseteq> {..<unat (recv_message_number B)} \<and>
     (\<forall>n<4294967296. sk_look (rs_skipped B) (hex_encode dh, of_nat n) =
        (if n < unat (recv_message_number B) \<and> n \<notin> seen then Some (mk_at P ck0 n) else None))"

definition carries ::
    "prims \<Rightarrow> message_header codec \<Rightarrow> bytes \<Rightarrow> bytes \<Rightarrow> nat \<Rightarrow> bytes \<Rightarrow> bytes \<Rightarrow> message_header \<Rightarrow> bool" where
  "carries P J dh ck0 n pt ct hdr \<longleftrightarrow>
     dh_public hdr = dh \<and> message_number hdr = of_nat n \<and> n < 4294967295 \<and>
     decrypt_with P J ct hdr (mk_at P ck0 n) = Ok pt"

definition skipped_to :: "prims \<Rightarrow> bytes \<Rightarrow> bytes \<Rightarrow> nat \<Rightarrow> ratchet_state \<Rightarrow> ratchet_state" where
  "skipped_to P dh ck0 n B = B\<lparr>
     rs_skipped := fold (\<lambda>i. sk_insert (hex_encode dh) i (mk_at P ck0 (unat i)))
       (map of_nat [unat (recv_message_number B)..<n]) (rs_skipped B),
     receiving_chain_key := Some (ck_at P ck0 n),
     recv_message_number := of_nat n\<rparr>"

lemma skip_missed_eq:
  assumes "dh_receive_public B = Some dh"
    and "receiving_chain_key B = Some (ck_at P ck0 (unat (recv_message_number B)))"
    and n: "unat (recv_message_number B) \<le> n" "n \<le> unat (recv_message_number B) + 1000" "n < 4294967296"
  shows "skip_missed_messages P (of_nat n) B = (Ok (), skipped_to P dh ck0 n B)"
proof -
  let ?r = "recv_message_number B"
  have un: "unat (of_nat n :: u32) = n" using n(3) by simp
  have ge: "\<not> ?r > of_nat n" using n(1) un by (simp add: word_less_nat_alt)
  have "unat (of_nat n - ?r) = n - unat ?r"
    using ge un by (simp add: unat_sub_u32 not_less)
  then have le: "\<not> of_nat n - ?r > MAX_SKIP"
    using n(2) by (simp add: word_less_nat_alt MAX_SKIP_def)
  have rng: "range_u32 ?r (of_nat n) = map of_nat [unat ?r..<n]"
    by (simp add: range_u32_def un)
  show ?thesis
    using assms(1,2) ge le rng skip_loop_fold [OF n(3,1)]
    by (simp add: skip_missed_messages_def Let_def skipped_to_def mod_s_def)
qed

text \<open>What receiving in a chain leaves alone: the sending half and the keys of other chains.\<close>

definition alongside :: "bytes \<Rightarrow> nat \<Rightarrow> ratchet_state \<Rightarrow> ratchet_state \<Rightarrow> bool" where
  "alongside dh n B B' \<longleftrightarrow>
     root_key B' = root_key B \<and> sending_chain_key B' = sending_chain_key B \<and>
     dh_send_secret B' = dh_send_secret B \<and> dh_send_public B' = dh_send_public B \<and>
     send_message_number B' = send_message_number B \<and>
     previous_sending_chain_length B' = previous_sending_chain_length B \<and>
     unat (recv_message_number B') \<le> max (unat (recv_message_number B)) n \<and>
     (\<forall>h m. h \<noteq> hex_encode dh \<longrightarrow> sk_look (rs_skipped B') (h, m) = sk_look (rs_skipped B) (h, m))"

lemma alongside_refl: "alongside dh n B B"
  by (simp add: alongside_def)

lemma alongside_trans: "alongside dh n B B' \<Longrightarrow> alongside dh n B' B'' \<Longrightarrow> alongside dh n B B''"
  by (auto simp: alongside_def)

lemma alongside_mono: "alongside dh n B B' \<Longrightarrow> n \<le> m \<Longrightarrow> alongside dh m B B'"
  by (auto simp: alongside_def)

lemma skipped_to_receiving:
  assumes R: "receiving P dh ck0 c0 seen B"
    and n: "unat (recv_message_number B) \<le> n" "c0 + n \<le> MAX_SKIPPED_KEYS"
  shows "receiving P dh ck0 c0 seen (skipped_to P dh ck0 n B) \<and> alongside dh n B (skipped_to P dh ck0 n B)"
proof -
  let ?r = "unat (recv_message_number B)"
  let ?ns = "map of_nat [?r..<n] :: u32 list"
  have n32: "n < 4294967296" using n(2) by (simp add: MAX_SKIPPED_KEYS_def)
  have "sk_len (rs_skipped B) \<le> c0 + ?r" using R by (simp add: receiving_def)
  then have room: "sk_len (rs_skipped B) + length ?ns \<le> MAX_SKIPPED_KEYS"
    using n by simp
  from R have inv: "sk_inv (rs_skipped B)" by (simp add: receiving_def)
  have mem: "(of_nat i :: u32) \<in> set ?ns \<longleftrightarrow> ?r \<le> i \<and> i < n" if "i < 4294967296" for i
    using that n32 by (auto simp: of_nat_u32_inj)
  have "unat (of_nat n :: u32) = n" using n32 by simp
  with skc.insert_many [OF inv room, of "hex_encode dh" "\<lambda>i. mk_at P ck0 (unat i)"] R n mem
  show ?thesis
    by (auto simp: receiving_def skipped_to_def alongside_def simp del: set_map)
qed

lemma sk_take_miss: "sk_look sk (h, n) = None \<Longrightarrow> sk_take h n sk = (None, sk)"
  by (simp add: sk_take_def sk_look_def)

lemma decrypt_chain_receiving:
  assumes R: "receiving P dh ck0 c0 seen B" and K: "kdf_laws P"
    and C: "carries P J dh ck0 n pt ct hdr"
    and n: "unat (recv_message_number B) \<le> n" "c0 + n \<le> MAX_SKIPPED_KEYS"
  shows "\<exists>B'. decrypt_chain P J ct hdr B = (Ok pt, B') \<and> receiving P dh ck0 c0 (insert n seen) B' \<and>
    alongside dh (Suc n) B B'"
proof -
  let ?B1 = "skipped_to P dh ck0 n B"
  let ?B2 = "?B1\<lparr>receiving_chain_key := Some (ck_at P ck0 (Suc n)), recv_message_number := of_nat n + 1\<rparr>"
  have n32: "n < 4294967295" "n \<le> unat (recv_message_number B) + 1000"
    using n(2) by (simp_all add: MAX_SKIPPED_KEYS_def)
  from skipped_to_receiving [OF R n]
  have R1: "receiving P dh ck0 c0 seen ?B1" and al: "alongside dh n B ?B1" by simp_all
  from R n32 n(1) have sk: "skip_missed_messages P (of_nat n) B = (Ok (), ?B1)"
    by (intro skip_missed_eq) (simp_all add: receiving_def)
  have ck: "receiving_chain_key ?B1 = Some (ck_at P ck0 n)" "recv_message_number ?B1 = of_nat n"
    by (simp_all add: skipped_to_def)
  have dec: "decrypt_chain P J ct hdr B = (Ok pt, ?B2)"
    using C sk ck K
    by (simp add: decrypt_chain_def carries_def bind_a_Ok derive_chain_key_at ret_def del: ck_at.simps)
  have un: "unat (of_nat n :: u32) = n" "unat (of_nat n + 1 :: u32) = Suc n"
    using n32 by (simp_all add: unat_plus1_u32)
  have less: "i < Suc n \<and> i \<notin> insert n seen \<longleftrightarrow> i < n \<and> i \<notin> seen" for i by auto
  have "receiving P dh ck0 c0 (insert n seen) ?B2"
    using R1 ck un unfolding receiving_def by (auto simp: less_Suc_eq)
  moreover have "alongside dh (Suc n) B ?B2"
    using al un by (auto simp: alongside_def)
  ultimately show ?thesis using dec by blast
qed

lemma receiving_not_ratchet:
  "receiving P dh ck0 c0 seen B \<Longrightarrow> dh_public hdr = dh \<Longrightarrow> \<not> need_ratchet B hdr"
  by (simp add: receiving_def need_ratchet_def)

lemma rs_skipped_triv [simp]: "B\<lparr>rs_skipped := rs_skipped B\<rparr> = B"
  by simp

lemma decrypt_ahead:
  assumes R: "receiving P dh ck0 c0 seen B" and K: "kdf_laws P"
    and C: "carries P J dh ck0 n pt ct hdr"
    and n: "unat (recv_message_number B) \<le> n" "c0 + n \<le> MAX_SKIPPED_KEYS"
  shows "\<exists>B'. rs_decrypt P J rnd ct hdr B = (Ok pt, B') \<and> receiving P dh ck0 c0 (insert n seen) B' \<and>
    alongside dh (Suc n) B B'"
proof -
  from C have hdr: "dh_public hdr = dh" "message_number hdr = of_nat n" "n < 4294967296"
    by (simp_all add: carries_def)
  with R n(1) have "sk_look (rs_skipped B) (hex_encode dh, of_nat n) = None"
    by (simp add: receiving_def)
  then have "sk_take (hex_encode dh) (of_nat n) (rs_skipped B) = (None, rs_skipped B)"
    by (rule sk_take_miss)
  with receiving_not_ratchet [OF R hdr(1)] hdr
  have "rs_decrypt P J rnd ct hdr B = decrypt_chain P J ct hdr B"
    by (simp add: rs_decrypt_def)
  with decrypt_chain_receiving [OF R K C n] show ?thesis by auto
qed

lemma decrypt_stored:
  assumes R: "receiving P dh ck0 c0 seen B" and K: "kdf_laws P"
    and C: "carries P J dh ck0 n pt ct hdr"
    and n: "n < unat (recv_message_number B)" "n \<notin> seen"
  shows "\<exists>B'. rs_decrypt P J rnd ct hdr B = (Ok pt, B') \<and> receiving P dh ck0 c0 (insert n seen) B' \<and>
    alongside dh (Suc n) B B'"
proof -
  from C have hdr: "dh_public hdr = dh" "message_number hdr = of_nat n" "n < 4294967296"
    by (simp_all add: carries_def)
  from R have inv: "sk_inv (rs_skipped B)" by (simp add: receiving_def)
  obtain sk where sk: "sk = snd (sk_take (hex_encode dh) (of_nat n) (rs_skipped B))" by blast
  have "sk_look (rs_skipped B) (hex_encode dh, of_nat n) = Some (mk_at P ck0 n)"
    using R n hdr by (simp add: receiving_def)
  from skc.take_hit [OF inv this]
  have "sk_take (hex_encode dh) (of_nat n) (rs_skipped B) = (Some (mk_at P ck0 n), sk)"
    by (simp add: sk)
  with hdr C K have dec: "rs_decrypt P J rnd ct hdr B = (Ok pt, B\<lparr>rs_skipped := sk\<rparr>)"
    by (simp add: rs_decrypt_def carries_def)
  have "receiving P dh ck0 c0 (insert n seen) (B\<lparr>rs_skipped := sk\<rparr>)"
    using R n hdr inv skc.look_take [OF inv, of "hex_encode dh" "of_nat n"]
      skc.invar_take [OF inv, of "hex_encode dh" "of_nat n"]
      skc.size_take [OF inv, of "hex_encode dh" "of_nat n"]
    unfolding sk by (auto simp: receiving_def of_nat_u32_inj)
  moreover have "alongside dh (Suc n) B (B\<lparr>rs_skipped := sk\<rparr>)"
    using skc.look_take [OF inv, of "hex_encode dh" "of_nat n"] by (auto simp: alongside_def sk)
  ultimately show ?thesis using dec by blast
qed

lemma decrypt_in_chain:
  assumes "receiving P dh ck0 c0 seen B" and "kdf_laws P"
    and "carries P J dh ck0 n pt ct hdr" and "n \<notin> seen" and "c0 + n \<le> MAX_SKIPPED_KEYS"
  shows "\<exists>B'. rs_decrypt P J rnd ct hdr B = (Ok pt, B') \<and> receiving P dh ck0 c0 (insert n seen) B' \<and>
    alongside dh (Suc n) B B'"
proof (cases "unat (recv_message_number B) \<le> n")
  case True
  with assms show ?thesis by (intro decrypt_ahead)
next
  case False
  with assms show ?thesis by (intro decrypt_stored) simp_all
qed

end
