(* ===== verification/Ratchet_Conversation.thy ===== *)
theory Ratchet_Conversation
  imports Ratchet_Session
begin

text \<open>
  Conversations over the double ratchet: what both parties agree on between turns (\<open>in_step\<close>),
  the run of a turn in which one party sends and the other receives in any order and with
  losses, and the theorem that every message that arrives decrypts to what was sent. Then what
  every operation keeps of the cache, whatever it is given, and what a call that fails does.
\<close>

section \<open>Sending\<close>

text \<open>Encrypting a batch in order, each message with its nonce.\<close>

fun encrypt_all ::
    "prims \<Rightarrow> message_header codec \<Rightarrow> (bytes \<times> bytes) list \<Rightarrow> ratchet_state \<Rightarrow>
     (crypto_error, bytes \<times> message_header) outcome list \<times> ratchet_state" where
  "encrypt_all P J [] s = ([], s)"
| "encrypt_all P J ((nonce, pt) # ms) s =
     (let (r, s1) = rs_encrypt P J nonce pt s; (rs, s2) = encrypt_all P J ms s1 in (r # rs, s2))"

fun decrypt_all ::
    "prims \<Rightarrow> message_header codec \<Rightarrow> (bytes \<times> bytes \<times> message_header) list \<Rightarrow> ratchet_state \<Rightarrow>
     (crypto_error, bytes) outcome list \<times> ratchet_state" where
  "decrypt_all P J [] s = ([], s)"
| "decrypt_all P J ((rnd, ct, hdr) # ms) s =
     (let (r, s1) = rs_decrypt P J rnd ct hdr s; (rs, s2) = decrypt_all P J ms s1 in (r # rs, s2))"

definition sending :: "prims \<Rightarrow> bytes \<Rightarrow> bytes \<Rightarrow> nat \<Rightarrow> ratchet_state \<Rightarrow> bool" where
  "sending P dh ck0 n A \<longleftrightarrow>
     dh_send_public A = dh \<and> sending_chain_key A = Some (ck_at P ck0 n) \<and> send_message_number A = of_nat n"

text \<open>What sending leaves alone.\<close>

definition same_receiver :: "ratchet_state \<Rightarrow> ratchet_state \<Rightarrow> bool" where
  "same_receiver A A' \<longleftrightarrow>
     root_key A' = root_key A \<and> receiving_chain_key A' = receiving_chain_key A \<and>
     dh_send_secret A' = dh_send_secret A \<and> dh_send_public A' = dh_send_public A \<and>
     dh_receive_public A' = dh_receive_public A \<and> recv_message_number A' = recv_message_number A \<and>
     previous_sending_chain_length A' = previous_sending_chain_length A \<and> rs_skipped A' = rs_skipped A"

lemma encrypt_sends:
  assumes S: "sending P dh ck0 n A" and K: "kdf_laws P" and E: "aead_laws P"
    and nonce: "length nonce = 24" and n: "n < 4294967295"
    and enc: "rs_encrypt P J nonce pt A = (Ok (ct, hdr), A')"
  shows "carries P J dh ck0 n pt ct hdr \<and> previous_chain_length hdr = previous_sending_chain_length A \<and>
    sending P dh ck0 (Suc n) A' \<and> same_receiver A A'"
proof -
  let ?h = "header_new dh (previous_sending_chain_length A) (of_nat n)"
  obtain aad where aad: "(header_to_bytes J ?h :: bytes crypto) = Ok aad"
    using enc S K
    by (cases "header_to_bytes J ?h :: bytes crypto")
      (auto simp: rs_encrypt_def sending_def derive_chain_key_at bind_a_split simp del: ck_at.simps)
  obtain c where c: "cipher_encrypt P nonce pt (mk_at P ck0 n) aad = Ok c"
    using enc S K aad cipher_no_panic(1)
    by (cases "cipher_encrypt P nonce pt (mk_at P ck0 n) aad")
      (auto simp: rs_encrypt_def sending_def derive_chain_key_at bind_a_split simp del: ck_at.simps)
  have r: "ct = c" "hdr = ?h"
    "A' = A\<lparr>sending_chain_key := Some (ck_at P ck0 (Suc n)), send_message_number := of_nat n + 1\<rparr>"
    using enc S K aad c
    by (auto simp: rs_encrypt_def sending_def derive_chain_key_at bind_a_split simp del: ck_at.simps)
  have "decrypt_with P J ct hdr (mk_at P ck0 n) = Ok pt"
    using cipher_roundtrip [OF E nonce c] aad by (simp add: decrypt_with_def r)
  with n S show ?thesis
    by (simp add: carries_def r header_new_def sending_def same_receiver_def add.commute)
qed

lemma encrypt_all_sends:
  assumes "sending P dh ck0 n A" and "kdf_laws P" and "aead_laws P"
    and "\<forall>m\<in>set ms. length (fst m) = 24" and "n + length ms \<le> 4294967295"
    and "encrypt_all P J ms A = (map Ok sent, A')"
  shows "length sent = length ms \<and> sending P dh ck0 (n + length ms) A' \<and> same_receiver A A' \<and>
    (\<forall>i < length ms. carries P J dh ck0 (n + i) (snd (ms ! i)) (fst (sent ! i)) (snd (sent ! i)) \<and>
       previous_chain_length (snd (sent ! i)) = previous_sending_chain_length A)"
  using assms(1,4,5,6)
proof (induction ms arbitrary: n A sent)
  case Nil
  then show ?case by (simp add: same_receiver_def)
next
  case (Cons m ms)
  obtain nonce pt where m: "m = (nonce, pt)" by (cases m)
  obtain r A1 where r: "rs_encrypt P J nonce pt A = (r, A1)" by fastforce
  obtain rs A2 where rs: "encrypt_all P J ms A1 = (rs, A2)" by fastforce
  from Cons.prems(4) m r rs obtain ct hdr sent' where
    s: "r = Ok (ct, hdr)" "sent = (ct, hdr) # sent'" "rs = map Ok sent'" "A2 = A'"
    by (cases sent) auto
  have step: "carries P J dh ck0 n pt ct hdr" "previous_chain_length hdr = previous_sending_chain_length A"
    "sending P dh ck0 (Suc n) A1" "same_receiver A A1"
    using encrypt_sends [OF Cons.prems(1) assms(2,3) _ _ r [unfolded s(1)]] Cons.prems(2,3) m by auto
  have ih: "length sent' = length ms \<and> sending P dh ck0 (Suc n + length ms) A' \<and> same_receiver A1 A' \<and>
    (\<forall>i < length ms. carries P J dh ck0 (Suc n + i) (snd (ms ! i)) (fst (sent' ! i)) (snd (sent' ! i)) \<and>
       previous_chain_length (snd (sent' ! i)) = previous_sending_chain_length A1)"
    using Cons.IH [OF step(3) _ _ rs [unfolded s(3,4)]] Cons.prems(2,3) by simp
  show ?case
    unfolding s(2) m using ih step by (auto simp: nth_Cons same_receiver_def split: nat.splits)
qed

section \<open>Receiving a whole batch\<close>

lemma decrypt_all_in_chain:
  assumes "receiving P dh ck0 c0 seen B" and "kdf_laws P"
    and "\<forall>(i, r) \<in> set order. carries P J dh ck0 i (pt i) (fst (msg i)) (snd (msg i)) \<and> i < m"
    and "distinct (map fst order)" and "fst ` set order \<inter> seen = {}" and "c0 + m \<le> MAX_SKIPPED_KEYS"
  shows "\<exists>B'. decrypt_all P J (map (\<lambda>(i, r). (r, msg i)) order) B = (map (\<lambda>(i, r). Ok (pt i)) order, B') \<and>
    receiving P dh ck0 c0 (fst ` set order \<union> seen) B' \<and> alongside dh m B B'"
  using assms(1,3,4,5)
proof (induction order arbitrary: B seen)
  case Nil
  then show ?case by (auto intro: alongside_refl)
next
  case (Cons x order)
  obtain i r where x: "x = (i, r)" by (cases x)
  from Cons.prems x assms(6) have i: "carries P J dh ck0 i (pt i) (fst (msg i)) (snd (msg i))"
    "i \<notin> seen" "c0 + i \<le> MAX_SKIPPED_KEYS" "Suc i \<le> m" by auto
  from decrypt_in_chain [OF Cons.prems(1) assms(2) i(1-3)] obtain B1 where
    B1: "rs_decrypt P J r (fst (msg i)) (snd (msg i)) B = (Ok (pt i), B1)"
    "receiving P dh ck0 c0 (insert i seen) B1" "alongside dh (Suc i) B B1" by blast
  have "\<exists>B'. decrypt_all P J (map (\<lambda>(i, r). (r, msg i)) order) B1 = (map (\<lambda>(i, r). Ok (pt i)) order, B') \<and>
    receiving P dh ck0 c0 (fst ` set order \<union> insert i seen) B' \<and> alongside dh m B1 B'"
    using Cons.prems x by (intro Cons.IH [OF B1(2)]) auto
  then obtain B' where B': "decrypt_all P J (map (\<lambda>(i, r). (r, msg i)) order) B1 = (map (\<lambda>(i, r). Ok (pt i)) order, B')"
    "receiving P dh ck0 c0 (fst ` set order \<union> insert i seen) B'" "alongside dh m B1 B'" by blast
  obtain ct hdr where msg: "msg i = (ct, hdr)" by fastforce
  from B1(1) B'(1) msg
  have "decrypt_all P J (map (\<lambda>(i, r). (r, msg i)) (x # order)) B = (map (\<lambda>(i, r). Ok (pt i)) (x # order), B')"
    by (simp add: x)
  moreover have "fst ` set (x # order) \<union> seen = fst ` set order \<union> insert i seen"
    by (simp add: x)
  ultimately show ?case
    using B'(2) alongside_trans [OF alongside_mono [OF B1(3) i(4)] B'(3)] by auto
qed

section \<open>The first message of a new chain\<close>

lemma skip_loop_cache:
  assumes "skip_loop P hex ns ck sk = (ck', sk')" and "sk_inv sk"
  shows "sk_inv sk' \<and> sk_len sk' \<le> sk_len sk + length ns \<and>
    (sk_len sk + length ns \<le> MAX_SKIPPED_KEYS \<longrightarrow>
       (\<forall>h n. h \<noteq> hex \<longrightarrow> sk_look sk' (h, n) = sk_look sk (h, n)))"
  using assms
proof (induction ns arbitrary: ck sk)
  case (Cons n ns)
  let ?sk = "sk_insert hex n (snd (derive_chain_key P ck)) sk"
  have inv: "sk_inv ?sk" using Cons.prems(2) by (rule sk_insert_inv)
  have len: "sk_len ?sk \<le> Suc (sk_len sk)" using Cons.prems(2) by (rule sk_insert_len)
  have look: "sk_look ?sk (h, k) = sk_look sk (h, k)" if "sk_len sk < MAX_SKIPPED_KEYS" "h \<noteq> hex" for h k
    using that by (simp add: sk_insert_room sk_len_def)
  from Cons.prems(1) have "skip_loop P hex ns (fst (derive_chain_key P ck)) ?sk = (ck', sk')"
    by (simp add: case_prod_beta)
  from Cons.IH [OF this inv] len look show ?case by auto
qed simp

text \<open>The DH public key a chain is filed under; the empty one before the first ratchet step.\<close>

definition peer :: "ratchet_state \<Rightarrow> bytes" where
  "peer s = (case dh_receive_public s of Some pk \<Rightarrow> pk | None \<Rightarrow> [])"

lemma peer_hex: "(case dh_receive_public s of Some pk \<Rightarrow> hex_encode pk | None \<Rightarrow> '''') = hex_encode (peer s)"
  by (simp add: peer_def hex_encode_def split: option.splits)

definition waiting :: "nat \<Rightarrow> u32 \<Rightarrow> ratchet_state \<Rightarrow> bool" where
  "waiting c n s \<longleftrightarrow> unat (recv_message_number s) \<le> unat n \<and>
     sk_len (rs_skipped s) + (unat n - unat (recv_message_number s)) \<le> c"

lemma waiting_guards:
  assumes W: "waiting c n B" and c: "c \<le> MAX_SKIPPED_KEYS"
  shows "\<not> n < recv_message_number B" "\<not> MAX_SKIP < n - recv_message_number B"
proof -
  from W have le: "recv_message_number B \<le> n" by (simp add: waiting_def word_le_nat_alt)
  then show "\<not> n < recv_message_number B" by simp
  have "unat (n - recv_message_number B) \<le> 1000"
    using W c by (simp add: waiting_def unat_sub_u32 [OF le] MAX_SKIPPED_KEYS_def)
  then show "\<not> MAX_SKIP < n - recv_message_number B"
    by (simp add: word_less_nat_alt MAX_SKIP_def)
qed

lemma skip_rest_of_chain:
  assumes W: "waiting c n B" and c: "c \<le> MAX_SKIPPED_KEYS" and inv: "sk_inv (rs_skipped B)"
  shows "\<exists>sk ck r. skip_missed_messages P n B =
      (Ok (), B\<lparr>rs_skipped := sk, receiving_chain_key := ck, recv_message_number := r\<rparr>) \<and>
    sk_inv sk \<and> sk_len sk \<le> c \<and> (\<forall>h m. h \<noteq> hex_encode (peer B) \<longrightarrow> sk_look sk (h, m) = sk_look (rs_skipped B) (h, m))"
proof (cases "receiving_chain_key B")
  case None
  from W have "sk_len (rs_skipped B) \<le> c" by (simp add: waiting_def)
  moreover from None waiting_guards [OF W c] have "skip_missed_messages P n B =
      (Ok (), B\<lparr>rs_skipped := rs_skipped B, receiving_chain_key := receiving_chain_key B,
        recv_message_number := recv_message_number B\<rparr>)"
    by (simp add: skip_missed_messages_def Let_def)
  ultimately show ?thesis using inv by blast
next
  case (Some ck)
  let ?ns = "range_u32 (recv_message_number B) n"
  obtain ck' sk where l: "skip_loop P (hex_encode (peer B)) ?ns ck (rs_skipped B) = (ck', sk)" by fastforce
  have len: "sk_len (rs_skipped B) + length ?ns \<le> c"
    using W unfolding range_u32_def waiting_def by simp linarith
  from Some waiting_guards [OF W c] l have run: "skip_missed_messages P n B =
      (Ok (), B\<lparr>rs_skipped := sk, receiving_chain_key := Some ck', recv_message_number := n\<rparr>)"
    by (simp add: skip_missed_messages_def Let_def peer_hex)
  from skip_loop_cache [OF l inv] len c
  have "sk_inv sk \<and> sk_len sk \<le> c \<and>
    (\<forall>h m. h \<noteq> hex_encode (peer B) \<longrightarrow> sk_look sk (h, m) = sk_look (rs_skipped B) (h, m))"
    by (simp del: split_paired_All)
  with run show ?thesis by blast
qed

lemma dh_ratchet_run:
  assumes "kdf_laws P" and "length (dh_send_secret B) = 32" and "length pk = 32"
    and "derive_root_key P (root_key B) (x_dh P (dh_send_secret B) pk) = Ok (rk, ck)"
  shows "\<exists>rk2 ck2. derive_root_key P rk (x_dh P rnd pk) = Ok (rk2, ck2) \<and>
    dh_ratchet P rnd pk B = (Ok (), B\<lparr>dh_receive_public := Some pk,
      previous_sending_chain_length := send_message_number B, send_message_number := 0,
      recv_message_number := 0, root_key := rk2, receiving_chain_key := Some ck,
      dh_send_secret := rnd, dh_send_public := x_pub P rnd, sending_chain_key := Some ck2\<rparr>)"
proof -
  obtain rk2 ck2 where d: "derive_root_key P rk (x_dh P rnd pk) = Ok (rk2, ck2)"
    using assms(1) by (rule derive_root_key_Ok)
  with assms show ?thesis
    by (simp add: dh_ratchet_def to_x25519_public_def to_x25519_secret_def generate_x25519_keypair_def Let_def)
qed

section \<open>What the parties agree on between turns\<close>

definition cache_within :: "bytes set \<Rightarrow> ratchet_state \<Rightarrow> bool" where
  "cache_within U s \<longleftrightarrow> (\<forall>h n. sk_look (rs_skipped s) (h, n) \<noteq> None \<longrightarrow> h \<in> hex_encode ` U)"

text \<open>
  \<open>in_step P used c A B\<close>: A is about to send on a chain that B can derive from its own root and
  DH key; \<open>used\<close> holds the DH public keys seen so far and \<open>c\<close> bounds the keys either side may
  have to store for messages sent so far.
\<close>

definition in_step :: "prims \<Rightarrow> bytes set \<Rightarrow> nat \<Rightarrow> ratchet_state \<Rightarrow> ratchet_state \<Rightarrow> bool" where
  "in_step P used c A B \<longleftrightarrow>
     length (dh_send_secret A) = 32 \<and> length (dh_send_secret B) = 32 \<and>
     dh_send_public A = x_pub P (dh_send_secret A) \<and> dh_send_public B = x_pub P (dh_send_secret B) \<and>
     (\<exists>ck. sending_chain_key A = Some ck \<and>
        derive_root_key P (root_key B) (x_dh P (dh_send_secret B) (dh_send_public A)) = Ok (root_key A, ck)) \<and>
     send_message_number A = 0 \<and>
     peer A \<in> used \<and> peer B \<in> used - {dh_send_public A} \<and> dh_send_public A \<in> used \<and>
     sk_inv (rs_skipped A) \<and> sk_inv (rs_skipped B) \<and>
     cache_within used A \<and> cache_within (used - {dh_send_public A}) B \<and>
     waiting c (previous_sending_chain_length A) B \<and> waiting c (send_message_number B) A"

lemma cache_without:
  assumes "cache_within (used - {k}) B"
  shows "sk_look (rs_skipped B) (hex_encode k, n) = None"
proof (rule ccontr)
  assume "sk_look (rs_skipped B) (hex_encode k, n) \<noteq> None"
  then have "hex_encode k \<in> hex_encode ` (used - {k})" using assms by (simp add: cache_within_def) blast
  then show False by auto
qed

text \<open>Skipping the rest of the peer's chain only adds keys of the peer.\<close>

lemma cache_within_skipped:
  assumes "cache_within U B" and "k \<in> U"
    and "\<forall>h m. h \<noteq> hex_encode k \<longrightarrow> sk_look (rs_skipped C) (h, m) = sk_look (rs_skipped B) (h, m)"
  shows "cache_within U C"
  unfolding cache_within_def
proof (intro allI impI)
  fix h n assume *: "sk_look (rs_skipped C) (h, n) \<noteq> None"
  show "h \<in> hex_encode ` U"
  proof (cases "h = hex_encode k")
    case False
    with * assms(3) have "sk_look (rs_skipped B) (h, n) \<noteq> None" by simp
    with assms(1) show ?thesis unfolding cache_within_def by blast
  qed (use assms(2) in blast)
qed

lemma first_message_ratchets:
  assumes I: "in_step P used c A B" and ck: "sending_chain_key A = Some ck"
    and L: "dh_laws P" "kdf_laws P" and c: "c \<le> MAX_SKIPPED_KEYS"
    and rnd: "length rnd = 32"
    and hdr: "dh_public hdr = dh_send_public A" "previous_chain_length hdr = previous_sending_chain_length A"
  shows "\<exists>B1. (\<forall>J ct. rs_decrypt P J rnd ct hdr B = decrypt_chain P J ct hdr B1) \<and>
    receiving P (dh_send_public A) ck c {} B1 \<and> need_ratchet B1 hdr = False \<and> recv_message_number B1 = 0 \<and>
    dh_send_secret B1 = rnd \<and> dh_send_public B1 = x_pub P rnd \<and>
    previous_sending_chain_length B1 = send_message_number B \<and> send_message_number B1 = 0 \<and>
    cache_within (used - {dh_send_public A}) B1 \<and>
    (\<exists>ck2. sending_chain_key B1 = Some ck2 \<and>
       derive_root_key P (root_key A) (x_dh P rnd (dh_send_public A)) = Ok (root_key B1, ck2))"
proof -
  let ?a = "dh_send_public A"
  from I have inv: "sk_inv (rs_skipped B)" and W: "waiting c (previous_sending_chain_length A) B"
    and peer: "peer B \<in> used - {?a}" and within: "cache_within (used - {?a}) B"
    unfolding in_step_def by blast+
  from skip_rest_of_chain [OF W c inv] obtain sk k r where
    skip: "skip_missed_messages P (previous_sending_chain_length A) B =
      (Ok (), B\<lparr>rs_skipped := sk, receiving_chain_key := k, recv_message_number := r\<rparr>)"
    and sk: "sk_inv sk" "sk_len sk \<le> c"
      "\<forall>h m. h \<noteq> hex_encode (peer B) \<longrightarrow> sk_look sk (h, m) = sk_look (rs_skipped B) (h, m)"
    by blast
  let ?B0 = "B\<lparr>rs_skipped := sk, receiving_chain_key := k, recv_message_number := r\<rparr>"
  have root: "derive_root_key P (root_key ?B0) (x_dh P (dh_send_secret ?B0) ?a) = Ok (root_key A, ck)"
    using I ck by (auto simp: in_step_def)
  have len: "length (dh_send_secret ?B0) = 32" "length ?a = 32"
    using I L(1) by (auto simp: in_step_def)
  from dh_ratchet_run [OF L(2) len root, of rnd] obtain rk2 ck2 where
    d: "derive_root_key P (root_key A) (x_dh P rnd ?a) = Ok (rk2, ck2)"
    and run: "dh_ratchet P rnd ?a ?B0 = (Ok (), ?B0\<lparr>dh_receive_public := Some ?a,
      previous_sending_chain_length := send_message_number ?B0, send_message_number := 0,
      recv_message_number := 0, root_key := rk2, receiving_chain_key := Some ck,
      dh_send_secret := rnd, dh_send_public := x_pub P rnd, sending_chain_key := Some ck2\<rparr>)"
    by blast
  let ?B1 = "?B0\<lparr>dh_receive_public := Some ?a,
      previous_sending_chain_length := send_message_number ?B0, send_message_number := 0,
      recv_message_number := 0, root_key := rk2, receiving_chain_key := Some ck,
      dh_send_secret := rnd, dh_send_public := x_pub P rnd, sending_chain_key := Some ck2\<rparr>"
  note none = cache_without [OF within]
  have ne: "hex_encode ?a \<noteq> hex_encode (peer B)" using peer by auto
  with none sk(3) have none': "sk_look sk (hex_encode ?a, n) = None" for n by simp
  have need: "need_ratchet B hdr"
    using peer hdr(1) by (auto simp: need_ratchet_def peer_def split: option.splits)
  have dec: "rs_decrypt P J rnd ct hdr B = decrypt_chain P J ct hdr ?B1" for J ct
    using sk_take_miss [OF none] need skip run hdr
    by (simp add: rs_decrypt_def bind_a_Ok)
  have "cache_within (used - {?a}) ?B1"
    by (rule cache_within_skipped [OF within peer]) (use sk(3) in simp)
  moreover have "receiving P ?a ck c {} ?B1"
    using sk(1,2) none' by (simp add: receiving_def)
  ultimately show ?thesis
    using dec d hdr(1) by (intro exI [of _ ?B1]) (simp add: need_ratchet_def)
qed

section \<open>A turn\<close>

text \<open>
  A sends \<open>ms\<close> in order; B receives the messages numbered by \<open>order\<close>, each call with fresh
  random bytes in case it has to ratchet.
\<close>

definition deliver :: "(nat \<times> bytes) list \<Rightarrow> (bytes \<times> message_header) list \<Rightarrow> (bytes \<times> bytes \<times> message_header) list" where
  "deliver order sent = map (\<lambda>(i, r). (r, sent ! i)) order"

lemma turn_hands_over:
  assumes I: "in_step P used c A B" and L: "dh_laws P"
    and r: "length r = 32" "x_pub P r \<notin> used"
    and S': "sending P (dh_send_public A) ck m A'" "same_receiver A A'" and m: "m < 4294967295"
    and B1: "recv_message_number B1 = 0" "dh_send_secret B1 = r" "dh_send_public B1 = x_pub P r"
      "previous_sending_chain_length B1 = send_message_number B" "send_message_number B1 = 0"
      "cache_within (used - {dh_send_public A}) B1" "sending_chain_key B1 = Some ck2"
      "derive_root_key P (root_key A) (x_dh P r (dh_send_public A)) = Ok (root_key B1, ck2)"
    and R': "receiving P (dh_send_public A) ck c seen B'" and al: "alongside (dh_send_public A) m B1 B'"
  shows "in_step P (insert (x_pub P r) used) (c + m) B' A'"
proof -
  let ?a = "dh_send_public A" and ?U = "insert (x_pub P r) used"
  from I have A: "length (dh_send_secret A) = 32" "?a = x_pub P (dh_send_secret A)" "peer A \<in> used" "?a \<in> used"
    "sk_inv (rs_skipped A)" "cache_within used A" "waiting c (send_message_number B) A"
    unfolding in_step_def by blast+
  from S' m have A': "dh_send_secret A' = dh_send_secret A" "dh_send_public A' = ?a" "root_key A' = root_key A"
    "peer A' = peer A" "rs_skipped A' = rs_skipped A" "recv_message_number A' = recv_message_number A"
    "unat (send_message_number A') = m"
    by (simp_all add: same_receiver_def sending_def peer_def)
  from al B1 have B': "dh_send_secret B' = r" "dh_send_public B' = x_pub P r" "root_key B' = root_key B1"
    "sending_chain_key B' = Some ck2" "send_message_number B' = 0"
    "previous_sending_chain_length B' = send_message_number B" "unat (recv_message_number B') \<le> m"
    by (simp_all add: alongside_def)
  have peerB: "peer B' = ?a" "sk_inv (rs_skipped B')" "sk_len (rs_skipped B') \<le> c + unat (recv_message_number B')"
    using R' by (simp_all add: receiving_def peer_def)
  have key: "derive_root_key P (root_key A') (x_dh P (dh_send_secret A') (dh_send_public B')) = Ok (root_key B', ck2)"
    using B1(8) dh_laws_comm [OF L A(1) r(1)] A(2) A' B' by simp
  have wA: "waiting (c + m) (previous_sending_chain_length B') A'"
    using A(7) A'(5,6) B'(6) unfolding waiting_def by simp linarith
  have wB: "waiting (c + m) (send_message_number A') B'"
    using peerB(3) B'(7) A'(7) unfolding waiting_def by simp
  have U: "?U - {x_pub P r} = used" using r(2) by simp
  have cA: "cache_within (?U - {x_pub P r}) A'" using A(6) A'(5) unfolding cache_within_def U by simp
  have cB: "cache_within ?U B'"
    unfolding cache_within_def
  proof (intro allI impI)
    fix h n assume *: "sk_look (rs_skipped B') (h, n) \<noteq> None"
    show "h \<in> hex_encode ` ?U"
    proof (cases "h = hex_encode ?a")
      case True
      with A(4) show ?thesis by simp
    next
      case False
      with al * have "sk_look (rs_skipped B1) (h, n) \<noteq> None" by (simp add: alongside_def)
      with B1(6) show ?thesis unfolding cache_within_def by blast
    qed
  qed
  have "peer A' \<in> ?U - {x_pub P r}" "x_pub P r \<in> ?U" "peer B' \<in> ?U"
    using A(3,4) r(2) A' peerB(1) by auto
  then show ?thesis
    unfolding in_step_def
    using key wA wB cA cB A(1,2,5) A' B' r(1) peerB(2) by auto
qed

lemma turn_keeps_step:
  assumes I: "in_step P used c A B" and L: "dh_laws P" "kdf_laws P" "aead_laws P"
    and nonces: "\<forall>m\<in>set ms. length (fst m) = 24"
    and enc: "encrypt_all P J ms A = (map Ok sent, A')"
    and order: "order \<noteq> []" "distinct (map fst order)" "\<forall>x\<in>set order. fst x < length ms"
    and fresh: "length (snd (hd order)) = 32" "x_pub P (snd (hd order)) \<notin> used"
    and c: "c + length ms \<le> MAX_SKIPPED_KEYS"
  shows "\<exists>B'. decrypt_all P J (deliver order sent) B = (map (\<lambda>x. Ok (snd (ms ! fst x))) order, B') \<and>
    in_step P (insert (x_pub P (snd (hd order))) used) (c + length ms) B' A'"
proof -
  let ?m = "length ms" and ?a = "dh_send_public A"
  from I obtain ck where ck: "sending_chain_key A = Some ck" unfolding in_step_def by blast
  from I have "send_message_number A = 0" unfolding in_step_def by blast
  with ck have S: "sending P ?a ck 0 A" by (simp add: sending_def)
  have m32: "?m < 4294967295" using c by (simp add: MAX_SKIPPED_KEYS_def)
  with encrypt_all_sends [OF S L(2,3) nonces _ enc]
  have S': "sending P ?a ck ?m A'" "same_receiver A A'" "length sent = ?m"
    and C: "\<And>i. i < ?m \<Longrightarrow> carries P J ?a ck i (snd (ms ! i)) (fst (sent ! i)) (snd (sent ! i)) \<and>
      previous_chain_length (snd (sent ! i)) = previous_sending_chain_length A"
    by auto
  obtain i r rest where ord: "order = (i, r) # rest" using order(1) by (cases order) auto
  then have i: "i < ?m" and r: "length r = 32" "x_pub P r \<notin> used" using order(3) fresh by auto
  obtain ct hdr where msg: "sent ! i = (ct, hdr)" by fastforce
  have hdr: "dh_public hdr = ?a" "previous_chain_length hdr = previous_sending_chain_length A"
    using C [OF i] msg by (simp_all add: carries_def)
  from first_message_ratchets [OF I ck L(1,2) _ r(1) hdr] c obtain B1 ck2 where
    dec1: "rs_decrypt P J r ct hdr B = decrypt_chain P J ct hdr B1"
    and R1: "receiving P ?a ck c {} B1"
    and B1: "recv_message_number B1 = 0" "dh_send_secret B1 = r" "dh_send_public B1 = x_pub P r"
      "previous_sending_chain_length B1 = send_message_number B" "send_message_number B1 = 0"
      "cache_within (used - {?a}) B1" "sending_chain_key B1 = Some ck2"
      "derive_root_key P (root_key A) (x_dh P r ?a) = Ok (root_key B1, ck2)"
    by auto
  have i': "c + i \<le> MAX_SKIPPED_KEYS" "Suc i \<le> ?m" using c i by auto
  from C [OF i] msg have "carries P J ?a ck i (snd (ms ! i)) ct hdr" by simp
  from decrypt_chain_receiving [OF R1 L(2) this _ i'(1)] B1(1) obtain B2 where
    dec2: "decrypt_chain P J ct hdr B1 = (Ok (snd (ms ! i)), B2)"
    and R2: "receiving P ?a ck c {i} B2" and al2: "alongside ?a (Suc i) B1 B2" by auto
  have "\<exists>B'. decrypt_all P J (map (\<lambda>(i, r). (r, sent ! i)) rest) B2 = (map (\<lambda>(i, r). Ok (snd (ms ! i))) rest, B') \<and>
    receiving P ?a ck c (fst ` set rest \<union> {i}) B' \<and> alongside ?a ?m B2 B'"
    using order(2,3) ord C c by (intro decrypt_all_in_chain [OF R2 L(2)]) auto
  then obtain B' where dec3: "decrypt_all P J (deliver rest sent) B2 = (map (\<lambda>x. Ok (snd (ms ! fst x))) rest, B')"
    and R': "receiving P ?a ck c (fst ` set rest \<union> {i}) B'" and al3: "alongside ?a ?m B2 B'"
    by (auto simp: deliver_def case_prod_beta)
  have run: "decrypt_all P J (deliver order sent) B = (map (\<lambda>x. Ok (snd (ms ! fst x))) order, B')"
    using dec1 dec2 dec3 msg by (simp add: deliver_def ord)
  have al: "alongside ?a ?m B1 B'" using al2 al3 i'(2) by (meson alongside_mono alongside_trans)
  have "in_step P (insert (x_pub P r) used) (c + ?m) B' A'"
    by (rule turn_hands_over [OF I L(1) r S'(1,2) m32 B1 R' al])
  with run ord show ?thesis by auto
qed

section \<open>Conversations\<close>

text \<open>
  serde serializes the header, a plain struct, without failing; the AEAD seals every message up
  to its documented limit of \<open>2 ^ 38 - 64\<close> bytes.
\<close>

definition seal_laws :: "prims \<Rightarrow> message_header codec \<Rightarrow> bool" where
  "seal_laws P J \<longleftrightarrow>
     (\<forall>h. \<exists>b. to_json J h = Inr b) \<and>
     (\<forall>k n a m. length k = 32 \<longrightarrow> length n = 24 \<longrightarrow> length m \<le> 274877906880 \<longrightarrow> (\<exists>c. aead_seal P k n a m = Inr c))"

definition oks :: "('e, 'a) outcome list \<Rightarrow> 'a list" where
  "oks rs = concat (map (\<lambda>r. case r of Ok x \<Rightarrow> [x] | _ \<Rightarrow> []) rs)"

lemma oks_Ok [simp]: "oks (map Ok xs) = xs"
  by (induction xs) (simp_all add: oks_def)

text \<open>
  A conversation is a list of turns \<open>(ms, order)\<close>; the parties swap roles after each. The run
  gives, per turn, whether every message was sent and what the receiver got.
\<close>

fun run_turns ::
    "prims \<Rightarrow> message_header codec \<Rightarrow> ((bytes \<times> bytes) list \<times> (nat \<times> bytes) list) list \<Rightarrow>
     ratchet_state \<Rightarrow> ratchet_state \<Rightarrow> (bool \<times> (crypto_error, bytes) outcome list) list" where
  "run_turns P J [] A B = []"
| "run_turns P J ((ms, order) # ts) A B =
     (let (rs, A') = encrypt_all P J ms A;
          (ds, B') = decrypt_all P J (deliver order (oks rs)) B
      in (list_all is_ok rs, ds) # run_turns P J ts B' A')"

text \<open>Turns in which at least one message arrives, each at most once, and new DH keys are fresh.\<close>

fun turns_ok :: "prims \<Rightarrow> bytes set \<Rightarrow> ((bytes \<times> bytes) list \<times> (nat \<times> bytes) list) list \<Rightarrow> bool" where
  "turns_ok P used [] \<longleftrightarrow> True"
| "turns_ok P used ((ms, order) # ts) \<longleftrightarrow>
     list_all (\<lambda>m. length (fst m) = 24 \<and> length (snd m) \<le> 274877906880) ms \<and>
     order \<noteq> [] \<and> distinct (map fst order) \<and> list_all (\<lambda>x. fst x < length ms) order \<and>
     length (snd (hd order)) = 32 \<and> x_pub P (snd (hd order)) \<notin> used \<and>
     turns_ok P (insert (x_pub P (snd (hd order))) used) ts"

definition messages_in :: "((bytes \<times> bytes) list \<times> (nat \<times> bytes) list) list \<Rightarrow> nat" where
  "messages_in ts = sum_list (map (\<lambda>t. length (fst t)) ts)"

lemma encrypt_succeeds:
  assumes "sending P dh ck0 n A" and "kdf_laws P" and "seal_laws P J"
    and "length nonce = 24" and "length pt \<le> 274877906880"
  shows "\<exists>ct hdr A'. rs_encrypt P J nonce pt A = (Ok (ct, hdr), A')"
proof -
  let ?h = "header_new dh (previous_sending_chain_length A) (of_nat n)"
  obtain aad where aad: "to_json J ?h = Inr aad"
    using assms(3) unfolding seal_laws_def by blast
  obtain c where c: "aead_seal P (mk_at P ck0 n) nonce aad pt = Inr c"
    using assms(2-5) unfolding seal_laws_def by (metis length_mk_at)
  from assms(1,2) aad c show ?thesis
    by (simp add: rs_encrypt_def sending_def derive_chain_key_at header_to_bytes_def cipher_encrypt_def
        del: ck_at.simps)
qed

lemma encrypt_all_succeeds:
  assumes "sending P dh ck0 n A" and "kdf_laws P" and "aead_laws P" and "seal_laws P J"
    and "list_all (\<lambda>m. length (fst m) = 24 \<and> length (snd m) \<le> 274877906880) ms"
    and "n + length ms \<le> 4294967295"
  shows "\<exists>sent A'. encrypt_all P J ms A = (map Ok sent, A')"
  using assms(1,5,6)
proof (induction ms arbitrary: n A)
  case (Cons m ms)
  obtain nonce pt where m: "m = (nonce, pt)" by (cases m)
  obtain ct hdr A1 where e: "rs_encrypt P J nonce pt A = (Ok (ct, hdr), A1)"
    using encrypt_succeeds [OF Cons.prems(1) assms(2,4)] Cons.prems(2) m by fastforce
  have "sending P dh ck0 (Suc n) A1"
    using encrypt_sends [OF Cons.prems(1) assms(2,3) _ _ e] Cons.prems(2,3) m by simp
  from Cons.IH [OF this] Cons.prems(2,3) obtain sent A' where
    "encrypt_all P J ms A1 = (map Ok sent, A')" by auto
  with e m show ?case by (auto intro!: exI [of _ "(ct, hdr) # sent"])
qed simp

lemma conversation_delivers:
  assumes "in_step P used c A B" and L: "dh_laws P" "kdf_laws P" "aead_laws P" "seal_laws P J"
    and "turns_ok P used ts" and "c + messages_in ts \<le> MAX_SKIPPED_KEYS"
  shows "run_turns P J ts A B = map (\<lambda>(ms, order). (True, map (\<lambda>x. Ok (snd (ms ! fst x))) order)) ts"
  using assms(1,6,7)
proof (induction ts arbitrary: used c A B)
  case (Cons t ts)
  obtain ms order where t: "t = (ms, order)" by (cases t)
  from Cons.prems(2) t have ok: "list_all (\<lambda>m. length (fst m) = 24 \<and> length (snd m) \<le> 274877906880) ms"
    "order \<noteq> []" "distinct (map fst order)" "\<forall>x\<in>set order. fst x < length ms"
    "length (snd (hd order)) = 32" "x_pub P (snd (hd order)) \<notin> used"
    "turns_ok P (insert (x_pub P (snd (hd order))) used) ts"
    by (simp_all add: list_all_iff)
  from Cons.prems(3) t have c: "c + length ms + messages_in ts \<le> MAX_SKIPPED_KEYS"
    by (simp add: messages_in_def)
  from Cons.prems(1) obtain ck where "sending_chain_key A = Some ck" "send_message_number A = 0"
    unfolding in_step_def by blast
  then have "sending P (dh_send_public A) ck 0 A" by (simp add: sending_def)
  from encrypt_all_succeeds [OF this L(2,3,4) ok(1)] c obtain sent A' where
    e: "encrypt_all P J ms A = (map Ok sent, A')" by (auto simp: MAX_SKIPPED_KEYS_def)
  have "\<forall>m\<in>set ms. length (fst m) = 24" using ok(1) by (simp add: list_all_iff)
  from turn_keeps_step [OF Cons.prems(1) L(1-3) this e ok(2-6)] c obtain B' where
    d: "decrypt_all P J (deliver order sent) B = (map (\<lambda>x. Ok (snd (ms ! fst x))) order, B')"
    and step: "in_step P (insert (x_pub P (snd (hd order))) used) (c + length ms) B' A'" by auto
  from Cons.IH [OF step ok(7) c] e d show ?case
    by (simp add: t list_all_iff)
qed simp

text \<open>The parties start in step.\<close>

lemma init_in_step:
  assumes L: "dh_laws P" "kdf_laws P"
    and a: "length a = 32" and b: "length b = 32" and ne: "x_pub P a \<noteq> x_pub P b"
    and A: "init_sender P a shared (x_pub P b) = Ok A"
  shows "in_step P {[], x_pub P a, x_pub P b} 0 A (init_receiver shared (b, x_pub P b))"
proof -
  have len: "length (x_pub P b) = 32" "length (x_pub P a) = 32" using L(1) by simp_all
  from L(2) obtain rk ck where d: "derive_root_key P shared (x_dh P a (x_pub P b)) = Ok (rk, ck)"
    by (rule derive_root_key_Ok)
  have comm: "x_dh P b (x_pub P a) = x_dh P a (x_pub P b)" by (rule dh_laws_comm [OF L(1) b a])
  have empty: "cache_within U (s\<lparr>rs_skipped := sk_new\<rparr>)" for U s
    by (simp add: cache_within_def sk_look_def sk_new_def)
  from A d len have A': "A = \<lparr>root_key = rk, sending_chain_key = Some ck, receiving_chain_key = None,
      dh_send_secret = a, dh_send_public = x_pub P a, dh_receive_public = Some (x_pub P b),
      send_message_number = 0, recv_message_number = 0, previous_sending_chain_length = 0, rs_skipped = sk_new\<rparr>"
    by (simp add: init_sender_def to_x25519_public_def generate_x25519_keypair_def Let_def)
  have "x_pub P a \<noteq> []" using len(2) by auto
  with ne a b d comm show ?thesis
    unfolding A' init_receiver_def
    by (simp add: in_step_def peer_def waiting_def cache_within_def sk_inv_new sk_look_def sk_len_def)
      (simp add: sk_new_def)
qed

end
