(* ===== verification/Reference_Primitives.thy ===== *)
theory Reference_Primitives
  imports Double_Ratchet
begin

text \<open>
  Concrete instances of the parameters: primitives and encodings that satisfy every hypothesis of
  Crypto_Primitives and Double_Ratchet, so that the theorems that assume them are seen to apply.
  They model no code of the repository and have no cryptographic strength.
\<close>

unbundle bit_operations_syntax

section \<open>Primitives\<close>

definition pad_to :: "nat \<Rightarrow> bytes \<Rightarrow> bytes" where
  "pad_to n bs = take n (bs @ replicate n 0)"

lemma length_pad_to [simp]: "length (pad_to n bs) = n"
  by (simp add: pad_to_def)

lemma pad_to_id [simp]: "length bs = n \<Longrightarrow> pad_to n bs = bs"
  by (simp add: pad_to_def)

lemma take_pad_to: "m \<le> n \<Longrightarrow> take m (pad_to n bs) = pad_to m bs"
  by (auto simp: pad_to_def min_def)

definition xor_bytes :: "bytes \<Rightarrow> bytes \<Rightarrow> bytes" where
  "xor_bytes a b = map2 (\<lambda>x y. x XOR y) a b"

lemma xor_bytes_comm: "xor_bytes a b = xor_bytes b a"
  unfolding xor_bytes_def
  by (induction a arbitrary: b) (auto simp: xor.commute zip_Cons1 zip_Cons split: list.splits)

definition toy_tag :: "bytes \<Rightarrow> bytes" where
  "toy_tag key = pad_to 16 key"

definition toy_prims :: prims where
  "toy_prims = \<lparr>
     x_pub = pad_to 32,
     x_dh = (\<lambda>a b. xor_bytes (pad_to 32 a) (pad_to 32 b)),
     hkdf_sha256 = (\<lambda>salt ikm info n. if n \<le> 8160 then Some (pad_to n (ikm @ salt @ info)) else None),
     hmac256 = (\<lambda>k d. pad_to 32 (d @ k)),
     aead_seal = (\<lambda>k n a m. Inr (m @ toy_tag k)),
     aead_open = (\<lambda>k n a c. if length c \<ge> 16 \<and> drop (length c - 16) c = toy_tag k
                            then Inr (take (length c - 16) c) else Inl ''aead::Error''),
     ed_pub = pad_to 32,
     ed_sign = (\<lambda>sk m. pad_to 64 (pad_to 32 sk @ m)),
     ed_key_ok = (\<lambda>pk. length pk = 32),
     ed_verify = (\<lambda>pk m s. s = pad_to 64 (pad_to 32 pk @ m)),
     kem_generate = (\<lambda>r. (pad_to 1184 r, pad_to 2400 r)),
     kem_encap = (\<lambda>pk e. Inr (pad_to 1088 e, pad_to 32 e)),
     kem_decap = (\<lambda>sk ct. Inr (take 32 ct))\<rparr>"

lemma toy_dh_laws [simp]: "dh_laws toy_prims"
  by (auto simp: dh_laws_def toy_prims_def xor_bytes_comm)

lemma toy_kdf_laws [simp]: "kdf_laws toy_prims"
  by (simp add: kdf_laws_def toy_prims_def)

lemma toy_aead_laws [simp]: "aead_laws toy_prims"
  by (auto simp: aead_laws_def toy_prims_def toy_tag_def)

lemma toy_sig_laws [simp]: "sig_laws toy_prims"
  by (simp add: sig_laws_def toy_prims_def)

lemma toy_kem_laws [simp]: "kem_laws toy_prims"
  by (auto simp: kem_laws_def toy_prims_def take_pad_to)

section \<open>Encodings\<close>

text \<open>Self-delimiting encodings, built up from bytes, lists, pairs, options and words.\<close>

record 'a pcode =
  p_enc :: "'a \<Rightarrow> bytes"
  p_dec :: "bytes \<Rightarrow> ('a \<times> bytes) option"

definition pc_law :: "'a pcode \<Rightarrow> bool" where
  "pc_law C \<longleftrightarrow> (\<forall>x r. p_dec C (p_enc C x @ r) = Some (x, r))"

lemma pc_lawD [simp]: "pc_law C \<Longrightarrow> p_dec C (p_enc C x @ r) = Some (x, r)"
  by (simp add: pc_law_def)

definition pc_byte :: "byte pcode" where
  "pc_byte = \<lparr>p_enc = (\<lambda>b. [b]), p_dec = (\<lambda>bs. case bs of [] \<Rightarrow> None | b # r \<Rightarrow> Some (b, r))\<rparr>"

definition u32_bytes :: "u32 \<Rightarrow> bytes" where
  "u32_bytes w = (let n = unat w; n1 = n div 256; n2 = n1 div 256; n3 = n2 div 256 in
     [of_nat (n mod 256), of_nat (n1 mod 256), of_nat (n2 mod 256), of_nat n3])"

definition bytes_u32 :: "bytes \<Rightarrow> u32" where
  "bytes_u32 bs = of_nat (fold (\<lambda>b acc. acc * 256 + unat b) (rev bs) 0)"

definition pc_u32 :: "u32 pcode" where
  "pc_u32 = \<lparr>p_enc = u32_bytes, p_dec = (\<lambda>bs. Some (bytes_u32 (take 4 bs), drop 4 bs))\<rparr>"

lemma bytes_u32_bytes [simp]: "bytes_u32 (u32_bytes w) = w"
proof -
  define n where "n = unat w"
  define n1 where "n1 = n div 256"
  define n2 where "n2 = n1 div 256"
  define n3 where "n3 = n2 div 256"
  have "n < 4294967296" unfolding n_def by (rule unat_lt_u32)
  then have n3: "n3 < 256" unfolding n3_def n2_def n1_def by (simp add: less_mult_imp_div_less)
  have "n3 * 256 + n2 mod 256 = n2" "n2 * 256 + n1 mod 256 = n1" "n1 * 256 + n mod 256 = n"
    by (simp_all only: n3_def n2_def n1_def div_mult_mod_eq)
  moreover have "bytes_u32 (u32_bytes w) =
    of_nat (((n3 * 256 + n2 mod 256) * 256 + n1 mod 256) * 256 + n mod 256)"
    using n3 unfolding bytes_u32_def u32_bytes_def Let_def n_def [symmetric] n1_def [symmetric]
      n2_def [symmetric] n3_def [symmetric] by (simp add: unat_of_nat del: of_nat_add of_nat_mult)
  ultimately show ?thesis by (simp add: n_def)
qed

definition pc_pair :: "'a pcode \<Rightarrow> 'b pcode \<Rightarrow> ('a \<times> 'b) pcode" where
  "pc_pair C D = \<lparr>p_enc = (\<lambda>(x, y). p_enc C x @ p_enc D y),
     p_dec = (\<lambda>bs. Option.bind (p_dec C bs) (\<lambda>(x, r). Option.bind (p_dec D r) (\<lambda>(y, r'). Some ((x, y), r'))))\<rparr>"

definition pc_option :: "'a pcode \<Rightarrow> 'a option pcode" where
  "pc_option C = \<lparr>p_enc = (\<lambda>x. case x of None \<Rightarrow> [0] | Some y \<Rightarrow> 1 # p_enc C y),
     p_dec = (\<lambda>bs. case bs of [] \<Rightarrow> None
                 | b # r \<Rightarrow> if b = 0 then Some (None, r) else map_option (map_prod Some id) (p_dec C r))\<rparr>"

definition pc_map :: "('a \<Rightarrow> 'b) \<Rightarrow> ('b \<Rightarrow> 'a) \<Rightarrow> 'b pcode \<Rightarrow> 'a pcode" where
  "pc_map f g C = \<lparr>p_enc = (\<lambda>x. p_enc C (f x)), p_dec = (\<lambda>bs. map_option (map_prod g id) (p_dec C bs))\<rparr>"

fun enc_list :: "'a pcode \<Rightarrow> 'a list \<Rightarrow> bytes" where
  "enc_list C [] = [0]"
| "enc_list C (x # xs) = 1 # p_enc C x @ enc_list C xs"

text \<open>The fuel is the number of bytes left; every item takes at least its marker.\<close>

fun dec_list :: "nat \<Rightarrow> 'a pcode \<Rightarrow> bytes \<Rightarrow> ('a list \<times> bytes) option" where
  "dec_list 0 C bs = None"
| "dec_list (Suc n) C [] = None"
| "dec_list (Suc n) C (b # r) =
     (if b = 0 then Some ([], r)
      else Option.bind (p_dec C r) (\<lambda>(x, r'). map_option (map_prod ((#) x) id) (dec_list n C r')))"

definition pc_list :: "'a pcode \<Rightarrow> 'a list pcode" where
  "pc_list C = \<lparr>p_enc = enc_list C, p_dec = (\<lambda>bs. dec_list (length bs) C bs)\<rparr>"

lemma dec_enc_list:
  "pc_law C \<Longrightarrow> length (enc_list C xs @ r) \<le> n \<Longrightarrow> dec_list n C (enc_list C xs @ r) = Some (xs, r)"
proof (induction xs arbitrary: n)
  case Nil
  then show ?case by (cases n) simp_all
next
  case (Cons x xs)
  then obtain m where n: "n = Suc m" by (cases n) simp_all
  with Cons show ?case by simp
qed

lemma pc_laws [simp]:
  "pc_law pc_byte" "pc_law pc_u32"
  "pc_law C \<Longrightarrow> pc_law D \<Longrightarrow> pc_law (pc_pair C D)"
  "pc_law C \<Longrightarrow> pc_law (pc_option C)"
  "pc_law C \<Longrightarrow> pc_law (pc_list C)"
  "pc_law E \<Longrightarrow> (\<And>x. g (f x) = x) \<Longrightarrow> pc_law (pc_map f g E)"
proof -
  show "pc_law pc_byte" by (simp add: pc_law_def pc_byte_def)
  show "pc_law pc_u32" using bytes_u32_bytes by (simp add: pc_law_def pc_u32_def u32_bytes_def Let_def)
  show "pc_law C \<Longrightarrow> pc_law D \<Longrightarrow> pc_law (pc_pair C D)" by (simp add: pc_law_def pc_pair_def)
  show "pc_law C \<Longrightarrow> pc_law (pc_option C)" by (simp add: pc_law_def pc_option_def split: option.splits)
  show "pc_law C \<Longrightarrow> pc_law (pc_list C)"
    unfolding pc_law_def [of "pc_list C"] by (simp add: pc_list_def dec_enc_list)
  show "pc_law E \<Longrightarrow> (\<And>x. g (f x) = x) \<Longrightarrow> pc_law (pc_map f g E)" by (simp add: pc_law_def pc_map_def)
qed

definition codec_of :: "('a \<Rightarrow> bool) \<Rightarrow> 'a pcode \<Rightarrow> 'a codec" where
  "codec_of bad C = \<lparr>to_json = (\<lambda>x. if bad x then Inl ''key must be a string'' else Inr (p_enc C x)),
     from_json = (\<lambda>bs. case p_dec C bs of Some (x, []) \<Rightarrow> Inr x | _ \<Rightarrow> Inl ''parse error'')\<rparr>"

lemma codec_of_laws [simp]: "pc_law C \<Longrightarrow> codec_laws (codec_of bad C)"
proof -
  assume "pc_law C"
  then have "p_dec C (p_enc C x) = Some (x, [])" for x
    using pc_lawD [of C x "[]"] by simp
  then show ?thesis by (simp add: codec_laws_def codec_of_def)
qed

definition pc_bytes :: "bytes pcode" where
  "pc_bytes = pc_list pc_byte"

definition pc_string :: "string pcode" where
  "pc_string = pc_map str_bytes bytes_str pc_bytes"

lemma pc_bytes_law [simp]: "pc_law pc_bytes"
  by (simp add: pc_bytes_def)

lemma pc_string_law [simp]: "pc_law pc_string"
  unfolding pc_string_def by (intro pc_laws) simp_all

definition pc_unit :: "unit pcode" where
  "pc_unit = \<lparr>p_enc = (\<lambda>_. []), p_dec = (\<lambda>bs. Some ((), bs))\<rparr>"

definition pc_nat :: "nat pcode" where
  "pc_nat = pc_map (\<lambda>n. replicate n ()) length (pc_list pc_unit)"

definition pc_int :: "int pcode" where
  "pc_int = pc_map (\<lambda>i. (if i < 0 then None else Some (), nat \<bar>i\<bar>))
     (\<lambda>(s, n). if s = None then - int n else int n) (pc_pair (pc_option pc_unit) pc_nat)"

definition pc_bool :: "bool pcode" where
  "pc_bool = pc_map (\<lambda>b. if b then Some () else None) (\<lambda>x. x \<noteq> None) (pc_option pc_unit)"

lemma pc_more_laws [simp]: "pc_law pc_unit" "pc_law pc_nat" "pc_law pc_int" "pc_law pc_bool"
proof -
  show u: "pc_law pc_unit" by (simp add: pc_law_def pc_unit_def)
  show n: "pc_law pc_nat" unfolding pc_nat_def by (intro pc_laws u) simp
  show "pc_law pc_int" unfolding pc_int_def by (intro pc_laws u n) simp
  show "pc_law pc_bool" unfolding pc_bool_def by (intro pc_laws u) simp
qed

section \<open>The header and the ratchet state\<close>

definition toy_header_codec :: "message_header codec" where
  "toy_header_codec = codec_of (\<lambda>_. False)
     (pc_map (\<lambda>h. (dh_public h, previous_chain_length h, message_number h)) (\<lambda>(d, p, n). header_new d p n)
        (pc_pair pc_bytes (pc_pair pc_u32 pc_u32)))"

lemma toy_header_laws [simp]: "codec_laws toy_header_codec"
  unfolding toy_header_codec_def by (intro codec_of_laws pc_laws) (simp_all add: header_new_def)

lemma toy_header_total [simp]: "\<exists>b. to_json toy_header_codec h = Inr b"
  by (simp add: toy_header_codec_def codec_of_def)

definition pc_skipped :: "skipped_keys pcode" where
  "pc_skipped = pc_map (\<lambda>s. (sk_keys s, sk_order s)) (\<lambda>(k, od). \<lparr>sk_keys = k, sk_order = od\<rparr>)
     (pc_pair (pc_list (pc_pair (pc_pair pc_string pc_u32) pc_bytes)) (pc_list (pc_pair pc_string pc_u32)))"

definition toy_state_codec :: "ratchet_state codec" where
  "toy_state_codec = codec_of (\<lambda>s. sk_keys (rs_skipped s) \<noteq> [])
     (pc_map
       (\<lambda>s. ((root_key s, sending_chain_key s, receiving_chain_key s, dh_send_secret s, dh_send_public s),
             (dh_receive_public s, send_message_number s, recv_message_number s,
              previous_sending_chain_length s, rs_skipped s)))
       (\<lambda>((a, b, c, d, e), (f, g, h, i, j)). \<lparr>root_key = a, sending_chain_key = b, receiving_chain_key = c,
          dh_send_secret = d, dh_send_public = e, dh_receive_public = f, send_message_number = g,
          recv_message_number = h, previous_sending_chain_length = i, rs_skipped = j\<rparr>)
       (pc_pair (pc_pair pc_bytes (pc_pair (pc_option pc_bytes) (pc_pair (pc_option pc_bytes) (pc_pair pc_bytes pc_bytes))))
         (pc_pair (pc_option pc_bytes) (pc_pair pc_u32 (pc_pair pc_u32 (pc_pair pc_u32 pc_skipped))))))"

lemma pc_skipped_law [simp]: "pc_law pc_skipped"
  unfolding pc_skipped_def by (intro pc_laws) simp_all

lemma toy_state_laws [simp]: "state_json_laws toy_state_codec"
proof -
  have "codec_laws toy_state_codec"
    unfolding toy_state_codec_def by (intro codec_of_laws pc_laws) simp_all
  then show ?thesis by (simp add: state_json_laws_def toy_state_codec_def codec_of_def)
qed

end
