(* ===== verification/Ratchet_Properties.thy ===== *)
theory Ratchet_Properties
  imports Ratchet_Conversation Reference_Primitives
begin

text \<open>
  The properties of the double ratchet, each with an instance on the reference primitives: whole
  conversations decrypt; every call, successful or not, keeps the cache bounded and well formed;
  calls that fail, and the state they leave behind; storing a session.
\<close>

section \<open>Invariants over all calls\<close>

definition keys32 :: "skipped_keys \<Rightarrow> bool" where
  "keys32 sk \<longleftrightarrow> (\<forall>v \<in> snd ` set (sk_keys sk). length v = 32)"

definition rs_good :: "ratchet_state \<Rightarrow> bool" where
  "rs_good s \<longleftrightarrow> sk_inv (rs_skipped s) \<and> keys32 (rs_skipped s)"

lemma values_update: "snd ` set (AList.update k v xs) \<subseteq> insert v (snd ` set xs)"
  by (induction xs) auto

lemma keys32_insert: "keys32 sk \<Longrightarrow> length k = 32 \<Longrightarrow> keys32 (sk_insert h n k sk)"
proof -
  assume sk: "keys32 sk" and k: "length k = 32"
  obtain ks od where ev: "sk_evict (sk_keys sk) (sk_order sk) = (ks, od)" by fastforce
  have "snd ` set (sk_keys (sk_insert h n k sk)) \<subseteq> insert k (snd ` set (sk_keys sk))"
    using values_update [of "(h, n)" k ks] values_update [of "(h, n)" k "sk_keys sk"]
      image_mono [OF sk_evict_subset [OF ev], of snd] ev
    by (simp add: sk_insert_def Let_def) blast
  with sk k show ?thesis unfolding keys32_def by blast
qed

lemma keys32_take: "keys32 sk \<Longrightarrow> keys32 (snd (sk_take h n sk))"
proof -
  assume "keys32 sk"
  moreover have "snd ` set (sk_keys (snd (sk_take h n sk))) \<subseteq> snd ` set (sk_keys sk)"
    using image_mono [OF alist_set_delete [of "(h, n)" "sk_keys sk"], of snd]
    by (simp add: sk_take_def Let_def split: option.split)
  ultimately show ?thesis unfolding keys32_def by blast
qed

lemma skip_loop_good:
  assumes "kdf_laws P" and "sk_inv sk" and "keys32 sk"
  shows "sk_inv (snd (skip_loop P hex ns ck sk)) \<and> keys32 (snd (skip_loop P hex ns ck sk))"
  using assms(2,3)
proof (induction ns arbitrary: ck sk)
  case (Cons n ns)
  have "sk_inv (sk_insert hex n (snd (derive_chain_key P ck)) sk)"
    using Cons.prems(1) by (rule sk_insert_inv)
  moreover have "keys32 (sk_insert hex n (snd (derive_chain_key P ck)) sk)"
    using Cons.prems(2) assms(1) by (intro keys32_insert) simp_all
  ultimately show ?case using Cons.IH by (simp add: case_prod_beta)
qed simp

lemma sk_good_new: "sk_inv sk_new" "keys32 sk_new"
  by (rule sk_inv_new) (simp add: keys32_def sk_new_def)

lemma keeps_mod: "(\<And>s. I s \<Longrightarrow> I (f s)) \<Longrightarrow> keeps I (mod_s f)"
  by (simp add: keeps_def)

lemma keeps_get_bind: "(\<And>s. I s \<Longrightarrow> I (snd (g (h s) s))) \<Longrightarrow> keeps I (bind_a (get_s h) g)"
  by (simp add: keeps_def)

lemma skip_missed_keeps: "kdf_laws P \<Longrightarrow> keeps rs_good (skip_missed_messages P n)"
proof (rule keepsI)
  fix s assume K: "kdf_laws P" and "rs_good s"
  then show "rs_good (snd (skip_missed_messages P n s))"
    using skip_loop_good [OF K, of "rs_skipped s"]
    by (auto simp: skip_missed_messages_def rs_good_def Let_def case_prod_beta split: option.split)
qed

lemma dh_ratchet_keeps: "keeps rs_good (dh_ratchet P rnd pk)"
  unfolding dh_ratchet_def Let_def
  by (intro keeps_bind keeps_mod keeps_pure) (auto simp: rs_good_def intro!: keeps_bind keeps_mod keeps_pure)

lemma decrypt_chain_keeps: "kdf_laws P \<Longrightarrow> keeps rs_good (decrypt_chain P J ct hdr)"
  unfolding decrypt_chain_def Let_def
  by (intro keeps_bind skip_missed_keeps)
    (auto simp: rs_good_def case_prod_beta intro!: keeps_bind keeps_mod keeps_pure split: option.split)

lemma rs_encrypt_keeps: "keeps rs_good (rs_encrypt P J nonce pt)"
  unfolding rs_encrypt_def Let_def
  by (intro keeps_bind)
    (auto simp: rs_good_def case_prod_beta intro!: keeps_bind keeps_mod keeps_pure split: option.split)

lemma rs_decrypt_keeps:
  assumes "kdf_laws P" and "rs_good s"
  shows "rs_good (snd (rs_decrypt P J rnd ct hdr s))"
proof -
  let ?t = "sk_take (hex_encode (dh_public hdr)) (message_number hdr) (rs_skipped s)"
  let ?s = "s\<lparr>rs_skipped := snd ?t\<rparr>"
  have good: "rs_good ?s"
    using assms(2) by (simp add: rs_good_def sk_take_inv keys32_take)
  have "keeps rs_good (case fst ?t of
      Some k \<Rightarrow> bind_a (lift_o (slice32 k)) (\<lambda>mk. lift_o (decrypt_with P J ct hdr mk))
    | None \<Rightarrow> bind_a (get_s (\<lambda>s. need_ratchet s hdr)) (\<lambda>need.
        bind_a (if need then bind_a (skip_missed_messages P (previous_chain_length hdr)) (\<lambda>_.
                  dh_ratchet P rnd (dh_public hdr)) else ret ()) (\<lambda>_. decrypt_chain P J ct hdr)))"
    using assms(1)
    by (auto intro!: keeps_bind keeps_if skip_missed_keeps dh_ratchet_keeps decrypt_chain_keeps split: option.split)
  from keepsD [OF this good] show ?thesis
    by (simp add: rs_decrypt_def case_prod_beta)
qed

text \<open>Sessions: a fresh state, then any calls in any order, whatever arrives from the network.\<close>

inductive session :: "prims \<Rightarrow> message_header codec \<Rightarrow> ratchet_state \<Rightarrow> bool" for P J where
  sender: "init_sender P rnd shared pk = Ok s \<Longrightarrow> session P J s"
| receiver: "session P J (init_receiver shared keypair)"
| encrypt: "session P J s \<Longrightarrow> session P J (snd (rs_encrypt P J nonce pt s))"
| decrypt: "session P J s \<Longrightarrow> session P J (snd (rs_decrypt P J rnd ct hdr s))"

lemma session_good: "session P J s \<Longrightarrow> kdf_laws P \<Longrightarrow> rs_good s"
proof (induction rule: session.induct)
  case (sender rnd shared pk s)
  then have "rs_skipped s = sk_new"
    by (auto simp: init_sender_def Let_def case_prod_beta)
  then show ?case by (simp add: rs_good_def sk_good_new)
next
  case (receiver shared keypair)
  then show ?case
    by (simp add: rs_good_def init_receiver_def case_prod_beta sk_good_new)
next
  case (encrypt s nonce pt)
  then show ?case using keepsD [OF rs_encrypt_keeps] by blast
next
  case (decrypt s rnd ct hdr)
  then show ?case using rs_decrypt_keeps by blast
qed

section \<open>Properties\<close>


definition demo_turns :: "((bytes \<times> bytes) list \<times> (nat \<times> bytes) list) list" where
  "demo_turns =
     [([(replicate 24 0, [1]), (replicate 24 0, [2, 2]), (replicate 24 0, [3])],
       [(2, replicate 32 3), (0, replicate 32 9)]),
      ([(replicate 24 0, [4])], [(0, replicate 32 4)])]"

lemma toy_seal_laws [simp]: "seal_laws toy_prims toy_header_codec"
  unfolding seal_laws_def by (simp add: toy_prims_def)

lemma toy_init_sender:
  "\<exists>A. init_sender toy_prims (replicate 32 1) [7] (pad_to 32 (replicate 32 2)) = Ok A"
proof -
  obtain rk ck where "derive_root_key toy_prims [7]
      (x_dh toy_prims (replicate 32 1) (pad_to 32 (replicate 32 2))) = Ok (rk, ck)"
    by (rule derive_root_key_Ok [OF toy_kdf_laws])
  then show ?thesis
    by (simp add: init_sender_def to_x25519_public_def generate_x25519_keypair_def Let_def)
qed


text \<open>
  C16: Whatever sequence of encrypt and decrypt calls a session has been through, with whatever
  ciphertexts and headers and whether they succeeded or not, its cache holds at most 1000 message
  keys, each once in the order of insertion and each of 32 bytes.
\<close>

theorem session_cache_bounded:
  assumes "session P J s" and "kdf_laws P"
  shows "sk_len (rs_skipped s) \<le> 1000 \<and> distinct (sk_order (rs_skipped s)) \<and>
    set (sk_order (rs_skipped s)) = fst ` set (sk_keys (rs_skipped s)) \<and>
    (\<forall>v \<in> snd ` set (sk_keys (rs_skipped s)). length v = 32)"
  using session_good [OF assms]
  by (simp add: rs_good_def sk_inv_def keys32_def sk_len_def MAX_SKIPPED_KEYS_def)

theorem session_cache_bounded_witness:
  "\<exists>s. session toy_prims toy_header_codec s \<and> sk_len (rs_skipped s) \<le> 1000"
  using session_cache_bounded [OF session.receiver toy_kdf_laws] session.receiver by blast

text \<open>
  A header that asks to skip more than 1000 messages of the current chain is refused with the
  ratchet error, and the session is left exactly as it was.
\<close>

theorem too_many_skipped:
  assumes "dh_receive_public s = Some (dh_public hdr)" and "recv_message_number s \<le> message_number hdr"
    and "1000 < message_number hdr - recv_message_number s"
    and "\<not> sk_contains (rs_skipped s) (hex_encode (dh_public hdr)) (message_number hdr)"
  shows "rs_decrypt P J rnd ct hdr s =
    (Err (RatchetError (''too many skipped messages: '' @
       nat_str (unat (message_number hdr) - unat (recv_message_number s)))), s)"
proof -
  have "sk_take (hex_encode (dh_public hdr)) (message_number hdr) (rs_skipped s) = (None, rs_skipped s)"
    using assms(4) by (intro sk_take_miss) (simp add: sk_contains_look)
  moreover have "\<not> need_ratchet s hdr" using assms(1) by (simp add: need_ratchet_def)
  moreover have "skip_missed_messages P (message_number hdr) s =
    (Err (RatchetError (''too many skipped messages: '' @
       nat_str (unat (message_number hdr) - unat (recv_message_number s)))), s)"
    using assms(2,3) by (simp add: skip_missed_messages_def Let_def MAX_SKIP_def not_less unat_sub_u32)
  ultimately show ?thesis
    by (simp add: rs_decrypt_def decrypt_chain_def bind_a_Err)
qed

definition demo_receiver :: ratchet_state where
  "demo_receiver = (init_receiver [7] (replicate 32 2, replicate 32 2))
     \<lparr>dh_receive_public := Some [1], receiving_chain_key := Some [5], recv_message_number := 3\<rparr>"

theorem too_many_skipped_witness:
  "rs_decrypt toy_prims toy_header_codec [] [] (header_new [1] 0 1004) demo_receiver =
    (Err (RatchetError (''too many skipped messages: '' @ nat_str 1001)), demo_receiver)"
  by (subst too_many_skipped)
    (simp_all add: demo_receiver_def header_new_def init_receiver_def sk_contains_def sk_new_def)

text \<open>
  C31: A message that was decrypted before is tried again with the key of the next message. It is
  rejected, but the chain key has moved on while the message number has not: from then on the
  genuine next message is tried with the key after its own.
\<close>

theorem replay_desynchronises:
  assumes "receiving P (dh_public hdr) ck0 c0 seen s" and "kdf_laws P"
    and "message_number hdr = of_nat n" and "n \<in> seen"
    and "r = unat (recv_message_number s)" and "r < 4294967295"
    and "decrypt_with P J ct hdr (mk_at P ck0 r) = Err e"
  shows "\<exists>s'. rs_decrypt P J rnd ct hdr s = (Err e, s') \<and>
    recv_message_number s' = of_nat r \<and> receiving_chain_key s' = Some (ck_at P ck0 (Suc r)) \<and>
    (\<forall>rnd' ct' prev. fst (rs_decrypt P J rnd' ct' (header_new (dh_public hdr) prev (of_nat r)) s') =
       decrypt_with P J ct' (header_new (dh_public hdr) prev (of_nat r)) (mk_at P ck0 (Suc r)))"
proof -
  let ?dh = "dh_public hdr"
  have n: "n < r" using assms(1,4,5) by (auto simp: receiving_def)
  have recv: "recv_message_number s = of_nat r" using assms(5) by simp
  from assms(1) have st: "dh_receive_public s = Some ?dh" "receiving_chain_key s = Some (ck_at P ck0 r)"
    by (simp_all add: receiving_def assms(5))
  have look: "sk_look (rs_skipped s) (hex_encode ?dh, of_nat i) = None" if i: "i = n \<or> i = r" for i
  proof -
    have "i < 4294967296" "\<not> (i < r \<and> i \<notin> seen)" using i n assms(4,6) by auto
    then show ?thesis using assms(1) unfolding receiving_def assms(5) [symmetric] by simp
  qed
  let ?s' = "s\<lparr>receiving_chain_key := Some (ck_at P ck0 (Suc r))\<rparr>"
  have gt: "recv_message_number s > of_nat n"
    using n assms(5,6) by (simp add: word_less_nat_alt)
  have take_n: "sk_take (hex_encode ?dh) (of_nat n) (rs_skipped s) = (None, rs_skipped s)"
    and take_r: "sk_take (hex_encode ?dh) (of_nat r) (rs_skipped s) = (None, rs_skipped s)"
    using look by (simp_all add: sk_take_miss)
  have no_skip: "skip_missed_messages P (of_nat n) s = (Ok (), s)"
    using gt by (simp add: skip_missed_messages_def)
  have first: "rs_decrypt P J rnd ct hdr s = (Err e, ?s')"
    using st no_skip take_n assms(2,3,7)
    by (simp add: rs_decrypt_def decrypt_chain_def need_ratchet_def bind_a_Ok
        derive_chain_key_at throw_def del: ck_at.simps)
  have skip: "skip_missed_messages P (of_nat r) ?s' = (Ok (), ?s')"
    using recv st by (simp add: skip_missed_messages_def Let_def range_u32_def peer_def [symmetric] del: ck_at.simps)
  have second: "fst (rs_decrypt P J rnd' ct' (header_new ?dh prev (of_nat r)) ?s') =
       decrypt_with P J ct' (header_new ?dh prev (of_nat r)) (mk_at P ck0 (Suc r))" for rnd' ct' prev
    using st skip take_r assms(2)
    by (cases "decrypt_with P J ct' (header_new ?dh prev (of_nat r)) (mk_at P ck0 (Suc r))")
      (simp_all add: rs_decrypt_def decrypt_chain_def need_ratchet_def bind_a_split header_new_def
        derive_chain_key_at del: ck_at.simps)
  show ?thesis using first second recv by (intro exI [of _ ?s']) (simp del: ck_at.simps)
qed

definition demo_seen_one :: ratchet_state where
  "demo_seen_one = (init_receiver [7] (replicate 32 2, replicate 32 2))
     \<lparr>dh_receive_public := Some [1], receiving_chain_key := Some (ck_at toy_prims [5] 1), recv_message_number := 1\<rparr>"

lemma demo_seen_one_receiving: "receiving toy_prims [1] [5] 0 {0} demo_seen_one"
  by (auto simp: receiving_def demo_seen_one_def init_receiver_def sk_inv_new sk_len_def sk_look_def)
    (simp_all add: sk_new_def)

lemma short_ciphertext_rejected:
  assumes "\<exists>b. to_json J hdr = Inr b" and "length ct < 40"
  shows "decrypt_with P J ct hdr mk = Err (DecryptionFailed ''ciphertext too short'')"
  using assms by (auto simp: decrypt_with_def header_to_bytes_def cipher_decrypt_def)

theorem replay_desynchronises_witness:
  "\<exists>s'. rs_decrypt toy_prims toy_header_codec [] [0] (header_new [1] 0 0) demo_seen_one =
      (Err (DecryptionFailed ''ciphertext too short''), s') \<and>
    recv_message_number s' = 1 \<and> receiving_chain_key s' = Some (ck_at toy_prims [5] 2)"
proof -
  have "decrypt_with toy_prims toy_header_codec [0] (header_new [1] 0 0) (mk_at toy_prims [5] 1) =
    Err (DecryptionFailed ''ciphertext too short'')"
    by (rule short_ciphertext_rejected) simp_all
  from replay_desynchronises [of toy_prims "header_new [1] 0 0" "[5]" 0 "{0}" demo_seen_one 0 1, OF _ _ _ _ _ _ this]
    demo_seen_one_receiving
  show ?thesis by (simp add: header_new_def demo_seen_one_def init_receiver_def numeral_2_eq_2 del: ck_at.simps) blast
qed

lemma skip_missed_same: "skip_missed_messages P (recv_message_number s) s = (Ok (), s)"
  by (simp add: skip_missed_messages_def Let_def range_u32_def split: option.split)

text \<open>
  C32: A header with a new DH key is acted on before anything is authenticated: after a ciphertext
  that is rejected the session has taken the forged key as its peer's, derived new root and chain
  keys from it and replaced its own DH key.
\<close>

theorem forged_header_ratchets:
  assumes "dh_receive_public s \<noteq> Some (dh_public hdr)" and "32 \<le> length (dh_public hdr)"
    and "previous_chain_length hdr = recv_message_number s" and "message_number hdr = 0"
    and "\<not> sk_contains (rs_skipped s) (hex_encode (dh_public hdr)) 0"
    and "32 \<le> length (dh_send_secret s)" and "kdf_laws P"
    and "length ct < 40" and "\<exists>b. to_json J hdr = Inr b"
  shows "\<exists>s' rk ck rk2 ck2. rs_decrypt P J rnd ct hdr s = (Err (DecryptionFailed ''ciphertext too short''), s') \<and>
    derive_root_key P (root_key s) (x_dh P (take 32 (dh_send_secret s)) (take 32 (dh_public hdr))) = Ok (rk, ck) \<and>
    derive_root_key P rk (x_dh P rnd (take 32 (dh_public hdr))) = Ok (rk2, ck2) \<and>
    dh_receive_public s' = Some (dh_public hdr) \<and> root_key s' = rk2 \<and> sending_chain_key s' = Some ck2 \<and>
    dh_send_secret s' = rnd \<and> dh_send_public s' = x_pub P rnd \<and> send_message_number s' = 0"
proof -
  let ?pk = "dh_public hdr" and ?tpk = "take 32 (dh_public hdr)"
  obtain rk ck where d1: "derive_root_key P (root_key s) (x_dh P (take 32 (dh_send_secret s)) ?tpk) = Ok (rk, ck)"
    by (rule derive_root_key_Ok [OF assms(7)])
  obtain rk2 ck2 where d2: "derive_root_key P rk (x_dh P rnd ?tpk) = Ok (rk2, ck2)"
    by (rule derive_root_key_Ok [OF assms(7)])
  let ?s1 = "s\<lparr>dh_receive_public := Some ?pk, previous_sending_chain_length := send_message_number s,
      send_message_number := 0, recv_message_number := 0, root_key := rk2, receiving_chain_key := Some ck,
      dh_send_secret := rnd, dh_send_public := x_pub P rnd, sending_chain_key := Some ck2\<rparr>"
  have r: "dh_ratchet P rnd ?pk s = (Ok (), ?s1)"
    using d1 d2 assms(2,6)
    by (simp add: dh_ratchet_def to_x25519_public_def to_x25519_secret_def slice32_def
        generate_x25519_keypair_def Let_def)
  have skip0: "skip_missed_messages P (previous_chain_length hdr) s = (Ok (), s)"
    by (simp add: assms(3) skip_missed_same)
  have skip1: "skip_missed_messages P 0 ?s1 = (Ok (), ?s1)"
    using skip_missed_same [of P ?s1] by simp
  have "sk_take (hex_encode ?pk) 0 (rs_skipped s) = (None, rs_skipped s)"
    using assms(5) by (intro sk_take_miss) (simp add: sk_contains_look)
  moreover have "need_ratchet s hdr" using assms(1) by (auto simp: need_ratchet_def split: option.split)
  moreover have "\<exists>ck'. decrypt_chain P J ct hdr ?s1 =
      (Err (DecryptionFailed ''ciphertext too short''), ?s1\<lparr>receiving_chain_key := ck'\<rparr>)"
    using skip1 short_ciphertext_rejected [OF assms(9,8)] assms(4,7)
    by (simp add: decrypt_chain_def derive_chain_key_def hmac_sha256_def bind_a_split) blast
  ultimately obtain ck' where
    "rs_decrypt P J rnd ct hdr s = (Err (DecryptionFailed ''ciphertext too short''), ?s1\<lparr>receiving_chain_key := ck'\<rparr>)"
    using r skip0 assms(4) by (auto simp: rs_decrypt_def bind_a_Ok)
  with d1 d2 show ?thesis by (intro exI conjI) (assumption | simp)+
qed

theorem forged_header_ratchets_witness:
  "\<exists>s'. rs_decrypt toy_prims toy_header_codec (replicate 32 6) [] (header_new (replicate 32 9) 3 0) demo_receiver =
      (Err (DecryptionFailed ''ciphertext too short''), s') \<and>
    dh_receive_public s' = Some (replicate 32 9) \<and> dh_send_secret s' = replicate 32 6"
proof -
  have ne: "[1 :: byte] \<noteq> replicate 32 9" by (simp add: numeral_eq_Suc)
  have pre: "dh_receive_public demo_receiver \<noteq> Some (dh_public (header_new (replicate 32 9) 3 0))"
    "recv_message_number demo_receiver = 3" "32 \<le> length (dh_send_secret demo_receiver)"
    "\<not> sk_contains (rs_skipped demo_receiver) (hex_encode (dh_public (header_new (replicate 32 9) 3 0))) 0"
    using ne by (simp_all add: demo_receiver_def init_receiver_def sk_contains_def sk_new_def)
  have "\<exists>s' rk ck rk2 ck2. rs_decrypt toy_prims toy_header_codec (replicate 32 6) []
        (header_new (replicate 32 9) 3 0) demo_receiver = (Err (DecryptionFailed ''ciphertext too short''), s') \<and>
      derive_root_key toy_prims (root_key demo_receiver) (x_dh toy_prims (take 32 (dh_send_secret demo_receiver))
        (take 32 (dh_public (header_new (replicate 32 9) 3 0)))) = Ok (rk, ck) \<and>
      derive_root_key toy_prims rk (x_dh toy_prims (replicate 32 6)
        (take 32 (dh_public (header_new (replicate 32 9) 3 0)))) = Ok (rk2, ck2) \<and>
      dh_receive_public s' = Some (dh_public (header_new (replicate 32 9) 3 0)) \<and> root_key s' = rk2 \<and>
      sending_chain_key s' = Some ck2 \<and> dh_send_secret s' = replicate 32 6 \<and>
      dh_send_public s' = x_pub toy_prims (replicate 32 6) \<and> send_message_number s' = 0"
    by (rule forged_header_ratchets [OF pre(1)]) (use pre in simp_all)
  then show ?thesis by auto
qed

text \<open>A cached key has the 32 bytes that the slice takes, so only the ratchet step can panic.\<close>

lemma decrypt_with_no_panic: "\<exists>b. to_json J hdr = Inr b \<Longrightarrow> decrypt_with P J ct hdr mk \<noteq> Panic p"
  by (auto simp: decrypt_with_def header_to_bytes_def)

lemma skip_missed_no_panic: "fst (skip_missed_messages P n s) \<noteq> Panic p"
  by (auto simp: skip_missed_messages_def Let_def split: option.split prod.split)

lemma skip_missed_secret: "dh_send_secret (snd (skip_missed_messages P n s)) = dh_send_secret s"
  by (auto simp: skip_missed_messages_def Let_def split: option.split prod.split)

lemma decrypt_chain_no_panic:
  assumes "kdf_laws P" and "\<exists>b. to_json J hdr = Inr b"
  shows "fst (decrypt_chain P J ct hdr s) \<noteq> Panic p"
proof (cases "skip_missed_messages P (message_number hdr) s")
  case (Pair r s1)
  show ?thesis
  proof (cases r)
    case (Ok u)
    show ?thesis
    proof (cases "receiving_chain_key s1")
      case (Some ck)
      with Pair Ok assms(1) show ?thesis
        using decrypt_with_no_panic [OF assms(2)]
        by (cases "decrypt_with P J ct hdr (snd (derive_chain_key P ck))")
          (auto simp: decrypt_chain_def bind_a_split case_prod_beta)
    qed (use Pair Ok in \<open>simp add: decrypt_chain_def bind_a_split\<close>)
  next
    case (Panic q)
    with Pair skip_missed_no_panic [of P "message_number hdr" s q] show ?thesis by simp
  qed (use Pair in \<open>simp add: decrypt_chain_def bind_a_split\<close>)
qed

lemma dh_ratchet_ok:
  assumes "kdf_laws P" and "32 \<le> length pk" and "32 \<le> length (dh_send_secret s)"
  shows "fst (dh_ratchet P rnd pk s) = Ok ()"
proof -
  obtain rk ck where d1: "derive_root_key P (root_key s) (x_dh P (take 32 (dh_send_secret s)) (take 32 pk)) = Ok (rk, ck)"
    by (rule derive_root_key_Ok [OF assms(1)])
  obtain rk2 ck2 where "derive_root_key P rk (x_dh P rnd (take 32 pk)) = Ok (rk2, ck2)"
    by (rule derive_root_key_Ok [OF assms(1)])
  with d1 assms show ?thesis
    by (simp add: dh_ratchet_def to_x25519_public_def to_x25519_secret_def slice32_def
        generate_x25519_keypair_def Let_def)
qed



text \<open>
  A header whose DH key is shorter than 32 bytes makes the receiver panic instead of getting an
  error back.
\<close>

theorem short_dh_key_panics:
  assumes "dh_receive_public s \<noteq> Some (dh_public hdr)" and "length (dh_public hdr) < 32"
    and "previous_chain_length hdr = recv_message_number s"
    and "\<not> sk_contains (rs_skipped s) (hex_encode (dh_public hdr)) (message_number hdr)"
  shows "fst (rs_decrypt P J rnd ct hdr s) = Panic ''range end index 32 out of range''"
proof -
  have "sk_take (hex_encode (dh_public hdr)) (message_number hdr) (rs_skipped s) = (None, rs_skipped s)"
    using assms(4) by (intro sk_take_miss) (simp add: sk_contains_look)
  moreover have "need_ratchet s hdr" using assms(1) by (auto simp: need_ratchet_def split: option.split)
  ultimately show ?thesis
    using assms(2,3) skip_missed_same [of P s]
    by (simp add: rs_decrypt_def bind_a_split dh_ratchet_def to_x25519_public_def slice32_def)
qed

theorem short_dh_key_panics_witness:
  "fst (rs_decrypt toy_prims toy_header_codec [] [] (header_new [1, 2, 3] 3 0) demo_receiver) =
     Panic ''range end index 32 out of range''"
  by (rule short_dh_key_panics) (simp_all add: demo_receiver_def init_receiver_def sk_contains_def sk_new_def)



text \<open>
  A full cache takes a new key by dropping the one inserted longest ago and keeps every other.
\<close>

theorem full_cache_evicts_oldest:
  assumes "sk_inv sk" and "sk_len sk = MAX_SKIPPED_KEYS" and "\<not> sk_contains sk h n"
  shows "sk_look (sk_insert h n k sk) = (sk_look sk)(hd (sk_order sk) := None, (h, n) \<mapsto> k) \<and>
    sk_order (sk_insert h n k sk) = tl (sk_order sk) @ [(h, n)] \<and>
    sk_len (sk_insert h n k sk) = MAX_SKIPPED_KEYS"
  using assms by (intro sk_insert_full_look) (simp_all add: sk_contains_look)

definition full_cache :: skipped_keys where
  "full_cache = \<lparr>sk_keys = map (\<lambda>i. ((''a'', of_nat i), [])) [0..<1000], sk_order = map (\<lambda>i. (''a'', of_nat i)) [0..<1000]\<rparr>"

lemma full_cache_inv: "sk_inv full_cache" "sk_len full_cache = MAX_SKIPPED_KEYS"
proof -
  have "inj_on (\<lambda>i. (''a'', of_nat i :: u32)) {0..<1000}"
    by (rule inj_onI) (simp add: of_nat_u32_inj)
  then show "sk_inv full_cache"
    by (simp add: sk_inv_def full_cache_def o_def distinct_map MAX_SKIPPED_KEYS_def image_image del: upt_rec_numeral)
  show "sk_len full_cache = MAX_SKIPPED_KEYS"
    by (simp add: sk_len_def full_cache_def MAX_SKIPPED_KEYS_def del: upt_rec_numeral)
qed

theorem full_cache_evicts_oldest_witness:
  "sk_look (sk_insert ''b'' 5 [9] full_cache) (''a'', 0) = None \<and>
   sk_look (sk_insert ''b'' 5 [9] full_cache) (''b'', 5) = Some [9]"
proof -
  have "\<not> sk_contains full_cache ''b'' 5"
    by (auto simp: sk_contains_def full_cache_def map_of_eq_None_iff simp del: upt_rec_numeral)
  moreover have "hd (sk_order full_cache) = (''a'', 0)"
    by (simp add: full_cache_def hd_map del: upt_rec_numeral)
  ultimately show ?thesis
    using full_cache_evicts_oldest [OF full_cache_inv] by simp
qed

end
