(* ===== verification/X3dh_Handshake.thy ===== *)
theory X3dh_Handshake
  imports Reference_Primitives
begin

text \<open>
  crates/hysj-crypto/src/postquantum.rs and x3dh.rs: the ML-KEM wrapper and the handshake that
  gives both parties the secret a ratchet session starts from. The ephemeral key and the
  encapsulation randomness are arguments.
\<close>

section \<open>postquantum.rs\<close>

record kyber_key_pair =
  ky_public_key :: bytes
  ky_secret_key :: bytes

record kyber_encap_result =
  ke_ciphertext :: bytes
  ke_shared_secret :: bytes

definition kyber_generate_keypair :: "prims \<Rightarrow> bytes \<Rightarrow> kyber_key_pair" where
  "kyber_generate_keypair P rnd =
     (let (ek, dk) = kem_generate P rnd in \<lparr>ky_public_key = ek, ky_secret_key = dk\<rparr>)"

definition kyber_encapsulate :: "prims \<Rightarrow> bytes \<Rightarrow> bytes \<Rightarrow> kyber_encap_result crypto" where
  "kyber_encapsulate P rnd public_key =
     (if length public_key \<noteq> 1184 then
        Err (PostQuantumError (''invalid public key length: got '' @ nat_str (length public_key)))
      else
        bind_o (of_sum (\<lambda>e. PostQuantumError (''encapsulation failed: '' @ e)) (kem_encap P public_key rnd))
          (\<lambda>(ct, ss). Ok \<lparr>ke_ciphertext = ct, ke_shared_secret = ss\<rparr>))"

definition kyber_decapsulate :: "prims \<Rightarrow> bytes \<Rightarrow> bytes \<Rightarrow> bytes crypto" where
  "kyber_decapsulate P ciphertext secret_key =
     (if length secret_key \<noteq> 2400 then
        Err (PostQuantumError (''invalid secret key length: got '' @ nat_str (length secret_key)))
      else if length ciphertext \<noteq> 1088 then
        Err (PostQuantumError (''invalid ciphertext length: got '' @ nat_str (length ciphertext)))
      else of_sum (\<lambda>e. PostQuantumError (''decapsulation failed: '' @ e)) (kem_decap P secret_key ciphertext))"

lemma kyber_roundtrip:
  assumes "kem_laws P" and "kp = kyber_generate_keypair P r"
    and "kyber_encapsulate P e (ky_public_key kp) = Ok k"
  shows "kyber_decapsulate P (ke_ciphertext k) (ky_secret_key kp) = Ok (ke_shared_secret k)"
proof -
  obtain ek dk where g: "kem_generate P r = (ek, dk)" by fastforce
  from assms(2,3) g obtain ct ss where "kem_encap P ek e = Inr (ct, ss)"
    "k = \<lparr>ke_ciphertext = ct, ke_shared_secret = ss\<rparr>"
    by (auto simp: kyber_generate_keypair_def kyber_encapsulate_def split: if_splits)
  with assms(1,2) g show ?thesis
    unfolding kem_laws_def by (metis (no_types, lifting) fst_conv snd_conv kyber_decapsulate_def
        kyber_generate_keypair_def case_prod_conv kyber_encap_result.select_convs kyber_key_pair.select_convs(2) of_sum_simps(2))
qed

section \<open>x3dh.rs\<close>

record x3dh_init_result =
  xr_shared_secret :: bytes
  xr_ephemeral_public :: bytes
  xr_kyber_ciphertext :: bytes
  xr_used_one_time_key :: bool

record pre_key_bundle =
  pb_identity_public :: bytes
  pb_signed_pre_key :: bytes
  pb_signed_pre_key_sig :: bytes
  pb_one_time_pre_key :: "bytes option"
  pb_kyber_public :: bytes

definition bytes_to_secret :: "bytes \<Rightarrow> bytes crypto" where
  "bytes_to_secret bs = (if length bs \<noteq> 32 then Err (InvalidKeyLength 32 (length bs)) else Ok bs)"

definition bytes_to_public :: "bytes \<Rightarrow> bytes crypto" where
  "bytes_to_public bs = (if length bs \<noteq> 32 then Err (InvalidKeyLength 32 (length bs)) else Ok bs)"

lemma bytes_to_Ok [simp]:
  "bytes_to_secret bs = Ok x \<longleftrightarrow> length bs = 32 \<and> x = bs"
  "bytes_to_public bs = Ok x \<longleftrightarrow> length bs = 32 \<and> x = bs"
  by (auto simp: bytes_to_secret_def bytes_to_public_def)

definition x3dh_initiate ::
    "prims \<Rightarrow> bytes \<Rightarrow> bytes \<Rightarrow> bytes \<Rightarrow> bytes \<Rightarrow> pre_key_bundle \<Rightarrow> x3dh_init_result crypto" where
  "x3dh_initiate P eph_rnd kem_rnd my_identity_secret my_identity_public bundle =
     (let ephemeral = generate_x25519_keypair P eph_rnd;
          ephemeral_public_bytes = kp_public ephemeral in
      bind_o (bytes_to_secret my_identity_secret) (\<lambda>identity_secret.
      bind_o (bytes_to_public (pb_identity_public bundle)) (\<lambda>their_identity_public.
      bind_o (bytes_to_public (pb_signed_pre_key bundle)) (\<lambda>their_signed_pre_key.
      let dh1 = x_dh P identity_secret their_signed_pre_key;
          dh2 = x_dh P (kp_secret ephemeral) their_identity_public;
          dh3 = x_dh P (kp_secret ephemeral) their_signed_pre_key in
      bind_o (case pb_one_time_pre_key bundle of
                Some otpk \<Rightarrow> bind_o (bytes_to_public otpk) (\<lambda>their_otpk.
                  Ok (Some (x_dh P (kp_secret ephemeral) their_otpk)))
              | None \<Rightarrow> Ok None) (\<lambda>dh4.
      bind_o (map_err (\<lambda>e. X3DHError (''KEM encapsulation failed: '' @ crypto_error_str e))
               (kyber_encapsulate P kem_rnd (pb_kyber_public bundle))) (\<lambda>kem_result.
      let combined = dh1 @ dh2 @ dh3 @ (case dh4 of Some v \<Rightarrow> v | None \<Rightarrow> []) @ ke_shared_secret kem_result in
      bind_o (hkdf_derive P combined (str_bytes ''hysj-x3dh-v2'') [] 32) (\<lambda>shared_secret.
      Ok \<lparr>xr_shared_secret = shared_secret,
          xr_ephemeral_public = ephemeral_public_bytes,
          xr_kyber_ciphertext = ke_ciphertext kem_result,
          xr_used_one_time_key = (pb_one_time_pre_key bundle \<noteq> None)\<rparr>)))))))"

definition x3dh_respond ::
    "prims \<Rightarrow> bytes \<Rightarrow> bytes \<Rightarrow> bytes option \<Rightarrow> bytes \<Rightarrow> bytes \<Rightarrow> bytes \<Rightarrow> bytes \<Rightarrow> bytes crypto" where
  "x3dh_respond P my_identity_secret my_signed_pre_key_secret my_one_time_pre_key_secret
       my_kyber_secret_key their_identity_public their_ephemeral_public kyber_ciphertext =
     bind_o (bytes_to_secret my_identity_secret) (\<lambda>identity_secret.
     bind_o (bytes_to_secret my_signed_pre_key_secret) (\<lambda>signed_pre_key_secret.
     bind_o (bytes_to_public their_identity_public) (\<lambda>their_identity.
     bind_o (bytes_to_public their_ephemeral_public) (\<lambda>their_ephemeral.
     let dh1 = x_dh P signed_pre_key_secret their_identity;
         dh2 = x_dh P identity_secret their_ephemeral;
         dh3 = x_dh P signed_pre_key_secret their_ephemeral in
     bind_o (case my_one_time_pre_key_secret of
               Some otpk_bytes \<Rightarrow> bind_o (bytes_to_secret otpk_bytes) (\<lambda>otpk_secret.
                 Ok (Some (x_dh P otpk_secret their_ephemeral)))
             | None \<Rightarrow> Ok None) (\<lambda>dh4.
     bind_o (map_err (\<lambda>e. X3DHError (''KEM decapsulation failed: '' @ crypto_error_str e))
              (kyber_decapsulate P kyber_ciphertext my_kyber_secret_key)) (\<lambda>kyber_shared.
     let combined = dh1 @ dh2 @ dh3 @ (case dh4 of Some v \<Rightarrow> v | None \<Rightarrow> []) @ kyber_shared in
     hkdf_derive P combined (str_bytes ''hysj-x3dh-v2'') [] 32))))))"

text \<open>The bundle a recipient publishes for its secrets.\<close>

definition bundle_of :: "prims \<Rightarrow> bytes \<Rightarrow> bytes \<Rightarrow> bytes option \<Rightarrow> kyber_key_pair \<Rightarrow> bytes \<Rightarrow> pre_key_bundle" where
  "bundle_of P ik spk otpk ky sig = \<lparr>
     pb_identity_public = x_pub P ik, pb_signed_pre_key = x_pub P spk, pb_signed_pre_key_sig = sig,
     pb_one_time_pre_key = map_option (x_pub P) otpk, pb_kyber_public = ky_public_key ky\<rparr>"

section \<open>Properties\<close>

text \<open>
  C10: The recipient of a handshake computes the initiator's shared secret of 32 bytes from its own
  secrets and what the initiator sends, with and without a one-time pre-key.
\<close>

theorem x3dh_agreement:
  assumes "dh_laws P" and "kdf_laws P" and "kem_laws P"
    and "length ik = 32" and "length spk = 32" and "\<forall>k \<in> set_option otpk. length k = 32"
    and "length a = 32" and "length eph = 32" and "ky = kyber_generate_keypair P kr"
    and "x3dh_initiate P eph er a (x_pub P a) (bundle_of P ik spk otpk ky sig) = Ok res"
  shows "x3dh_respond P ik spk otpk (ky_secret_key ky) (x_pub P a) (xr_ephemeral_public res)
      (xr_kyber_ciphertext res) = Ok (xr_shared_secret res) \<and>
    length (xr_shared_secret res) = 32 \<and> xr_used_one_time_key res = (otpk \<noteq> None)"
proof -
  let ?eph = "generate_x25519_keypair P eph"
  obtain k where k: "kyber_encapsulate P er (ky_public_key ky) = Ok k"
    using assms(10) by (auto simp: x3dh_initiate_def bundle_of_def Let_def)
  note dec = kyber_roundtrip [OF assms(3,9) k]
  define d4 where "d4 = (case otpk of Some v \<Rightarrow> x_dh P eph (x_pub P v) | None \<Rightarrow> [])"
  obtain okm where okm: "hkdf_sha256 P (str_bytes ''hysj-x3dh-v2'')
      (x_dh P a (x_pub P spk) @ x_dh P eph (x_pub P ik) @ x_dh P eph (x_pub P spk) @ d4 @ ke_shared_secret k) [] 32 = Some okm"
    "length okm = 32"
    by (rule kdf_laws_hkdf [OF assms(2), of 32]) simp
  have res: "res = \<lparr>xr_shared_secret = okm, xr_ephemeral_public = x_pub P eph,
      xr_kyber_ciphertext = ke_ciphertext k, xr_used_one_time_key = (otpk \<noteq> None)\<rparr>"
    using assms(10) k okm(1)
    by (cases otpk) (auto simp: x3dh_initiate_def bundle_of_def Let_def generate_x25519_keypair_def
        hkdf_derive_def d4_def)
  have comm: "x_dh P spk (x_pub P a) = x_dh P a (x_pub P spk)" "x_dh P ik (x_pub P eph) = x_dh P eph (x_pub P ik)"
    "x_dh P spk (x_pub P eph) = x_dh P eph (x_pub P spk)"
    "\<And>v. otpk = Some v \<Longrightarrow> x_dh P v (x_pub P eph) = x_dh P eph (x_pub P v)"
    using assms(4-8) by (simp_all add: dh_laws_comm [OF assms(1)])
  have "x3dh_respond P ik spk otpk (ky_secret_key ky) (x_pub P a) (x_pub P eph) (ke_ciphertext k) = Ok okm"
    using assms(1,4-8) dec okm(1) comm
    by (cases otpk) (simp_all add: x3dh_respond_def Let_def hkdf_derive_def d4_def bytes_to_secret_def bytes_to_public_def)
  with okm(2) res show ?thesis by simp
qed

definition demo_kyber :: kyber_key_pair where
  "demo_kyber = kyber_generate_keypair toy_prims [7]"

lemma toy_kyber_encap:
  "kyber_encapsulate toy_prims e (ky_public_key demo_kyber) =
     Ok \<lparr>ke_ciphertext = pad_to 1088 e, ke_shared_secret = pad_to 32 e\<rparr>"
  by (simp add: demo_kyber_def kyber_generate_keypair_def kyber_encapsulate_def toy_prims_def)

theorem x3dh_agreement_witness:
  "\<exists>res. x3dh_initiate toy_prims (replicate 32 5) [6] (replicate 32 1) (x_pub toy_prims (replicate 32 1))
      (bundle_of toy_prims (replicate 32 2) (replicate 32 3) (Some (replicate 32 4)) demo_kyber []) = Ok res \<and>
    x3dh_respond toy_prims (replicate 32 2) (replicate 32 3) (Some (replicate 32 4)) (ky_secret_key demo_kyber)
      (x_pub toy_prims (replicate 32 1)) (xr_ephemeral_public res) (xr_kyber_ciphertext res) = Ok (xr_shared_secret res) \<and>
    xr_used_one_time_key res"
proof -
  let ?i = "x3dh_initiate toy_prims (replicate 32 5) [6] (replicate 32 1) (x_pub toy_prims (replicate 32 1))
      (bundle_of toy_prims (replicate 32 2) (replicate 32 3) (Some (replicate 32 4)) demo_kyber [])"
  have "length (x_pub toy_prims k) = 32" for k by simp
  then have "\<exists>res. ?i = Ok res"
    using toy_kyber_encap kdf_laws_hkdf [OF toy_kdf_laws, of 32]
    by (simp add: x3dh_initiate_def Let_def bundle_of_def hkdf_derive_def bytes_to_secret_def bytes_to_public_def)
      (simp add: toy_prims_def)
  then obtain res where res: "?i = Ok res" by blast
  show ?thesis
    using x3dh_agreement [OF toy_dh_laws toy_kdf_laws toy_kem_laws _ _ _ _ _ demo_kyber_def res] res by simp
qed

text \<open>
  The initiator never looks at the signature on the signed pre-key: a bundle with any other
  signature gives the same result.
\<close>

theorem x3dh_ignores_signature:
  "x3dh_initiate P eph er a apub (bundle\<lparr>pb_signed_pre_key_sig := sig\<rparr>) = x3dh_initiate P eph er a apub bundle"
  by (simp add: x3dh_initiate_def)

text \<open>
  The responder answers a key, pre-key or ciphertext of a wrong length with an error, never with
  a secret or a panic.
\<close>

theorem x3dh_respond_wrong_length:
  assumes "kdf_laws P"
    and "length ik \<noteq> 32 \<or> length spk \<noteq> 32 \<or> (\<exists>k. otpk = Some k \<and> length k \<noteq> 32) \<or>
      length their_ik \<noteq> 32 \<or> length their_eph \<noteq> 32 \<or> length kysk \<noteq> 2400 \<or> length ct \<noteq> 1088"
  shows "\<exists>e. x3dh_respond P ik spk otpk kysk their_ik their_eph ct = Err e"
proof (cases "x3dh_respond P ik spk otpk kysk their_ik their_eph ct")
  case (Ok x)
  with assms(2) show ?thesis
    by (auto simp: x3dh_respond_def Let_def kyber_decapsulate_def split: option.splits if_splits)
next
  case (Panic p)
  have h: "(hkdf_derive P c s i 32 :: bytes crypto) \<noteq> Panic p" for c s i
    using kdf_laws_hkdf [OF assms(1), of 32 s c i] by (fastforce simp: hkdf_derive_def)
  have nb: "bytes_to_secret b \<noteq> Panic p" "bytes_to_public b \<noteq> Panic p" for b
    by (simp_all add: bytes_to_secret_def bytes_to_public_def)
  have nk: "map_err f (kyber_decapsulate P ct kysk) \<noteq> Panic p" for f :: "crypto_error \<Rightarrow> crypto_error"
    by (simp add: kyber_decapsulate_def of_sum_def split: sum.split)
  have nb_bind: "bind_o m f \<noteq> Panic p" if "m \<noteq> Panic p" "\<And>x. f x \<noteq> Panic p"
    for m :: "'x crypto" and f :: "'x \<Rightarrow> 'y crypto"
    using that by (cases m) simp_all
  have "x3dh_respond P ik spk otpk kysk their_ik their_eph ct \<noteq> Panic p"
    unfolding x3dh_respond_def Let_def
    by (intro nb_bind nb nk h) (auto simp: bytes_to_secret_def split: option.split)
  with Panic show ?thesis by simp
qed simp

theorem x3dh_respond_wrong_length_witness:
  "\<exists>e. x3dh_respond toy_prims (replicate 32 1) (replicate 31 1) None [] [] [] [] = Err e"
  by (rule x3dh_respond_wrong_length [OF toy_kdf_laws]) simp

end
