(* ===== verification/Sealed_Onion.thy ===== *)
theory Sealed_Onion
  imports Reference_Primitives
begin

text \<open>
  crates/hysj-crypto/src/sealed.rs and onion.rs: sealed-sender envelopes and layered onion
  packets. Both derive a key from an ephemeral DH exchange, encrypt the JSON of a record and put
  the ephemeral public key in front. Ephemeral keys and nonces are arguments.
\<close>

section \<open>sealed.rs\<close>

record sealed_content =
  sc_sender_id :: string
  sc_sender_certificate :: bytes
  sc_plaintext :: bytes

record sealed_inner =
  si_sender_id :: string
  si_sender_cert :: bytes
  si_plaintext :: bytes

definition seal ::
    "prims \<Rightarrow> sealed_inner codec \<Rightarrow> bytes \<times> bytes \<Rightarrow> bytes \<Rightarrow> string \<Rightarrow> bytes \<Rightarrow> bytes \<Rightarrow> bytes crypto" where
  "seal P J rnd plaintext sender_id sender_cert recipient_identity_public =
     (if length recipient_identity_public \<noteq> 32 then
        Err (InvalidKeyLength 32 (length recipient_identity_public))
      else
        let (eph_rnd, nonce) = rnd;
            ephemeral = generate_x25519_keypair P eph_rnd;
            dh_shared = x_dh P (kp_secret ephemeral) recipient_identity_public in
        bind_o (hkdf_derive P dh_shared [] (str_bytes ''hysj-sealed-enc'') 32) (\<lambda>encryption_key.
        bind_o (exact32 encryption_key) (\<lambda>enc_key.
        let inner = \<lparr>si_sender_id = sender_id, si_sender_cert = sender_cert, si_plaintext = plaintext\<rparr> in
        bind_o (of_sum SerializationError (to_json J inner)) (\<lambda>inner_bytes.
        bind_o (cipher_encrypt P nonce inner_bytes enc_key []) (\<lambda>encrypted_inner.
        Ok (kp_public ephemeral @ encrypted_inner))))))"

definition open_sealed ::
    "prims \<Rightarrow> sealed_inner codec \<Rightarrow> bytes \<Rightarrow> bytes \<Rightarrow> bytes \<Rightarrow> sealed_content crypto" where
  "open_sealed P J sealed_blob my_identity_secret cert_verification_key =
     (if length sealed_blob < 32 + 24 + 16 then Err (SealedSenderError ''sealed blob too short'')
      else if length my_identity_secret \<noteq> 32 then Err (InvalidKeyLength 32 (length my_identity_secret))
      else
        let ephemeral_public = take 32 sealed_blob;
            encrypted_inner = drop 32 sealed_blob;
            dh_shared = x_dh P my_identity_secret ephemeral_public in
        bind_o (hkdf_derive P dh_shared [] (str_bytes ''hysj-sealed-enc'') 32) (\<lambda>encryption_key.
        bind_o (exact32 encryption_key) (\<lambda>enc_key.
        bind_o (cipher_decrypt P encrypted_inner enc_key []) (\<lambda>inner_bytes.
        bind_o (of_sum DeserializationError (from_json J inner_bytes)) (\<lambda>inner.
        bind_o (if cert_verification_key \<noteq> [] \<and> length cert_verification_key = 32 then
                  if length (si_sender_cert inner) = 64 then
                    if ed_key_ok P cert_verification_key then
                      if \<not> verify P cert_verification_key (str_bytes (si_sender_id inner)) (si_sender_cert inner)
                      then Err (SealedSenderError ''sender certificate verification failed'')
                      else Ok ()
                    else Err (SealedSenderError ''invalid verification key format'')
                  else Ok ()
                else Ok ()) (\<lambda>_.
        Ok \<lparr>sc_sender_id = si_sender_id inner,
            sc_sender_certificate = si_sender_cert inner,
            sc_plaintext = si_plaintext inner\<rparr>))))))"

section \<open>onion.rs\<close>

record relay_node =
  rn_address :: string
  rn_public_key :: bytes

record onion_layer =
  ol_next_hop :: string
  ol_payload :: bytes

text \<open>
  The loop of \<open>wrap_onion\<close> over the numbered nodes of the route, innermost first; \<open>rnd i\<close> is the
  ephemeral key and the nonce drawn in the round of node \<open>i\<close>.
\<close>

fun wrap_loop ::
    "prims \<Rightarrow> onion_layer codec \<Rightarrow> relay_node list \<Rightarrow> (nat \<Rightarrow> bytes \<times> bytes) \<Rightarrow>
     (nat \<times> relay_node) list \<Rightarrow> bytes \<Rightarrow> bytes crypto" where
  "wrap_loop P J route rnd [] current_packet = Ok current_packet"
| "wrap_loop P J route rnd ((i, node) # rest) current_packet =
     (if length (rn_public_key node) \<noteq> 32 then Err (InvalidKeyLength 32 (length (rn_public_key node)))
      else
        let next_hop = (if i = length route - 1 then ''FINAL'' else rn_address (route ! (i + 1)));
            (eph_rnd, nonce) = rnd i;
            ephemeral = generate_x25519_keypair P eph_rnd;
            dh_shared = x_dh P (kp_secret ephemeral) (rn_public_key node) in
        bind_o (hkdf_derive P dh_shared [] (str_bytes ''hysj-onion-layer'') 32) (\<lambda>key_vec.
        bind_o (exact32 key_vec) (\<lambda>key.
        let layer = \<lparr>ol_next_hop = next_hop, ol_payload = current_packet\<rparr> in
        bind_o (of_sum SerializationError (to_json J layer)) (\<lambda>layer_bytes.
        bind_o (cipher_encrypt P nonce layer_bytes key []) (\<lambda>encrypted_layer.
        wrap_loop P J route rnd rest (kp_public ephemeral @ encrypted_layer))))))"

definition wrap_onion ::
    "prims \<Rightarrow> onion_layer codec \<Rightarrow> (nat \<Rightarrow> bytes \<times> bytes) \<Rightarrow> bytes \<Rightarrow> relay_node list \<Rightarrow> bytes crypto" where
  "wrap_onion P J rnd payload route =
     (if route = [] then Err (OnionError ''route must have at least one node'')
      else wrap_loop P J route rnd (rev (enumerate 0 route)) payload)"

definition unwrap_layer :: "prims \<Rightarrow> onion_layer codec \<Rightarrow> bytes \<Rightarrow> bytes \<Rightarrow> onion_layer crypto" where
  "unwrap_layer P J packet my_secret =
     (if length packet < 32 + 24 + 16 then Err (OnionError ''packet too short'')
      else if length my_secret \<noteq> 32 then Err (InvalidKeyLength 32 (length my_secret))
      else
        let ephemeral_public = take 32 packet;
            encrypted_layer = drop 32 packet;
            dh_shared = x_dh P my_secret ephemeral_public in
        bind_o (hkdf_derive P dh_shared [] (str_bytes ''hysj-onion-layer'') 32) (\<lambda>key_vec.
        bind_o (exact32 key_vec) (\<lambda>key.
        bind_o (cipher_decrypt P encrypted_layer key []) (\<lambda>layer_bytes.
        of_sum DeserializationError (from_json J layer_bytes)))))"

section \<open>The shared envelope\<close>

text \<open>Both formats rest on the same fact: both ends of the DH exchange derive the same key.\<close>

lemma envelope_opens:
  assumes "dh_laws P" and "kdf_laws P" and "aead_laws P"
    and "length sk = 32" and "length eph = 32" and "length nonce = 24"
    and "hkdf_derive P (x_dh P eph (x_pub P sk)) [] info 32 = (Ok key :: bytes crypto)"
    and "cipher_encrypt P nonce m key [] = Ok c"
  shows "hkdf_derive P (x_dh P sk (take 32 (x_pub P eph @ c))) [] info 32 = (Ok key :: bytes crypto)"
    and "cipher_decrypt P (drop 32 (x_pub P eph @ c)) key [] = Ok m"
    and "72 \<le> length (x_pub P eph @ c)" and "length key = 32"
proof -
  have len: "length (x_pub P eph) = 32" using assms(1) by simp
  then have t: "take 32 (x_pub P eph @ c) = x_pub P eph" "drop 32 (x_pub P eph @ c) = c" by simp_all
  show "hkdf_derive P (x_dh P sk (take 32 (x_pub P eph @ c))) [] info 32 = (Ok key :: bytes crypto)"
    using assms(7) dh_laws_comm [OF assms(1,4,5)] t by simp
  show "cipher_decrypt P (drop 32 (x_pub P eph @ c)) key [] = Ok m"
    using cipher_roundtrip [OF assms(3,6,8)] t by simp
  show "72 \<le> length (x_pub P eph @ c)"
    using cipher_encrypt_length [OF assms(3,6,8)] len by simp
  show "length key = 32"
    using kdf_laws_hkdf [OF assms(2), of 32 "[]" "x_dh P eph (x_pub P sk)" info] assms(7)
    by (fastforce simp: hkdf_derive_def)
qed

lemma seal_opens:
  assumes "dh_laws P" and "kdf_laws P" and "aead_laws P" and "codec_laws J"
    and "length sk = 32" and "length eph = 32" and "length nonce = 24"
    and "seal P J (eph, nonce) pt sid cert (x_pub P sk) = Ok blob"
  shows "open_sealed P J blob sk vk =
    (if length vk = 32 \<and> length cert = 64 \<and> \<not> (ed_key_ok P vk \<and> ed_verify P vk (str_bytes sid) cert)
     then Err (SealedSenderError (if ed_key_ok P vk then ''sender certificate verification failed''
                                  else ''invalid verification key format''))
     else Ok \<lparr>sc_sender_id = sid, sc_sender_certificate = cert, sc_plaintext = pt\<rparr>)"
proof -
  let ?inner = "\<lparr>si_sender_id = sid, si_sender_cert = cert, si_plaintext = pt\<rparr>"
  have pk: "length (x_pub P sk) = 32" using assms(1) by simp
  from assms(8) pk obtain key ib c where
    k: "hkdf_derive P (x_dh P eph (x_pub P sk)) [] (str_bytes ''hysj-sealed-enc'') 32 = (Ok key :: bytes crypto)"
    and ex: "exact32 key = (Ok key :: bytes crypto)"
    and ib: "to_json J ?inner = Inr ib" and c: "cipher_encrypt P nonce ib key [] = Ok c"
    and blob: "blob = x_pub P eph @ c"
    by (auto simp: seal_def Let_def generate_x25519_keypair_def exact32_def split: if_splits)
  note e = envelope_opens [OF assms(1-3,5-7) k c]
  have parsed: "from_json J ib = Inr ?inner" using assms(4) ib by (rule codec_lawsD)
  show ?thesis
    using e parsed assms(5) unfolding blob open_sealed_def Let_def
    by (auto simp: verify_def)
qed

text \<open>Peeling the layers in the order of the route.\<close>

fun peel :: "prims \<Rightarrow> onion_layer codec \<Rightarrow> bytes list \<Rightarrow> bytes \<Rightarrow> (string list \<times> bytes) crypto" where
  "peel P J [] packet = Ok ([], packet)"
| "peel P J (s # ss) packet =
     bind_o (unwrap_layer P J packet s) (\<lambda>layer.
     bind_o (peel P J ss (ol_payload layer)) (\<lambda>(hops, payload).
     Ok (ol_next_hop layer # hops, payload)))"

lemma layer_peels:
  assumes "dh_laws P" and "kdf_laws P" and "aead_laws P" and "codec_laws J"
    and "length sk = 32" and "rn_public_key node = x_pub P sk"
    and "length (fst (rnd i)) = 32" and "length (snd (rnd i)) = 24"
    and "wrap_loop P J route rnd ((i, node) # rest) packet = Ok out"
  shows "\<exists>packet'. wrap_loop P J route rnd rest packet' = Ok out \<and>
    unwrap_layer P J packet' sk =
      Ok \<lparr>ol_next_hop = (if i = length route - 1 then ''FINAL'' else rn_address (route ! (i + 1))),
          ol_payload = packet\<rparr>"
proof -
  obtain eph nonce where r: "rnd i = (eph, nonce)" by fastforce
  let ?hop = "if i = length route - 1 then ''FINAL'' else rn_address (route ! (i + 1))"
  have pk: "length (x_pub P sk) = 32" using assms(1) by simp
  from assms(6,9) pk r obtain key lb c where
    k: "hkdf_derive P (x_dh P eph (x_pub P sk)) [] (str_bytes ''hysj-onion-layer'') 32 = (Ok key :: bytes crypto)"
    and ex: "exact32 key = (Ok key :: bytes crypto)"
    and lb: "to_json J \<lparr>ol_next_hop = ?hop, ol_payload = packet\<rparr> = Inr lb"
    and c: "cipher_encrypt P nonce lb key [] = Ok c"
    and out: "wrap_loop P J route rnd rest (x_pub P eph @ c) = Ok out"
    by (auto simp: Let_def generate_x25519_keypair_def exact32_def split: if_splits)
  from assms(7,8) r have len: "length eph = 32" "length nonce = 24" by simp_all
  note e = envelope_opens [OF assms(1-3,5) len k c]
  have "from_json J lb = Inr \<lparr>ol_next_hop = ?hop, ol_payload = packet\<rparr>" using assms(4) lb by (rule codec_lawsD)
  with e assms(5) have "unwrap_layer P J (x_pub P eph @ c) sk = Ok \<lparr>ol_next_hop = ?hop, ol_payload = packet\<rparr>"
    unfolding unwrap_layer_def Let_def by simp
  with out show ?thesis by blast
qed

lemma wrap_loop_peels:
  assumes L: "dh_laws P" "kdf_laws P" "aead_laws P" "codec_laws J"
    and len: "length secrets = length route" "length route > 0"
    and nodes: "\<forall>i < length route. length (secrets ! i) = 32 \<and> rn_public_key (route ! i) = x_pub P (secrets ! i) \<and>
      length (fst (rnd i)) = 32 \<and> length (snd (rnd i)) = 24"
    and k: "k \<le> length route"
    and wrap: "wrap_loop P J route rnd (rev (enumerate 0 (take k route))) packet = Ok out"
    and rest: "peel P J (drop k secrets) packet = Ok (hops, payload)"
    and hops: "hops = drop k (map rn_address (tl route) @ [''FINAL''])"
  shows "peel P J secrets out = Ok (map rn_address (tl route) @ [''FINAL''], payload)"
  using k wrap rest hops
proof (induction k arbitrary: packet hops)
  case 0
  then show ?case by simp
next
  case (Suc k)
  let ?all = "map rn_address (tl route) @ [''FINAL'']"
  have k: "k < length route" using Suc.prems(1) by simp
  have "take (Suc k) route = take k route @ [route ! k]" using k by (rule take_Suc_conv_app_nth)
  then have en: "rev (enumerate 0 (take (Suc k) route)) = (k, route ! k) # rev (enumerate 0 (take k route))"
    using k by (simp add: enumerate_append_eq)
  have n: "length (secrets ! k) = 32" "rn_public_key (route ! k) = x_pub P (secrets ! k)"
    "length (fst (rnd k)) = 32" "length (snd (rnd k)) = 24" using nodes k by simp_all
  from layer_peels [where rnd = rnd and i = k, OF L n] Suc.prems(2) en obtain packet' where
    w: "wrap_loop P J route rnd (rev (enumerate 0 (take k route))) packet' = Ok out"
    and u: "unwrap_layer P J packet' (secrets ! k) =
      Ok \<lparr>ol_next_hop = (if k = length route - 1 then ''FINAL'' else rn_address (route ! (k + 1))),
          ol_payload = packet\<rparr>"
    by metis
  have nth: "?all ! k = (if k = length route - 1 then ''FINAL'' else rn_address (route ! (k + 1)))"
    using k by (auto simp: nth_append nth_tl)
  have "drop k secrets = secrets ! k # drop (Suc k) secrets" "drop k ?all = ?all ! k # drop (Suc k) ?all"
    using k len by (simp_all add: Cons_nth_drop_Suc del: drop_append)
  then have "peel P J (drop k secrets) packet' = Ok (drop k ?all, payload)"
    using u Suc.prems(3,4) nth by simp
  from Suc.IH [OF _ w this refl] k show ?case by simp
qed

section \<open>Properties\<close>

text \<open>
  C21: Opening a sealed message with the recipient's secret gives back the sender's name, the
  certificate and the text. The certificate is checked only when the verification key has 32 bytes
  and the certificate 64: with a certificate of any other length every claimed sender is accepted.
\<close>

theorem sealed_sender_opens:
  assumes "dh_laws P" and "kdf_laws P" and "aead_laws P" and "codec_laws J"
    and "length sk = 32" and "length eph = 32" and "length nonce = 24"
    and "seal P J (eph, nonce) pt sid cert (x_pub P sk) = Ok blob"
  shows "open_sealed P J blob sk vk =
    (if length vk = 32 \<and> length cert = 64 \<and> \<not> (ed_key_ok P vk \<and> ed_verify P vk (str_bytes sid) cert)
     then Err (SealedSenderError (if ed_key_ok P vk then ''sender certificate verification failed''
                                  else ''invalid verification key format''))
     else Ok \<lparr>sc_sender_id = sid, sc_sender_certificate = cert, sc_plaintext = pt\<rparr>)"
  using assms by (rule seal_opens)

definition toy_inner_codec :: "sealed_inner codec" where
  "toy_inner_codec = codec_of (\<lambda>_. False)
     (pc_map (\<lambda>s. (si_sender_id s, si_sender_cert s, si_plaintext s))
        (\<lambda>(i, c, p). \<lparr>si_sender_id = i, si_sender_cert = c, si_plaintext = p\<rparr>)
        (pc_pair pc_string (pc_pair pc_bytes pc_bytes)))"

lemma toy_inner_laws [simp]: "codec_laws toy_inner_codec"
  unfolding toy_inner_codec_def by (intro codec_of_laws pc_laws) simp_all

lemma toy_seal_ok:
  "\<exists>blob. seal toy_prims toy_inner_codec (replicate 32 1, replicate 24 0) pt sid cert (x_pub toy_prims sk) = Ok blob"
proof -
  have "length (x_pub toy_prims sk) = 32" by simp
  moreover obtain okm where "hkdf_sha256 toy_prims [] (x_dh toy_prims (replicate 32 1) (x_pub toy_prims sk))
      (str_bytes ''hysj-sealed-enc'') 32 = Some okm" "length okm = 32"
    by (rule kdf_laws_hkdf [OF toy_kdf_laws, of 32]) simp
  ultimately show ?thesis
    by (simp add: seal_def Let_def generate_x25519_keypair_def hkdf_derive_def toy_inner_codec_def codec_of_def
        cipher_encrypt_def) (simp add: toy_prims_def)
qed

theorem sealed_sender_opens_witness:
  "\<exists>blob. seal toy_prims toy_inner_codec (replicate 32 1, replicate 24 0) [1, 2] ''mallory as alice'' [9]
       (x_pub toy_prims (replicate 32 2)) = Ok blob \<and>
     open_sealed toy_prims toy_inner_codec blob (replicate 32 2) (replicate 32 8) =
       Ok \<lparr>sc_sender_id = ''mallory as alice'', sc_sender_certificate = [9], sc_plaintext = [1, 2]\<rparr>"
proof -
  obtain blob where b: "seal toy_prims toy_inner_codec (replicate 32 1, replicate 24 0) [1, 2] ''mallory as alice'' [9]
       (x_pub toy_prims (replicate 32 2)) = Ok blob"
    using toy_seal_ok by blast
  from sealed_sender_opens [OF toy_dh_laws toy_kdf_laws toy_aead_laws toy_inner_laws _ _ _ b, of "replicate 32 8"] b
  show ?thesis by simp
qed

text \<open>
  C22: A packet wrapped for a route of any length is peeled by the relays in order: each learns the
  address of the next relay, the last one \<open>FINAL\<close>, and the last layer holds the payload.
\<close>

theorem onion_route_delivers:
  assumes "dh_laws P" and "kdf_laws P" and "aead_laws P" and "codec_laws J"
    and "length secrets = length route"
    and "\<forall>i < length route. length (secrets ! i) = 32 \<and> rn_public_key (route ! i) = x_pub P (secrets ! i) \<and>
      length (fst (rnd i)) = 32 \<and> length (snd (rnd i)) = 24"
    and "wrap_onion P J rnd payload route = Ok packet"
  shows "peel P J secrets packet = Ok (map rn_address (tl route) @ [''FINAL''], payload)"
proof -
  from assms(7) have ne: "route \<noteq> []"
    and w: "wrap_loop P J route rnd (rev (enumerate 0 (take (length route) route))) payload = Ok packet"
    by (auto simp: wrap_onion_def split: if_splits)
  have d: "[] = drop (length route) (map rn_address (tl route) @ [''FINAL''])"
    using ne by (cases route) simp_all
  have p: "peel P J (drop (length route) secrets) payload = Ok ([], payload)" using assms(5) by simp
  show ?thesis
    by (rule wrap_loop_peels [OF assms(1-5) _ assms(6) order_refl w p d]) (use ne in simp)
qed

definition toy_layer_codec :: "onion_layer codec" where
  "toy_layer_codec = codec_of (\<lambda>_. False)
     (pc_map (\<lambda>l. (ol_next_hop l, ol_payload l)) (\<lambda>(h, p). \<lparr>ol_next_hop = h, ol_payload = p\<rparr>)
        (pc_pair pc_string pc_bytes))"

lemma toy_layer_laws [simp]: "codec_laws toy_layer_codec"
  unfolding toy_layer_codec_def by (intro codec_of_laws pc_laws) simp_all

lemma toy_wrap_ok:
  "\<forall>x \<in> set nodes. length (rn_public_key (snd x)) = 32 \<Longrightarrow>
   \<exists>out. wrap_loop toy_prims toy_layer_codec route rnd nodes packet = Ok out"
proof (induction nodes arbitrary: packet)
  case (Cons x nodes)
  obtain i node eph nonce where x: "x = (i, node)" "rnd i = (eph, nonce)" by (metis surj_pair)
  obtain okm where "hkdf_sha256 toy_prims [] (x_dh toy_prims eph (rn_public_key node))
      (str_bytes ''hysj-onion-layer'') 32 = Some okm" "length okm = 32"
    by (rule kdf_laws_hkdf [OF toy_kdf_laws, of 32]) simp
  moreover have "aead_seal toy_prims k n a m = Inr (m @ toy_tag k)" for k n a m by (simp add: toy_prims_def)
  ultimately show ?case
    using Cons x by (simp add: Let_def generate_x25519_keypair_def hkdf_derive_def toy_layer_codec_def codec_of_def
        cipher_encrypt_def)
qed simp

definition demo_route :: "relay_node list" where
  "demo_route = [\<lparr>rn_address = ''relay1:9001'', rn_public_key = x_pub toy_prims (replicate 32 1)\<rparr>,
                 \<lparr>rn_address = ''relay2:9002'', rn_public_key = x_pub toy_prims (replicate 32 2)\<rparr>,
                 \<lparr>rn_address = ''relay3:9003'', rn_public_key = x_pub toy_prims (replicate 32 3)\<rparr>]"

theorem onion_route_delivers_witness:
  "\<exists>packet. wrap_onion toy_prims toy_layer_codec (\<lambda>i. (replicate 32 (of_nat i), replicate 24 0)) [42] demo_route = Ok packet \<and>
     peel toy_prims toy_layer_codec [replicate 32 1, replicate 32 2, replicate 32 3] packet =
       Ok ([''relay2:9002'', ''relay3:9003'', ''FINAL''], [42])"
proof -
  let ?rnd = "\<lambda>i. (replicate 32 (of_nat i), replicate 24 0)"
  have "\<forall>x \<in> set (rev (enumerate 0 demo_route)). length (rn_public_key (snd x)) = 32"
    by (simp add: demo_route_def)
  from toy_wrap_ok [OF this, of demo_route ?rnd "[42]"] obtain packet where
    w: "wrap_onion toy_prims toy_layer_codec ?rnd [42] demo_route = Ok packet"
    by (auto simp: wrap_onion_def demo_route_def)
  have "peel toy_prims toy_layer_codec [replicate 32 1, replicate 32 2, replicate 32 3] packet =
      Ok (map rn_address (tl demo_route) @ [''FINAL''], [42])"
    by (rule onion_route_delivers [OF toy_dh_laws toy_kdf_laws toy_aead_laws toy_layer_laws _ _ w])
      (auto simp: demo_route_def less_Suc_eq numeral_3_eq_3)
  with w show ?thesis by (auto simp: demo_route_def)
qed

end
