(* ===== verification/Native_Api.thy ===== *)
theory Native_Api
  imports Ratchet_Properties X3dh_Handshake Sealed_Onion
begin

text \<open>
  native/src/api.rs: the functions the mobile client calls through flutter_rust_bridge. They
  take and return base64 text and strings for errors; sessions travel as serialized state, so
  every call loads a session, runs one operation and stores the result. The base64 engine is a
  parameter.
\<close>

record b64 =
  b64_encode :: "bytes \<Rightarrow> string"
  b64_decode :: "string \<Rightarrow> string + bytes"

text \<open>What was encoded decodes.\<close>

definition b64_laws :: "b64 \<Rightarrow> bool" where
  "b64_laws B \<longleftrightarrow> (\<forall>bs. b64_decode B (b64_encode B bs) = Inr bs)"

lemma b64_lawsD [simp]: "b64_laws B \<Longrightarrow> b64_decode B (b64_encode B bs) = Inr bs"
  by (simp add: b64_laws_def)

type_synonym 'a ffi = "(string, 'a) outcome"

definition b64_in :: "b64 \<Rightarrow> string \<Rightarrow> bytes ffi" where
  "b64_in B s = of_sum id (b64_decode B s)"

lemma b64_in_encode [simp]: "b64_laws B \<Longrightarrow> b64_in B (b64_encode B bs) = Ok bs"
  by (simp add: b64_in_def)

definition ffi_err :: "'a crypto \<Rightarrow> 'a ffi" where
  "ffi_err r = map_err crypto_error_str r"

lemma ffi_err_simps [simp]:
  "ffi_err (Ok x) = Ok x" "ffi_err (Err e) = Err (crypto_error_str e)" "ffi_err (Panic p) = Panic p"
  by (simp_all add: ffi_err_def)

section \<open>Keys, AEAD and HKDF\<close>

definition api_generate_x25519_keypair :: "prims \<Rightarrow> b64 \<Rightarrow> bytes \<Rightarrow> string \<times> string" where
  "api_generate_x25519_keypair P B rnd =
     (let kp = generate_x25519_keypair P rnd in (b64_encode B (kp_secret kp), b64_encode B (kp_public kp)))"

definition api_generate_ed25519_keypair :: "prims \<Rightarrow> b64 \<Rightarrow> bytes \<Rightarrow> string \<times> string" where
  "api_generate_ed25519_keypair P B rnd =
     (let kp = generate_ed25519_keypair P rnd in (b64_encode B (signing_key kp), b64_encode B (verifying_key kp)))"

definition api_encrypt_aead :: "prims \<Rightarrow> b64 \<Rightarrow> bytes \<Rightarrow> string \<Rightarrow> string \<Rightarrow> string ffi" where
  "api_encrypt_aead P B nonce key_b64 plaintext_b64 =
     bind_o (b64_in B key_b64) (\<lambda>key.
     bind_o (b64_in B plaintext_b64) (\<lambda>plaintext.
     if length key \<noteq> 32 then Err ''Key must be 32 bytes''
     else
       bind_o (ffi_err (cipher_encrypt P nonce plaintext key [])) (\<lambda>ciphertext.
       Ok (b64_encode B ciphertext))))"

definition api_decrypt_aead :: "prims \<Rightarrow> b64 \<Rightarrow> string \<Rightarrow> string \<Rightarrow> string ffi" where
  "api_decrypt_aead P B key_b64 ciphertext_b64 =
     bind_o (b64_in B key_b64) (\<lambda>key.
     bind_o (b64_in B ciphertext_b64) (\<lambda>ciphertext.
     if length key \<noteq> 32 then Err ''Key must be 32 bytes''
     else
       bind_o (ffi_err (cipher_decrypt P ciphertext key [])) (\<lambda>plaintext.
       Ok (b64_encode B plaintext))))"

definition api_hkdf_derive :: "prims \<Rightarrow> b64 \<Rightarrow> string \<Rightarrow> string \<Rightarrow> string \<Rightarrow> string ffi" where
  "api_hkdf_derive P B input_key_b64 salt_b64 info =
     bind_o (b64_in B input_key_b64) (\<lambda>ikm.
     bind_o (b64_in B salt_b64) (\<lambda>salt.
     bind_o (hkdf_derive P ikm salt (str_bytes info) 32) (\<lambda>derived.
     Ok (b64_encode B derived))))"

section \<open>Double ratchet sessions\<close>

definition api_ratchet_init_sender ::
    "prims \<Rightarrow> b64 \<Rightarrow> ratchet_state codec \<Rightarrow> bytes \<Rightarrow> string \<Rightarrow> string \<Rightarrow> string ffi" where
  "api_ratchet_init_sender P B S rnd shared_secret_b64 remote_public_key_b64 =
     bind_o (b64_in B shared_secret_b64) (\<lambda>shared_secret.
     bind_o (b64_in B remote_public_key_b64) (\<lambda>remote_pk.
     bind_o (ffi_err (init_sender P rnd shared_secret remote_pk)) (\<lambda>session.
     bind_o (rs_serialize S session) (\<lambda>bs. Ok (b64_encode B bs)))))"

definition api_ratchet_init_receiver ::
    "b64 \<Rightarrow> ratchet_state codec \<Rightarrow> string \<Rightarrow> string \<Rightarrow> string \<Rightarrow> string ffi" where
  "api_ratchet_init_receiver B S shared_secret_b64 our_private_key_b64 our_public_key_b64 =
     bind_o (b64_in B shared_secret_b64) (\<lambda>shared_secret.
     bind_o (b64_in B our_private_key_b64) (\<lambda>our_sk.
     bind_o (b64_in B our_public_key_b64) (\<lambda>our_pk.
     bind_o (rs_serialize S (init_receiver shared_secret (our_sk, our_pk))) (\<lambda>bs. Ok (b64_encode B bs)))))"

definition api_ratchet_encrypt ::
    "prims \<Rightarrow> b64 \<Rightarrow> ratchet_state codec \<Rightarrow> message_header codec \<Rightarrow> bytes \<Rightarrow> string \<Rightarrow> string \<Rightarrow>
     (string \<times> string \<times> string) ffi" where
  "api_ratchet_encrypt P B S J nonce session_b64 plaintext_b64 =
     bind_o (b64_in B session_b64) (\<lambda>session_bytes.
     bind_o (b64_in B plaintext_b64) (\<lambda>plaintext.
     bind_o (ffi_err (rs_deserialize S session_bytes)) (\<lambda>session.
     let (res, session') = rs_encrypt P J nonce plaintext session in
     bind_o (ffi_err res) (\<lambda>(ciphertext, header).
     bind_o (of_sum id (to_json J header)) (\<lambda>header_json.
     bind_o (rs_serialize S session') (\<lambda>bs.
     Ok (b64_encode B bs, bytes_str header_json, b64_encode B ciphertext)))))))"

definition api_ratchet_decrypt ::
    "prims \<Rightarrow> b64 \<Rightarrow> ratchet_state codec \<Rightarrow> message_header codec \<Rightarrow> bytes \<Rightarrow> string \<Rightarrow> string \<Rightarrow> string \<Rightarrow>
     (string \<times> string) ffi" where
  "api_ratchet_decrypt P B S J rnd session_b64 header_json ciphertext_b64 =
     bind_o (b64_in B session_b64) (\<lambda>session_bytes.
     bind_o (b64_in B ciphertext_b64) (\<lambda>ciphertext.
     bind_o (ffi_err (rs_deserialize S session_bytes)) (\<lambda>session.
     bind_o (of_sum id (from_json J (str_bytes header_json))) (\<lambda>header.
     let (res, session') = rs_decrypt P J rnd ciphertext header session in
     bind_o (ffi_err res) (\<lambda>plaintext.
     bind_o (rs_serialize S session') (\<lambda>bs.
     Ok (b64_encode B bs, b64_encode B plaintext)))))))"

section \<open>Sealed sender and onion routing\<close>

definition api_sealed_sender_seal ::
    "prims \<Rightarrow> b64 \<Rightarrow> sealed_inner codec \<Rightarrow> bytes \<times> bytes \<Rightarrow> string \<Rightarrow> string \<Rightarrow> string \<Rightarrow> string \<Rightarrow> string ffi" where
  "api_sealed_sender_seal P B J rnd plaintext_b64 sender_id sender_cert_b64 recipient_identity_public_b64 =
     bind_o (b64_in B plaintext_b64) (\<lambda>plaintext.
     bind_o (b64_in B sender_cert_b64) (\<lambda>sender_cert.
     bind_o (b64_in B recipient_identity_public_b64) (\<lambda>recipient.
     bind_o (ffi_err (seal P J rnd plaintext sender_id sender_cert recipient)) (\<lambda>sealed.
     Ok (b64_encode B sealed)))))"

definition api_sealed_sender_open ::
    "prims \<Rightarrow> b64 \<Rightarrow> sealed_inner codec \<Rightarrow> string \<Rightarrow> string \<Rightarrow> string \<Rightarrow> (string \<times> string \<times> string) ffi" where
  "api_sealed_sender_open P B J sealed_b64 our_identity_secret_b64 cert_verification_key_b64 =
     bind_o (b64_in B sealed_b64) (\<lambda>sealed.
     bind_o (b64_in B our_identity_secret_b64) (\<lambda>our_sk.
     bind_o (b64_in B cert_verification_key_b64) (\<lambda>cert_vk.
     bind_o (ffi_err (open_sealed P J sealed our_sk cert_vk)) (\<lambda>content.
     Ok (sc_sender_id content, b64_encode B (sc_sender_certificate content), b64_encode B (sc_plaintext content))))))"

definition api_onion_wrap ::
    "prims \<Rightarrow> b64 \<Rightarrow> onion_layer codec \<Rightarrow> (nat \<Rightarrow> bytes \<times> bytes) \<Rightarrow> string list \<Rightarrow> string list \<Rightarrow> string \<Rightarrow> string ffi" where
  "api_onion_wrap P B J rnd route_addresses route_public_keys_b64 plaintext_b64 =
     (if length route_addresses \<noteq> length route_public_keys_b64 then
        Err ''route_addresses and route_public_keys_b64 must have the same length''
      else
        bind_o (collect_o (\<lambda>(addr, pk_b64).
                  bind_o (b64_in B pk_b64) (\<lambda>pk. Ok \<lparr>rn_address = addr, rn_public_key = pk\<rparr>))
                (zip route_addresses route_public_keys_b64)) (\<lambda>route.
        bind_o (b64_in B plaintext_b64) (\<lambda>plaintext.
        bind_o (ffi_err (wrap_onion P J rnd plaintext route)) (\<lambda>onion.
        Ok (b64_encode B onion)))))"

definition api_onion_unwrap_layer ::
    "prims \<Rightarrow> b64 \<Rightarrow> onion_layer codec \<Rightarrow> string \<Rightarrow> string \<Rightarrow> (string \<times> string) ffi" where
  "api_onion_unwrap_layer P B J onion_b64 our_secret_b64 =
     bind_o (b64_in B onion_b64) (\<lambda>onion.
     bind_o (b64_in B our_secret_b64) (\<lambda>our_sk.
     bind_o (ffi_err (unwrap_layer P J onion our_sk)) (\<lambda>layer.
     Ok (ol_next_hop layer, b64_encode B (ol_payload layer)))))"

section \<open>Key agreement\<close>

definition b64_opt :: "b64 \<Rightarrow> string option \<Rightarrow> bytes option ffi" where
  "b64_opt B s = (case s of None \<Rightarrow> Ok None | Some t \<Rightarrow> bind_o (b64_in B t) (\<lambda>bs. Ok (Some bs)))"

definition api_x3dh_initiate ::
    "prims \<Rightarrow> b64 \<Rightarrow> bytes \<Rightarrow> bytes \<Rightarrow> string \<Rightarrow> string \<Rightarrow> string \<Rightarrow> string \<Rightarrow> string \<Rightarrow> string option \<Rightarrow> string \<Rightarrow>
     (string \<times> string \<times> string) ffi" where
  "api_x3dh_initiate P B eph_rnd kem_rnd our_identity_secret_b64 our_identity_public_b64 their_identity_public_b64
       their_signed_pre_key_b64 their_signed_pre_key_sig_b64 their_one_time_pre_key_b64 their_kyber_public_b64 =
     bind_o (b64_in B our_identity_secret_b64) (\<lambda>our_ik_secret.
     bind_o (b64_in B our_identity_public_b64) (\<lambda>our_ik_public.
     bind_o (b64_in B their_identity_public_b64) (\<lambda>their_ik.
     bind_o (b64_in B their_signed_pre_key_b64) (\<lambda>their_spk.
     bind_o (b64_in B their_signed_pre_key_sig_b64) (\<lambda>their_spk_sig.
     bind_o (b64_opt B their_one_time_pre_key_b64) (\<lambda>their_opk.
     bind_o (b64_in B their_kyber_public_b64) (\<lambda>their_kyber.
     let bundle = \<lparr>pb_identity_public = their_ik, pb_signed_pre_key = their_spk,
                    pb_signed_pre_key_sig = their_spk_sig, pb_one_time_pre_key = their_opk,
                    pb_kyber_public = their_kyber\<rparr> in
     bind_o (ffi_err (x3dh_initiate P eph_rnd kem_rnd our_ik_secret our_ik_public bundle)) (\<lambda>result.
     Ok (b64_encode B (xr_shared_secret result), b64_encode B (xr_ephemeral_public result),
         b64_encode B (xr_kyber_ciphertext result))))))))))"

definition api_x3dh_respond ::
    "prims \<Rightarrow> b64 \<Rightarrow> string \<Rightarrow> string \<Rightarrow> string option \<Rightarrow> string \<Rightarrow> string \<Rightarrow> string \<Rightarrow> string \<Rightarrow> string ffi" where
  "api_x3dh_respond P B our_identity_secret_b64 our_signed_pre_key_secret_b64 our_one_time_pre_key_secret_b64
       our_kyber_secret_b64 their_identity_public_b64 their_ephemeral_public_b64 kyber_ciphertext_b64 =
     bind_o (b64_in B our_identity_secret_b64) (\<lambda>our_ik.
     bind_o (b64_in B our_signed_pre_key_secret_b64) (\<lambda>our_spk.
     bind_o (b64_opt B our_one_time_pre_key_secret_b64) (\<lambda>our_opk.
     bind_o (b64_in B our_kyber_secret_b64) (\<lambda>our_kyber.
     bind_o (b64_in B their_identity_public_b64) (\<lambda>their_ik.
     bind_o (b64_in B their_ephemeral_public_b64) (\<lambda>their_eph.
     bind_o (b64_in B kyber_ciphertext_b64) (\<lambda>kyber_ct.
     bind_o (ffi_err (x3dh_respond P our_ik our_spk our_opk our_kyber their_ik their_eph kyber_ct)) (\<lambda>shared_secret.
     Ok (b64_encode B shared_secret)))))))))"

section \<open>Properties\<close>

text \<open>
  C33: Over the client's API, a message that skips ahead in the current chain makes
  \<open>ratchet_decrypt\<close> panic, although the ratchet itself decrypts it: the session that stores the
  skipped keys cannot be serialized.
\<close>

theorem api_decrypt_out_of_order_panics:
  assumes "b64_laws B" and "state_json_laws S" and "codec_laws J" and "kdf_laws P"
    and "receiving P dh ck0 c0 seen s" and "to_json S s = Inr sb"
    and "carries P J dh ck0 n pt ct hdr" and "to_json J hdr = Inr hb"
    and "unat (recv_message_number s) < n" and "c0 + n \<le> MAX_SKIPPED_KEYS"
  shows "fst (rs_decrypt P J rnd ct hdr s) = Ok pt \<and>
    api_ratchet_decrypt P B S J rnd (b64_encode B sb) (bytes_str hb) (b64_encode B ct) =
      Panic ''ratchet state serialization should not fail''"
proof -
  obtain r where r: "r = unat (recv_message_number s)" by blast
  obtain s' where d: "rs_decrypt P J rnd ct hdr s = (Ok pt, s')"
    and R: "receiving P dh ck0 c0 (insert n seen) s'"
    using decrypt_ahead [OF assms(5,4,7)] assms(9,10) by auto
  have rn: "r < n" using assms(9) r by simp
  have r32: "r < 4294967296" using unat_lt_u32 [of "recv_message_number s"] r by simp
  have "n < unat (recv_message_number s')" using R by (simp add: receiving_def)
  moreover have "r \<notin> insert n seen" using assms(5,9) r by (auto simp: receiving_def)
  moreover have "sk_look (rs_skipped s') (hex_encode dh, of_nat r) =
      (if r < unat (recv_message_number s') \<and> r \<notin> insert n seen then Some (mk_at P ck0 r) else None)"
    using R r32 unfolding receiving_def by blast
  ultimately have "sk_look (rs_skipped s') (hex_encode dh, of_nat r) = Some (mk_at P ck0 r)"
    using rn by simp
  then have ne: "sk_keys (rs_skipped s') \<noteq> []" by (auto simp: sk_look_def)
  have S: "codec_laws S" "to_json S s' = Inl ''key must be a string''"
    using assms(2) ne unfolding state_json_laws_def by metis+
  have "from_json S sb = Inr s" "from_json J hb = Inr hdr"
    using codec_lawsD S(1) assms(3,6,8) by metis+
  with d S(2) assms(1) show ?thesis
    by (simp add: api_ratchet_decrypt_def rs_deserialize_def rs_serialize_def Let_def)
qed

definition toy_b64 :: b64 where
  "toy_b64 = \<lparr>b64_encode = bytes_str, b64_decode = (\<lambda>s. Inr (str_bytes s))\<rparr>"

lemma toy_b64_laws [simp]: "b64_laws toy_b64"
  by (simp add: b64_laws_def toy_b64_def)

definition demo_cipher :: bytes where
  "demo_cipher = replicate 24 0 @ [42] @ toy_tag (mk_at toy_prims [5] 2)"

lemma demo_carries: "carries toy_prims toy_header_codec [1] [5] 2 [42] demo_cipher (header_new [1] 0 2)"
proof -
  obtain b where "to_json toy_header_codec (header_new [1] 0 2) = Inr b" by (metis toy_header_total)
  moreover have "length (mk_at toy_prims [5] 2) = 32" by simp
  ultimately show ?thesis
    by (simp add: carries_def decrypt_with_def header_to_bytes_def cipher_decrypt_def demo_cipher_def Let_def
        toy_tag_def) (simp add: toy_prims_def toy_tag_def)
qed

theorem api_decrypt_out_of_order_panics_witness:
  "\<exists>sb hb. to_json toy_state_codec demo_seen_one = Inr sb \<and> to_json toy_header_codec (header_new [1] 0 2) = Inr hb \<and>
     api_ratchet_decrypt toy_prims toy_b64 toy_state_codec toy_header_codec [] (b64_encode toy_b64 sb) (bytes_str hb)
       (b64_encode toy_b64 demo_cipher) = Panic ''ratchet state serialization should not fail''"
proof -
  have "sk_keys (rs_skipped demo_seen_one) = []"
    by (simp add: demo_seen_one_def init_receiver_def sk_new_def)
  then obtain sb where sb: "to_json toy_state_codec demo_seen_one = Inr sb"
    using toy_state_laws unfolding state_json_laws_def by metis
  obtain hb where hb: "to_json toy_header_codec (header_new [1] 0 2) = Inr hb" by (metis toy_header_total)
  have r: "unat (recv_message_number demo_seen_one) < 2" by (simp add: demo_seen_one_def)
  from api_decrypt_out_of_order_panics [OF toy_b64_laws toy_state_laws toy_header_laws toy_kdf_laws
      demo_seen_one_receiving sb demo_carries hb r, of "[]"] sb hb
  show ?thesis by (simp add: MAX_SKIPPED_KEYS_def)
qed

lemma decrypt_next_keeps_cache:
  assumes R: "receiving P dh ck0 c0 seen B" and K: "kdf_laws P" and C: "carries P J dh ck0 n pt ct hdr"
    and n: "unat (recv_message_number B) = n" and d: "rs_decrypt P J rnd ct hdr B = (Ok pt, B')"
  shows "rs_skipped B' = rs_skipped B"
proof -
  from n have num: "recv_message_number B = of_nat n" by auto
  from C have h: "message_number hdr = of_nat n" "dh_public hdr = dh" "n < 4294967296"
    by (simp_all add: carries_def)
  with R n have "sk_look (rs_skipped B) (hex_encode dh, of_nat n) = None" by (simp add: receiving_def)
  then have t: "sk_take (hex_encode dh) (of_nat n) (rs_skipped B) = (None, rs_skipped B)" by (rule sk_take_miss)
  have ck: "receiving_chain_key B = Some (ck_at P ck0 n)" using R n by (simp add: receiving_def)
  have "skip_missed_messages P (of_nat n) B = (Ok (), B)" using skip_missed_same [of P B] num by simp
  with t h ck C K receiving_not_ratchet [OF R h(2)] d show ?thesis
    by (auto simp: rs_decrypt_def decrypt_chain_def bind_a_Ok carries_def derive_chain_key_at ret_def
        simp del: ck_at.simps)
qed

lemma serialize_empty:
  assumes "state_json_laws S" and "sk_is_empty (rs_skipped s)"
  obtains b where "to_json S s = Inr b" "from_json S b = Inr s"
  using assms codec_lawsD unfolding state_json_laws_def sk_is_empty_def by metis

text \<open>
  As long as messages arrive in order the client's API works: encrypting and then decrypting
  through serialized sessions gives back the plaintext, and both sessions can be stored again and
  are ready for the next message.
\<close>

theorem api_in_order_roundtrip:
  assumes "b64_laws B" and "state_json_laws S" and "codec_laws J" and "kdf_laws P" and "aead_laws P"
    and "seal_laws P J" and "length nonce = 24" and "length pt \<le> 274877906880"
    and "sending P dh ck0 n a" and "receiving P dh ck0 0 {..<n} b" and "unat (recv_message_number b) = n"
    and "n \<le> MAX_SKIPPED_KEYS" and "sk_is_empty (rs_skipped a)" and "sk_is_empty (rs_skipped b)"
    and "to_json S a = Inr ab" and "to_json S b = Inr bb"
  shows "\<exists>hj c64 ab' bb' a' b'.
    api_ratchet_encrypt P B S J nonce (b64_encode B ab) (b64_encode B pt) = Ok (b64_encode B ab', hj, c64) \<and>
    api_ratchet_decrypt P B S J rnd (b64_encode B bb) hj c64 = Ok (b64_encode B bb', b64_encode B pt) \<and>
    from_json S ab' = Inr a' \<and> from_json S bb' = Inr b' \<and>
    sending P dh ck0 (Suc n) a' \<and> receiving P dh ck0 0 {..<Suc n} b' \<and>
    sk_is_empty (rs_skipped a') \<and> sk_is_empty (rs_skipped b')"
proof -
  have fr: "from_json S ab = Inr a" "from_json S bb = Inr b"
    using assms(2,15,16) codec_lawsD unfolding state_json_laws_def by metis+
  obtain ct hdr a' where e: "rs_encrypt P J nonce pt a = (Ok (ct, hdr), a')"
    using encrypt_succeeds [OF assms(9,4,6,7,8)] by blast
  obtain hb where hb: "to_json J hdr = Inr hb" using assms(6) unfolding seal_laws_def by blast
  have n32: "n < 4294967295" using assms(12) by (simp add: MAX_SKIPPED_KEYS_def)
  have enc: "carries P J dh ck0 n pt ct hdr" "sending P dh ck0 (Suc n) a'" "same_receiver a a'"
    using encrypt_sends [OF assms(9,4,5,7) n32 e] by simp_all
  obtain b' where d: "rs_decrypt P J rnd ct hdr b = (Ok pt, b')" and R: "receiving P dh ck0 0 (insert n {..<n}) b'"
    using decrypt_ahead [OF assms(10,4) enc(1)] assms(11,12) by auto
  have ins: "insert n {..<n} = {..<Suc n}" by auto
  have ea: "sk_is_empty (rs_skipped a')" using enc(3) assms(13) by (simp add: same_receiver_def)
  have eb: "sk_is_empty (rs_skipped b')"
    using decrypt_next_keeps_cache [OF assms(10,4) enc(1) assms(11) d] assms(14) by simp
  obtain ab' where ab': "to_json S a' = Inr ab'" "from_json S ab' = Inr a'" using assms(2) ea by (rule serialize_empty)
  obtain bb' where bb': "to_json S b' = Inr bb'" "from_json S bb' = Inr b'" using assms(2) eb by (rule serialize_empty)
  have "api_ratchet_encrypt P B S J nonce (b64_encode B ab) (b64_encode B pt) =
      Ok (b64_encode B ab', bytes_str hb, b64_encode B ct)"
    using e hb ab' fr(1) assms(1) by (simp add: api_ratchet_encrypt_def rs_deserialize_def rs_serialize_def)
  moreover have "api_ratchet_decrypt P B S J rnd (b64_encode B bb) (bytes_str hb) (b64_encode B ct) =
      Ok (b64_encode B bb', b64_encode B pt)"
    using d codec_lawsD [OF assms(3) hb] bb' fr(2) assms(1)
    by (simp add: api_ratchet_decrypt_def rs_deserialize_def rs_serialize_def)
  ultimately show ?thesis using ab'(2) bb'(2) enc(2) R ea eb unfolding ins by blast
qed

definition demo_sender :: ratchet_state where
  "demo_sender = demo_seen_one\<lparr>dh_send_public := [1], sending_chain_key := Some (ck_at toy_prims [5] 1),
     send_message_number := 1\<rparr>"

theorem api_in_order_roundtrip_witness:
  "\<exists>ab bb ab' bb' hj c64. to_json toy_state_codec demo_sender = Inr ab \<and> to_json toy_state_codec demo_seen_one = Inr bb \<and>
     api_ratchet_encrypt toy_prims toy_b64 toy_state_codec toy_header_codec (replicate 24 0) (b64_encode toy_b64 ab)
       (b64_encode toy_b64 [42]) = Ok (b64_encode toy_b64 ab', hj, c64) \<and>
     api_ratchet_decrypt toy_prims toy_b64 toy_state_codec toy_header_codec [] (b64_encode toy_b64 bb) hj c64 =
       Ok (b64_encode toy_b64 bb', b64_encode toy_b64 [42])"
proof -
  have ea: "sk_is_empty (rs_skipped demo_sender)" and eb: "sk_is_empty (rs_skipped demo_seen_one)"
    by (simp_all add: demo_sender_def demo_seen_one_def init_receiver_def sk_new_def sk_is_empty_def)
  obtain ab where ab: "to_json toy_state_codec demo_sender = Inr ab" using toy_state_laws ea by (rule serialize_empty)
  obtain bb where bb: "to_json toy_state_codec demo_seen_one = Inr bb" using toy_state_laws eb by (rule serialize_empty)
  have s: "sending toy_prims [1] [5] 1 demo_sender" by (simp add: sending_def demo_sender_def)
  have "{..<Suc 0} = {0 :: nat}" by auto
  then have r: "receiving toy_prims [1] [5] 0 {..<1} demo_seen_one" using demo_seen_one_receiving by simp
  have n: "unat (recv_message_number demo_seen_one) = 1" by (simp add: demo_seen_one_def)
  from api_in_order_roundtrip [OF toy_b64_laws toy_state_laws toy_header_laws toy_kdf_laws toy_aead_laws toy_seal_laws
      _ _ s r n _ ea eb ab bb, of "replicate 24 0" "[42]" "[]"] ab bb
  show ?thesis unfolding MAX_SKIPPED_KEYS_def by (simp only: length_replicate list.size) (simp, blast)
qed

end
