(* ===== verification/Redis_Service.thy ===== *)
theory Redis_Service
  imports Hysj_Prelude "HOL-Library.Sublist"
begin

text \<open>
  The Redis server is not part of the repository: it is a parameter, a record of the commands
  the code sends, each an \<open>act\<close> on an opaque server state, together with an observation
  \<open>r_look\<close> of the keyspace (value and remaining time to live). \<open>redis_laws\<close> states the documented
  effect of the commands: a command that answers has its effect, one that fails may or may not
  have had it. SCAN is only promised to report keys that exist during a whole iteration;
  \<open>scan_terminates\<close> that an iteration ends. A request is taken to run without keys expiring in
  its middle. Loops over SCAN run with fuel: \<open>None\<close> is running out of it.
\<close>

type_synonym keyspace = "string \<Rightarrow> (bytes \<times> nat option) option"

record 's redis =
  r_exists :: "string \<Rightarrow> ('s, string, bool) act"
  r_set_ex :: "string \<Rightarrow> bytes \<Rightarrow> nat \<Rightarrow> ('s, string, unit) act"
  r_set :: "string \<Rightarrow> bytes \<Rightarrow> ('s, string, unit) act"
  r_get :: "string \<Rightarrow> ('s, string, bytes option) act"
  r_del :: "string list \<Rightarrow> ('s, string, nat) act"
  r_expire :: "string \<Rightarrow> nat \<Rightarrow> ('s, string, bool) act"
  r_ttl :: "string \<Rightarrow> ('s, string, int) act"
  r_scan :: "nat \<Rightarrow> string \<Rightarrow> ('s, string, nat \<times> string list) act"
  r_look :: "'s \<Rightarrow> keyspace"

section \<open>What the commands are documented to do\<close>

definition performs :: "('s \<Rightarrow> 'l) \<Rightarrow> ('s, 'e, 'a) act \<Rightarrow> 's \<Rightarrow> 'a \<Rightarrow> 'l \<Rightarrow> bool" where
  "performs look m s x l \<longleftrightarrow> (case m s of
      (Ok y, s') \<Rightarrow> y = x \<and> look s' = l
    | (Err e, s') \<Rightarrow> look s' = look s \<or> look s' = l
    | (Panic p, s') \<Rightarrow> False)"

definition has :: "keyspace \<Rightarrow> string \<Rightarrow> bool" where
  "has L k \<longleftrightarrow> L k \<noteq> None"

lemma has_simps [simp]:
  "has (L(k \<mapsto> v)) j \<longleftrightarrow> j = k \<or> has L j" "has (L |` A) k \<longleftrightarrow> k \<in> A \<and> has L k" "\<not> has (\<lambda>_. None) k"
  by (auto simp: has_def restrict_map_def)

definition ttl_of :: "keyspace \<Rightarrow> string \<Rightarrow> int" where
  "ttl_of L k = (case L k of None \<Rightarrow> -2 | Some (v, None) \<Rightarrow> -1 | Some (v, Some t) \<Rightarrow> int t)"

definition set_ttl :: "keyspace \<Rightarrow> string \<Rightarrow> nat \<Rightarrow> keyspace" where
  "set_ttl L k t = (case L k of None \<Rightarrow> L | Some (v, _) \<Rightarrow> L(k \<mapsto> (v, Some t)))"

text \<open>Glob patterns: the code only uses a fixed prefix followed by one star.\<close>

definition plain :: "string \<Rightarrow> bool" where
  "plain p \<longleftrightarrow> set p \<inter> (set ''*?[]^'' \<union> {CHR 0x5C}) = {}"

definition commands_ok :: "'s redis \<Rightarrow> bool" where
  "commands_ok R \<longleftrightarrow> (\<forall>s k v t ks.
     performs (r_look R) (r_exists R k) s (has (r_look R s) k) (r_look R s) \<and>
     performs (r_look R) (r_set_ex R k v t) s () ((r_look R s)(k \<mapsto> (v, Some t))) \<and>
     \<not> is_ok (fst (r_set_ex R k v 0 s)) \<and>
     performs (r_look R) (r_set R k v) s () ((r_look R s)(k \<mapsto> (v, None))) \<and>
     performs (r_look R) (r_get R k) s (map_option fst (r_look R s k)) (r_look R s) \<and>
     performs (r_look R) (r_del R ks) s (card (dom (r_look R s) \<inter> set ks)) ((r_look R s) |` (- set ks)) \<and>
     performs (r_look R) (r_expire R k t) s (has (r_look R s) k) (set_ttl (r_look R s) k t) \<and>
     performs (r_look R) (r_ttl R k) s (ttl_of (r_look R s) k) (r_look R s))"

text \<open>An unfinished iteration: the states in which SCAN was called, each giving the next cursor.\<close>

fun scan_to :: "'s redis \<Rightarrow> string \<Rightarrow> nat \<Rightarrow> 's list \<Rightarrow> nat \<Rightarrow> bool" where
  "scan_to R pat c [] d \<longleftrightarrow> c = d"
| "scan_to R pat c (s # ss) d \<longleftrightarrow>
     (case fst (r_scan R c pat s) of Ok (n, ks) \<Rightarrow> n \<noteq> 0 \<and> scan_to R pat n ss d | _ \<Rightarrow> False)"

fun scan_keys :: "'s redis \<Rightarrow> string \<Rightarrow> nat \<Rightarrow> 's list \<Rightarrow> string set" where
  "scan_keys R pat c [] = {}"
| "scan_keys R pat c (s # ss) =
     (case fst (r_scan R c pat s) of Ok (n, ks) \<Rightarrow> set ks \<union> scan_keys R pat n ss | _ \<Rightarrow> {})"

definition scan_page_ok :: "'s redis \<Rightarrow> bool" where
  "scan_page_ok R \<longleftrightarrow> (\<forall>p c s. plain p \<longrightarrow>
     (case r_scan R c (p @ ''*'') s of
        (Ok x, s') \<Rightarrow> r_look R s' = r_look R s \<and> (\<forall>k \<in> set (snd x). has (r_look R s) k \<and> prefix p k)
      | (Err e, s') \<Rightarrow> r_look R s' = r_look R s
      | (Panic q, s') \<Rightarrow> False))"

definition scan_complete :: "'s redis \<Rightarrow> bool" where
  "scan_complete R \<longleftrightarrow> (\<forall>p c s ss ks k. plain p \<longrightarrow> prefix p k \<longrightarrow>
     scan_to R (p @ ''*'') 0 ss c \<longrightarrow> fst (r_scan R c (p @ ''*'') s) = Ok (0, ks) \<longrightarrow>
     (\<forall>t \<in> set (ss @ [s]). has (r_look R t) k) \<longrightarrow> k \<in> scan_keys R (p @ ''*'') 0 ss \<union> set ks)"

definition redis_laws :: "'s redis \<Rightarrow> bool" where
  "redis_laws R \<longleftrightarrow> commands_ok R \<and> scan_page_ok R \<and> scan_complete R"

definition scan_terminates :: "'s redis \<Rightarrow> nat \<Rightarrow> bool" where
  "scan_terminates R N \<longleftrightarrow> (\<forall>pat ss c. scan_to R pat 0 ss c \<longrightarrow> length ss < N)"

text \<open>The server answers every command.\<close>

definition redis_up :: "'s redis \<Rightarrow> bool" where
  "redis_up R \<longleftrightarrow> (\<forall>s k v t ks c pat.
     is_ok (fst (r_exists R k s)) \<and> (0 < t \<longrightarrow> is_ok (fst (r_set_ex R k v t s))) \<and> is_ok (fst (r_set R k v s)) \<and> is_ok (fst (r_get R k s)) \<and>
     is_ok (fst (r_del R ks s)) \<and> is_ok (fst (r_expire R k t s)) \<and> is_ok (fst (r_ttl R k s)) \<and>
     is_ok (fst (r_scan R c pat s)))"

text \<open>A usable server, with a bound on the calls of one SCAN iteration.\<close>

definition redis_good :: "nat \<Rightarrow> 's redis \<Rightarrow> bool" where
  "redis_good N R \<longleftrightarrow> redis_laws R \<and> redis_up R \<and> scan_terminates R N"

lemma performs_up:
  assumes "performs look m s x l" and "is_ok (fst (m s))"
  obtains s' where "m s = (Ok x, s')" "look s' = l"
  using assms by (cases "m s") (auto simp: performs_def is_ok_def)

lemma redis_good_commands:
  assumes "redis_good N R"
  shows "performs (r_look R) (r_exists R k) s (has (r_look R s) k) (r_look R s)" "is_ok (fst (r_exists R k s))"
    "performs (r_look R) (r_set_ex R k v t) s () ((r_look R s)(k \<mapsto> (v, Some t)))"
    "0 < t \<Longrightarrow> is_ok (fst (r_set_ex R k v t s))" "\<not> is_ok (fst (r_set_ex R k v 0 s))"
    "performs (r_look R) (r_get R k) s (map_option fst (r_look R s k)) (r_look R s)" "is_ok (fst (r_get R k s))"
    "performs (r_look R) (r_del R ks) s (card (dom (r_look R s) \<inter> set ks)) ((r_look R s) |` (- set ks))"
    "is_ok (fst (r_del R ks s))"
    "performs (r_look R) (r_expire R k t) s (has (r_look R s) k) (set_ttl (r_look R s) k t)"
    "is_ok (fst (r_expire R k t s))"
    "performs (r_look R) (r_ttl R k) s (ttl_of (r_look R s) k) (r_look R s)" "is_ok (fst (r_ttl R k s))"
    "is_ok (fst (r_scan R c pat s))"
    "performs (r_look R) (r_set R k v) s () ((r_look R s)(k \<mapsto> (v, None)))" "is_ok (fst (r_set R k v s))"
  using assms unfolding redis_good_def redis_laws_def commands_ok_def redis_up_def by blast+

lemma redis_exists:
  assumes "redis_good N R"
  obtains s' where "r_exists R k s = (Ok (has (r_look R s) k), s')" "r_look R s' = r_look R s"
  by (rule performs_up [OF redis_good_commands(1,2) [OF assms]])

lemma redis_set:
  assumes "redis_good N R" and "0 < t"
  obtains s' where "r_set_ex R k v t s = (Ok (), s')" "r_look R s' = (r_look R s)(k \<mapsto> (v, Some t))"
  by (rule performs_up [OF redis_good_commands(3,4) [OF assms(1)]]) (rule assms(2))

lemma redis_set_plain:
  assumes "redis_good N R"
  obtains s' where "r_set R k v s = (Ok (), s')" "r_look R s' = (r_look R s)(k \<mapsto> (v, None))"
  by (rule performs_up [OF redis_good_commands(15,16) [OF assms]])

lemma redis_get:
  assumes "redis_good N R"
  obtains s' where "r_get R k s = (Ok (map_option fst (r_look R s k)), s')" "r_look R s' = r_look R s"
  by (rule performs_up [OF redis_good_commands(6,7) [OF assms]])

lemma redis_del:
  assumes "redis_good N R"
  obtains s' where "r_del R ks s = (Ok (card (dom (r_look R s) \<inter> set ks)), s')"
    "r_look R s' = (r_look R s) |` (- set ks)"
  by (rule performs_up [OF redis_good_commands(8,9) [OF assms]])

lemma redis_expire:
  assumes "redis_good N R"
  obtains s' where "r_expire R k t s = (Ok (has (r_look R s) k), s')" "r_look R s' = set_ttl (r_look R s) k t"
  by (rule performs_up [OF redis_good_commands(10,11) [OF assms]])

lemma redis_ttl:
  assumes "redis_good N R"
  obtains s' where "r_ttl R k s = (Ok (ttl_of (r_look R s) k), s')" "r_look R s' = r_look R s"
  by (rule performs_up [OF redis_good_commands(12,13) [OF assms]])

lemma redis_scan:
  assumes "redis_good N R" and "plain p"
  obtains n ks s' where "r_scan R c (p @ ''*'') s = (Ok (n, ks), s')" "r_look R s' = r_look R s"
    "\<forall>k \<in> set ks. has (r_look R s) k \<and> prefix p k"
proof -
  from redis_good_commands(14) [OF assms(1), where c = c and pat = "p @ ''*''" and s = s] obtain x s' where
    x: "r_scan R c (p @ ''*'') s = (Ok x, s')"
    by (cases "r_scan R c (p @ ''*'') s") (auto simp: is_ok_def)
  have "scan_page_ok R" using assms(1) by (simp add: redis_good_def redis_laws_def)
  from this [unfolded scan_page_ok_def, THEN spec [of _ p], THEN spec [of _ c], THEN spec [of _ s],
      THEN mp, OF assms(2)] x
  show ?thesis using that [of "fst x" "snd x" s'] by simp
qed

lemma scan_completeD:
  assumes "redis_good N R" and "plain p" and "prefix p k" and "scan_to R (p @ ''*'') 0 ss c"
    and "r_scan R c (p @ ''*'') s = (Ok (0, ks), s')" and "\<forall>t \<in> set (ss @ [s]). has (r_look R t) k"
  shows "k \<in> scan_keys R (p @ ''*'') 0 ss \<union> set ks"
proof -
  have "scan_complete R" using assms(1) by (simp add: redis_good_def redis_laws_def)
  moreover have "fst (r_scan R c (p @ ''*'') s) = Ok (0, ks)" using assms(5) by simp
  ultimately show ?thesis using assms(2,3,4,6) unfolding scan_complete_def by blast
qed

lemma scan_bound: "redis_good N R \<Longrightarrow> scan_to R pat 0 ss c \<Longrightarrow> length ss < N"
  unfolding redis_good_def scan_terminates_def by blast

section \<open>Loops over SCAN\<close>

fun scan_loop ::
    "nat \<Rightarrow> 's redis \<Rightarrow> string \<Rightarrow> (string list \<Rightarrow> 'acc \<Rightarrow> ('s, string, 'acc) act) \<Rightarrow> nat \<Rightarrow> 'acc \<Rightarrow>
     ('s, string, 'acc option) act" where
  "scan_loop 0 R pat body cursor acc = ret None"
| "scan_loop (Suc fuel) R pat body cursor acc =
     bind_a (r_scan R cursor pat) (\<lambda>(next_cursor, keys).
     bind_a (body keys acc) (\<lambda>acc'.
     if next_cursor = 0 then ret (Some acc')
     else scan_loop fuel R pat body next_cursor acc'))"

lemma scan_to_snoc:
  "scan_to R pat c ss d \<Longrightarrow> fst (r_scan R d pat s) = Ok (n, ks) \<Longrightarrow> n \<noteq> 0 \<Longrightarrow> scan_to R pat c (ss @ [s]) n"
  by (induction ss arbitrary: c) (auto split: outcome.splits)

lemma scan_keys_snoc:
  "scan_to R pat c ss d \<Longrightarrow> fst (r_scan R d pat s) = Ok (n, ks) \<Longrightarrow>
   scan_keys R pat c (ss @ [s]) = scan_keys R pat c ss \<union> set ks"
  by (induction ss arbitrary: c) (auto split: outcome.splits)

text \<open>
  The rule every SCAN loop of the code is proved with: \<open>dealt acc\<close> are the keys the body has dealt
  with, and the keys that are not done are still as they were at the start. At the end every key
  that existed at the start is done.
\<close>

lemma scan_loop_all:
  assumes G: "redis_good N R" and p: "plain p"
    and step: "\<And>keys acc s. I acc s \<Longrightarrow> \<forall>k \<in> set keys. has (r_look R s) k \<and> prefix p k \<Longrightarrow>
      \<exists>acc' s'. body keys acc s = (Ok acc', s') \<and> I acc' s' \<and> set keys \<subseteq> dealt acc' \<and> dealt acc \<subseteq> dealt acc'"
    and look: "\<And>acc s s'. I acc s \<Longrightarrow> r_look R s' = r_look R s \<Longrightarrow> I acc s'"
    and frame: "\<And>acc s k. I acc s \<Longrightarrow> k \<notin> dealt acc \<Longrightarrow> has start k \<Longrightarrow> has (r_look R s) k"
    and init: "I acc0 s0" and fuel: "N \<le> fuel"
  shows "\<exists>acc s. scan_loop fuel R (p @ ''*'') body 0 acc0 s0 = (Ok (Some acc), s) \<and> I acc s \<and>
    {k. has start k \<and> prefix p k} \<subseteq> dealt acc"
proof -
  have "\<exists>acc s'. scan_loop f R (p @ ''*'') body c a s = (Ok (Some acc), s') \<and> I acc s' \<and>
      {k. has start k \<and> prefix p k} \<subseteq> dealt acc"
    if "scan_to R (p @ ''*'') 0 ss c" "scan_keys R (p @ ''*'') 0 ss \<subseteq> dealt a" "I a s"
      "\<forall>t \<in> set ss. \<forall>k. k \<notin> dealt a \<longrightarrow> has start k \<longrightarrow> has (r_look R t) k"
      "N \<le> f + length ss" for f c a s ss
    using that
  proof (induction f arbitrary: c a s ss)
    case 0
    from scan_bound [OF G 0(1)] 0(5) show ?case by simp
  next
    case (Suc f)
    obtain n ks s1 where sc: "r_scan R c (p @ ''*'') s = (Ok (n, ks), s1)" "r_look R s1 = r_look R s"
      "\<forall>k \<in> set ks. has (r_look R s) k \<and> prefix p k"
      by (rule redis_scan [OF G p])
    have "I a s1" using look [OF Suc.prems(3) sc(2)] .
    moreover have "\<forall>k \<in> set ks. has (r_look R s1) k \<and> prefix p k" using sc(2,3) by simp
    ultimately obtain a' s2 where b: "body ks a s1 = (Ok a', s2)" "I a' s2"
      "set ks \<subseteq> dealt a'" "dealt a \<subseteq> dealt a'" using step by blast
    have now: "has (r_look R s) k" if "k \<notin> dealt a'" "has start k" for k
      using frame [OF Suc.prems(3) _ that(2)] that(1) b(4) by blast
    have pre: "\<forall>t \<in> set (ss @ [s]). \<forall>k. k \<notin> dealt a' \<longrightarrow> has start k \<longrightarrow> has (r_look R t) k"
    proof (intro ballI allI impI)
      fix t k assume "t \<in> set (ss @ [s])" "k \<notin> dealt a'" "has start k"
      then show "has (r_look R t) k" using now Suc.prems(4) b(4) by (cases "t = s") auto
    qed
    have keys: "scan_keys R (p @ ''*'') 0 (ss @ [s]) \<subseteq> dealt a'"
      using scan_keys_snoc [OF Suc.prems(1), of s n ks] sc(1) Suc.prems(2) b(3,4) by auto
    show ?case
    proof (cases "n = 0")
      case True
      have "k \<in> dealt a'" if k: "has start k" "prefix p k" for k
      proof (rule ccontr)
        assume nd: "k \<notin> dealt a'"
        with pre k(1) have "\<forall>t \<in> set (ss @ [s]). has (r_look R t) k" by blast
        from scan_completeD [OF G p k(2) Suc.prems(1) sc(1) [unfolded True] this] Suc.prems(2) b(3,4) nd
        show False by blast
      qed
      then have "{k. has start k \<and> prefix p k} \<subseteq> dealt a'" by blast
      with True sc(1) b(1,2) show ?thesis by (simp add: bind_a_Ok)
    next
      case False
      have "scan_to R (p @ ''*'') 0 (ss @ [s]) n"
        using scan_to_snoc [OF Suc.prems(1)] sc(1) False by simp
      from Suc.IH [OF this keys b(2) pre] Suc.prems(5) False sc(1) b(1) show ?thesis
        by (simp add: bind_a_Ok)
    qed
  qed
  from this [of "[]" 0 acc0 s0 fuel] init fuel show ?thesis by simp
qed

section \<open>A server in memory\<close>

text \<open>
  An executable server that satisfies the laws: an association list of keys; SCAN takes two
  calls, the keys of even length first.
\<close>

type_synonym mem = "(string \<times> (bytes \<times> nat option)) list"

definition mem_redis :: "mem redis" where
  "mem_redis = \<lparr>
     r_exists = (\<lambda>k s. (Ok (map_of s k \<noteq> None), s)),
     r_set_ex = (\<lambda>k v t s. if t = 0 then (Err ''invalid expire time'', s) else (Ok (), AList.update k (v, Some t) s)),
     r_set = (\<lambda>k v s. (Ok (), AList.update k (v, None) s)),
     r_get = (\<lambda>k s. (Ok (map_option fst (map_of s k)), s)),
     r_del = (\<lambda>ks s. (Ok (card (fst ` set s \<inter> set ks)), filter (\<lambda>x. fst x \<notin> set ks) s)),
     r_expire = (\<lambda>k t s. (Ok (map_of s k \<noteq> None),
        case map_of s k of None \<Rightarrow> s | Some (v, _) \<Rightarrow> AList.update k (v, Some t) s)),
     r_ttl = (\<lambda>k s. (Ok (ttl_of (map_of s) k), s)),
     r_scan = (\<lambda>c pat s. let keys = filter (prefix (butlast pat)) (map fst s) in
        if c = 0 then (Ok (1, filter (\<lambda>k. even (length k)) keys), s)
        else (Ok (0, filter (\<lambda>k. odd (length k)) keys), s)),
     r_look = map_of\<rparr>"

lemma map_of_filter_keys: "map_of (filter (\<lambda>x. fst x \<notin> A) s) = (map_of s) |` (- A)"
  by (induction s) (auto simp: restrict_map_def fun_eq_iff)

lemma mem_scan_to: "scan_to mem_redis pat c ss d \<Longrightarrow> (ss = [] \<and> c = d) \<or> (\<exists>s. ss = [s] \<and> c = 0 \<and> d = 1)"
  by (cases "(mem_redis, pat, c, ss, d)" rule: scan_to.cases)
    (auto simp: mem_redis_def Let_def split: if_splits elim: scan_to.elims)

lemma mem_redis_good [simp]: "redis_good 2 mem_redis"
proof -
  have "commands_ok mem_redis"
    by (auto simp: commands_ok_def mem_redis_def performs_def has_def set_ttl_def update_conv' map_of_filter_keys
        dom_map_of_conv_image_fst split: option.splits)
  moreover have "scan_page_ok mem_redis"
    by (auto simp: scan_page_ok_def mem_redis_def Let_def has_def map_of_eq_None_iff)
  moreover have "scan_complete mem_redis"
    unfolding scan_complete_def
  proof (intro allI impI)
    fix p c k ks and s :: mem and ss
    assume k: "prefix p k" and to: "scan_to mem_redis (p @ ''*'') 0 ss c"
      and last: "fst (r_scan mem_redis c (p @ ''*'') s) = Ok (0, ks)"
      and there: "\<forall>t \<in> set (ss @ [s]). has (r_look mem_redis t) k"
    from there have in_t: "k \<in> fst ` set t" if "t \<in> set (ss @ [s])" for t
    proof -
      from bspec [OF there that] have "map_of t k \<noteq> None" by (simp add: mem_redis_def has_def)
      then show ?thesis by (simp add: map_of_eq_None_iff)
    qed
    from last have "c \<noteq> 0" by (auto simp: mem_redis_def Let_def split: if_splits)
    with mem_scan_to [OF to] obtain t where "ss = [t]" by auto
    with in_t [of t] in_t [of s] k last \<open>c \<noteq> 0\<close>
    show "k \<in> scan_keys mem_redis (p @ ''*'') 0 ss \<union> set ks"
      by (cases "even (length k)") (simp_all add: mem_redis_def Let_def, force)
  qed
  moreover have "redis_up mem_redis" by (simp add: redis_up_def mem_redis_def Let_def)
  moreover have "scan_terminates mem_redis 2"
    unfolding scan_terminates_def using mem_scan_to by fastforce
  ultimately show ?thesis by (simp add: redis_good_def redis_laws_def)
qed

end
