(* ===== verification/Device_Boxes.thy ===== *)
theory Device_Boxes
  imports Redis_Service Crypto_Primitives
begin

text \<open>
  crates/hysj-messaging: queue.rs (messages waiting for an offline device) and wipe.rs (wipe
  commands waiting for acknowledgement). Both keep, per device, a box of named items in Redis
  under keys \<open>kind:device:item\<close>. The contract they share is the locale \<open>device_box\<close>; the message
  queue can also be drained, locale \<open>mailbox\<close>. Both are interpreted on the operations below, over
  any server that meets the laws of Redis_Service.
\<close>

section \<open>lib.rs\<close>

datatype messaging_error =
    RedisError string
  | MsgSerializationError string
  | MsgNotFound

fun messaging_error_str :: "messaging_error \<Rightarrow> string" where
  "messaging_error_str (RedisError e) = ''Redis error: '' @ e"
| "messaging_error_str (MsgSerializationError e) = ''Serialization error: '' @ e"
| "messaging_error_str MsgNotFound = ''Not found''"

type_synonym ('s, 'a) messaging = "('s, messaging_error, 'a) act"

text \<open>\<open>?\<close> on a Redis call.\<close>

definition cmd :: "('s, string, 'a) act \<Rightarrow> ('s, 'a) messaging" where
  "cmd m = map_err_a RedisError m"

lemma cmd_Ok [simp]: "m s = (Ok x, s') \<Longrightarrow> cmd m s = (Ok x, s')"
  by (simp add: cmd_def map_err_a_def)

text \<open>The canonical text of a \<open>Uuid\<close>: 36 characters, hexadecimal digits and dashes.\<close>

definition uuid_text :: "uuid \<Rightarrow> bool" where
  "uuid_text d \<longleftrightarrow> length d = 36 \<and> set d \<subseteq> set ''0123456789abcdef-''"

section \<open>The contracts\<close>

locale device_box =
  fixes ready :: "'r \<Rightarrow> bool"
    and box :: "'r \<Rightarrow> 's \<Rightarrow> uuid \<Rightarrow> string \<Rightarrow> bytes option"
    and put :: "'r \<Rightarrow> uuid \<Rightarrow> string \<Rightarrow> bytes \<Rightarrow> nat \<Rightarrow> ('s, unit) messaging"
    and remove :: "'r \<Rightarrow> uuid \<Rightarrow> string \<Rightarrow> ('s, bool) messaging"
  assumes put: "ready r \<Longrightarrow> uuid_text d \<Longrightarrow> 0 < ttl \<Longrightarrow> \<exists>s'. put r d i b ttl s = (Ok (), s') \<and>
      dom (box r s' d) = insert i (dom (box r s d)) \<and>
      (box r s d i = None \<longrightarrow> box r s' d = (box r s d)(i \<mapsto> b)) \<and>
      (\<forall>j. j \<noteq> i \<longrightarrow> box r s' d j = box r s d j) \<and>
      (\<forall>d'. uuid_text d' \<longrightarrow> d' \<noteq> d \<longrightarrow> box r s' d' = box r s d')"
    and remove: "ready r \<Longrightarrow> uuid_text d \<Longrightarrow> \<exists>s'. remove r d i s = (Ok (box r s d i \<noteq> None), s') \<and>
      box r s' d = (box r s d)(i := None) \<and>
      (\<forall>d'. uuid_text d' \<longrightarrow> d' \<noteq> d \<longrightarrow> box r s' d' = box r s d')"
begin

lemma put_then_remove:
  assumes "ready r" and "uuid_text d" and "0 < ttl" and "put r d i b ttl s = (x, s1)"
  shows "\<exists>s2. remove r d i s1 = (Ok True, s2) \<and> box r s2 d i = None \<and>
    (\<forall>j. j \<noteq> i \<longrightarrow> box r s2 d j = box r s d j)"
proof -
  from put [OF assms(1-3), of i b s] assms(4)
  have p: "dom (box r s1 d) = insert i (dom (box r s d))" "\<forall>j. j \<noteq> i \<longrightarrow> box r s1 d j = box r s d j"
    by auto
  then have "box r s1 d i \<noteq> None" by blast
  with remove [OF assms(1,2), of i s1] p(2) show ?thesis by auto
qed

lemma remove_twice:
  assumes "ready r" and "uuid_text d" and "remove r d i s = (x, s1)"
  shows "fst (remove r d i s1) = Ok False"
  using remove [OF assms(1,2), of i s] remove [OF assms(1,2), of i s1] assms(3) by auto

end

locale mailbox = device_box ready box put remove
  for ready :: "'r \<Rightarrow> bool"
    and box :: "'r \<Rightarrow> 's \<Rightarrow> uuid \<Rightarrow> string \<Rightarrow> bytes option"
    and put :: "'r \<Rightarrow> uuid \<Rightarrow> string \<Rightarrow> bytes \<Rightarrow> nat \<Rightarrow> ('s, unit) messaging"
    and remove :: "'r \<Rightarrow> uuid \<Rightarrow> string \<Rightarrow> ('s, bool) messaging" +
  fixes drain :: "'r \<Rightarrow> uuid \<Rightarrow> ('s, (string \<times> bytes) list) messaging"
  assumes drain: "ready r \<Longrightarrow> uuid_text d \<Longrightarrow> \<exists>items s'. drain r d s = (Ok items, s') \<and>
      distinct (map fst items) \<and> map_of items = box r s d \<and> box r s' d = (\<lambda>_. None) \<and>
      (\<forall>d'. uuid_text d' \<longrightarrow> d' \<noteq> d \<longrightarrow> box r s' d' = box r s d')"
begin

text \<open>A sequence of puts for one device, whatever their results.\<close>

primrec puts :: "'r \<Rightarrow> uuid \<Rightarrow> (string \<times> bytes \<times> nat) list \<Rightarrow> 's \<Rightarrow> 's" where
  "puts r d [] s = s"
| "puts r d (m # ms) s = puts r d ms (snd (put r d (fst m) (fst (snd m)) (snd (snd m)) s))"

lemma puts_box:
  assumes "ready r" and "uuid_text d" and "\<forall>m \<in> set ms. 0 < snd (snd m)" and "distinct (map fst ms)"
    and "\<forall>m \<in> set ms. box r s d (fst m) = None"
  shows "box r (puts r d ms s) d = box r s d ++ map_of (map (\<lambda>(i, b, t). (i, b)) ms) \<and>
    (\<forall>d'. uuid_text d' \<longrightarrow> d' \<noteq> d \<longrightarrow> box r (puts r d ms s) d' = box r s d')"
  using assms(3-5)
proof (induction ms arbitrary: s)
  case (Cons m ms)
  obtain i b t where m: "m = (i, b, t)" by (cases m)
  from put [OF assms(1,2), of t i b s] Cons.prems m obtain s1 where
    s1: "put r d i b t s = (Ok (), s1)" "box r s1 d = (box r s d)(i \<mapsto> b)"
      "\<forall>d'. uuid_text d' \<longrightarrow> d' \<noteq> d \<longrightarrow> box r s1 d' = box r s d'" by auto
  have "\<forall>m \<in> set ms. box r s1 d (fst m) = None"
  proof
    fix m' assume "m' \<in> set ms"
    with Cons.prems(2,3) m have "fst m' \<noteq> i" "box r s d (fst m') = None" by force+
    then show "box r s1 d (fst m') = None" by (simp add: s1(2))
  qed
  with Cons.IH [of s1] Cons.prems m have
    ih: "box r (puts r d ms s1) d = box r s1 d ++ map_of (map (\<lambda>(i, b, t). (i, b)) ms)"
      "\<forall>d'. uuid_text d' \<longrightarrow> d' \<noteq> d \<longrightarrow> box r (puts r d ms s1) d' = box r s1 d'" by auto
  have "i \<notin> dom (map_of (map (\<lambda>(i, b, t). (i, b)) ms))"
    using Cons.prems(2) m by (simp add: dom_map_of_conv_image_fst image_image case_prod_beta)
  then have "(box r s d)(i \<mapsto> b) ++ map_of (map (\<lambda>(i, b, t). (i, b)) ms) =
      box r s d ++ (map_of (map (\<lambda>(i, b, t). (i, b)) ms))(i \<mapsto> b)"
    by (simp add: map_add_upd_left)
  moreover have "map_of (map (\<lambda>(i, b, t). (i, b)) (m # ms)) = (map_of (map (\<lambda>(i, b, t). (i, b)) ms))(i \<mapsto> b)"
    by (simp add: m fun_upd_def)
  moreover have "puts r d (m # ms) s = puts r d ms s1" by (simp add: m s1(1))
  moreover have "\<forall>d'. uuid_text d' \<longrightarrow> d' \<noteq> d \<longrightarrow> box r (puts r d ms s1) d' = box r s d'"
    using ih(2) s1(3) by simp
  ultimately show ?case using ih(1) s1(2) by (simp only: simp_thms)
qed simp

lemma store_and_forward:
  assumes "ready r" and "uuid_text d" and "\<forall>m \<in> set ms. 0 < snd (snd m)" and "distinct (map fst ms)"
    and "box r s d = (\<lambda>_. None)"
  shows "\<exists>items s'. drain r d (puts r d ms s) = (Ok items, s') \<and> distinct (map fst items) \<and>
    set items = set (map (\<lambda>(i, b, t). (i, b)) ms) \<and> fst (drain r d s') = Ok []"
proof -
  have b: "box r (puts r d ms s) d = map_of (map (\<lambda>(i, b, t). (i, b)) ms)"
    using puts_box [OF assms(1-4), of s] by (simp add: assms(5))
  from drain [OF assms(1,2), of "puts r d ms s"] obtain items s' where
    dr: "drain r d (puts r d ms s) = (Ok items, s')" "distinct (map fst items)"
      "map_of items = map_of (map (\<lambda>(i, b, t). (i, b)) ms)" "box r s' d = (\<lambda>_. None)"
    unfolding b by blast
  have "distinct (map fst (map (\<lambda>(i, b, t). (i, b)) ms))"
    using assms(4) by (simp add: o_def case_prod_beta)
  with dr(2,3) have "set items = set (map (\<lambda>(i, b, t). (i, b)) ms)"
    by (metis map_of_inject_set)
  moreover from drain [OF assms(1,2), of s'] dr(4) have "fst (drain r d s') = Ok []"
    by (fastforce simp: map_of_eq_empty_iff)
  ultimately show ?thesis using dr(1,2) by blast
qed

end

section \<open>Keys\<close>

definition item_prefix :: "string \<Rightarrow> uuid \<Rightarrow> string" where
  "item_prefix kind d = kind @ '':'' @ d @ '':''"

definition msg_key :: "uuid \<Rightarrow> string \<Rightarrow> string" where
  "msg_key device_id message_id = ''msg:'' @ device_id @ '':'' @ message_id"

definition wipe_key :: "uuid \<Rightarrow> string \<Rightarrow> string" where
  "wipe_key device_id wipe_id = ''wipe:'' @ device_id @ '':'' @ wipe_id"

lemma item_keys:
  "msg_key d i = item_prefix ''msg'' d @ i" "wipe_key d i = item_prefix ''wipe'' d @ i"
  by (simp_all add: msg_key_def wipe_key_def item_prefix_def)

lemma item_key_inj:
  assumes "uuid_text d" and "uuid_text d'"
  shows "item_prefix kind d @ i = item_prefix kind d' @ i' \<longleftrightarrow> d = d' \<and> i = i'"
  using assms by (auto simp: item_prefix_def uuid_text_def)

lemma item_prefix_plain:
  assumes "uuid_text d" and "plain kind"
  shows "plain (item_prefix kind d)"
proof -
  have "set d \<inter> (set ''*?[]^'' \<union> {CHR 0x5C}) = {}"
    using assms(1) unfolding uuid_text_def by auto
  with assms(2) show ?thesis by (auto simp: plain_def item_prefix_def)
qed

lemma plain_kinds: "plain ''msg''" "plain ''wipe''"
  by (simp_all add: plain_def)

text \<open>The items of a device in the keyspace.\<close>

definition items_of :: "string \<Rightarrow> keyspace \<Rightarrow> uuid \<Rightarrow> string \<Rightarrow> bytes option" where
  "items_of kind L d i = map_option fst (L (item_prefix kind d @ i))"

lemma items_upd:
  assumes "uuid_text d" and "uuid_text d'"
  shows "items_of kind (L(item_prefix kind d @ i \<mapsto> (b, t))) d' =
    (if d' = d then (items_of kind L d)(i \<mapsto> b) else items_of kind L d')"
  using assms by (auto simp: items_of_def item_key_inj fun_eq_iff)

lemma items_del:
  assumes "uuid_text d" and "uuid_text d'"
  shows "items_of kind (L |` (- {item_prefix kind d @ i})) d' =
    (if d' = d then (items_of kind L d)(i := None) else items_of kind L d')"
  using assms by (auto simp: items_of_def item_key_inj fun_eq_iff restrict_map_def)

section \<open>queue.rs\<close>

record queued_message =
  qm_message_id :: string
  qm_encrypted_blob :: bytes

definition enqueue :: "'s redis \<Rightarrow> uuid \<Rightarrow> string \<Rightarrow> bytes \<Rightarrow> nat \<Rightarrow> ('s, unit) messaging" where
  "enqueue R recipient_device_id message_id encrypted_blob ttl_seconds =
     (let key = msg_key recipient_device_id message_id in
      bind_a (cmd (r_exists R key)) (\<lambda>exists.
      if exists then ret ()
      else cmd (r_set_ex R key encrypted_blob ttl_seconds)))"

definition strip_prefix :: "string \<Rightarrow> string \<Rightarrow> string" where
  "strip_prefix p key = (if prefix p key then drop (length p) key else key)"

fun dequeue_page ::
    "'s redis \<Rightarrow> string \<Rightarrow> string list \<Rightarrow> queued_message list \<Rightarrow> ('s, string, queued_message list) act" where
  "dequeue_page R pre [] messages = ret messages"
| "dequeue_page R pre (key # keys) messages =
     bind_a (r_get R key) (\<lambda>blob.
     case blob of
       None \<Rightarrow> dequeue_page R pre keys messages
     | Some data \<Rightarrow>
         bind_a (r_del R [key]) (\<lambda>_.
         dequeue_page R pre keys
           (messages @ [\<lparr>qm_message_id = strip_prefix pre key, qm_encrypted_blob = data\<rparr>])))"

definition dequeue_all :: "nat \<Rightarrow> 's redis \<Rightarrow> uuid \<Rightarrow> ('s, queued_message list option) messaging" where
  "dequeue_all fuel R device_id =
     (let pattern = ''msg:'' @ device_id @ '':*'';
          pre = ''msg:'' @ device_id @ '':'' in
      cmd (scan_loop fuel R pattern (dequeue_page R pre) 0 []))"

definition delete_message :: "'s redis \<Rightarrow> uuid \<Rightarrow> string \<Rightarrow> ('s, bool) messaging" where
  "delete_message R device_id message_id =
     bind_a (cmd (r_del R [msg_key device_id message_id])) (\<lambda>deleted. ret (deleted > 0))"

definition count_pending :: "nat \<Rightarrow> 's redis \<Rightarrow> uuid \<Rightarrow> ('s, nat option) messaging" where
  "count_pending fuel R device_id =
     cmd (scan_loop fuel R (''msg:'' @ device_id @ '':*'') (\<lambda>keys count. ret (count + length keys)) 0 0)"

section \<open>wipe.rs\<close>

datatype wipe_type = WipeAll | WipeDevice | WipeConversation

record wipe_request =
  wr_wipe_type :: wipe_type
  wr_target_device_id :: "uuid option"
  wr_conversation_partner_id :: "uuid option"

record pending_wipe =
  pw_wipe_id :: string
  pw_command :: wipe_request
  pw_issued_at :: int

definition WIPE_TTL_SECONDS :: nat where
  "WIPE_TTL_SECONDS = 30 * 24 * 60 * 60"

text \<open>The body of the loop of \<open>issue_wipe\<close>: one device.\<close>

definition store_wipe :: "'s redis \<Rightarrow> uuid \<Rightarrow> string \<Rightarrow> bytes \<Rightarrow> nat \<Rightarrow> ('s, unit) messaging" where
  "store_wipe R device_id wipe_id serialized ttl = cmd (r_set_ex R (wipe_key device_id wipe_id) serialized ttl)"

definition issue_wipe ::
    "'s redis \<Rightarrow> pending_wipe codec \<Rightarrow> string \<Rightarrow> int \<Rightarrow> uuid list \<Rightarrow> wipe_request \<Rightarrow> ('s, string) messaging" where
  "issue_wipe R J new_id now target_device_ids wipe_command =
     (let wipe_id = new_id;
          pending = \<lparr>pw_wipe_id = wipe_id, pw_command = wipe_command, pw_issued_at = now\<rparr> in
      bind_a (lift_o (of_sum MsgSerializationError (to_json J pending))) (\<lambda>serialized.
      bind_a (for_a target_device_ids (\<lambda>device_id. store_wipe R device_id wipe_id serialized WIPE_TTL_SECONDS)) (\<lambda>_.
      ret wipe_id)))"

fun wipes_page ::
    "'s redis \<Rightarrow> pending_wipe codec \<Rightarrow> string list \<Rightarrow> pending_wipe list \<Rightarrow> ('s, string, pending_wipe list) act" where
  "wipes_page R J [] wipes = ret wipes"
| "wipes_page R J (key # keys) wipes =
     bind_a (r_get R key) (\<lambda>data.
     case data of
       None \<Rightarrow> wipes_page R J keys wipes
     | Some bs \<Rightarrow>
         (case from_json J bs of
            Inr wipe \<Rightarrow> wipes_page R J keys (wipes @ [wipe])
          | Inl e \<Rightarrow> wipes_page R J keys wipes))"

definition get_pending_wipes ::
    "nat \<Rightarrow> 's redis \<Rightarrow> pending_wipe codec \<Rightarrow> uuid \<Rightarrow> ('s, pending_wipe list option) messaging" where
  "get_pending_wipes fuel R J device_id =
     cmd (scan_loop fuel R (''wipe:'' @ device_id @ '':*'') (wipes_page R J) 0 [])"

definition confirm_wipe :: "'s redis \<Rightarrow> uuid \<Rightarrow> string \<Rightarrow> ('s, bool) messaging" where
  "confirm_wipe R device_id wipe_id =
     bind_a (cmd (r_del R [wipe_key device_id wipe_id])) (\<lambda>deleted. ret (deleted > 0))"

section \<open>Storing and removing items\<close>

definition msg_box :: "nat \<times> 's redis \<Rightarrow> 's \<Rightarrow> uuid \<Rightarrow> string \<Rightarrow> bytes option" where
  "msg_box r s d = items_of ''msg'' (r_look (snd r) s) d"

definition wipe_box :: "nat \<times> 's redis \<Rightarrow> 's \<Rightarrow> uuid \<Rightarrow> string \<Rightarrow> bytes option" where
  "wipe_box r s d = items_of ''wipe'' (r_look (snd r) s) d"

text \<open>A server in use: with its bound on SCAN calls, which is the fuel the loops run with.\<close>

definition ready :: "nat \<times> 's redis \<Rightarrow> bool" where
  "ready r \<longleftrightarrow> redis_good (fst r) (snd r)"

lemma enqueue_run:
  assumes G: "redis_good N R" and t: "0 < ttl"
  shows "\<exists>s'. enqueue R d i b ttl s = (Ok (), s') \<and>
    r_look R s' = (if has (r_look R s) (msg_key d i) then r_look R s
                   else (r_look R s)(msg_key d i \<mapsto> (b, Some ttl)))"
proof -
  let ?k = "msg_key d i"
  obtain s1 where e: "r_exists R ?k s = (Ok (has (r_look R s) ?k), s1)" "r_look R s1 = r_look R s"
    by (rule redis_exists [OF G])
  obtain s2 where w: "r_set_ex R ?k b ttl s1 = (Ok (), s2)" "r_look R s2 = (r_look R s1)(?k \<mapsto> (b, Some ttl))"
    by (rule redis_set [OF G t])
  show ?thesis using e w by (simp add: enqueue_def Let_def bind_a_Ok)
qed

lemma remove_run:
  assumes G: "redis_good N R"
  shows "\<exists>s'. bind_a (cmd (r_del R [k])) (\<lambda>deleted. ret (deleted > 0)) s = (Ok (has (r_look R s) k), s') \<and>
    r_look R s' = (r_look R s) |` (- {k})"
proof -
  obtain s1 where d: "r_del R [k] s = (Ok (card (dom (r_look R s) \<inter> set [k])), s1)"
    "r_look R s1 = (r_look R s) |` (- set [k])"
    by (rule redis_del [OF G])
  have "card (dom (r_look R s) \<inter> {k}) > 0 \<longleftrightarrow> has (r_look R s) k"
    by (auto simp: card_gt_0_iff has_def)
  with d show ?thesis by (simp add: bind_a_Ok)
qed

lemma has_items: "has L (item_prefix kind d @ i) \<longleftrightarrow> items_of kind L d i \<noteq> None"
  by (simp add: has_def items_of_def)

text \<open>
  The laws of \<open>put\<close> and \<open>remove\<close> follow from what the call does to the one key of the item.
\<close>

lemma put_laws:
  assumes "uuid_text d"
    and "r_look R s' = (if keep \<and> has (r_look R s) (item_prefix kind d @ i) then r_look R s
                        else (r_look R s)(item_prefix kind d @ i \<mapsto> (b, t)))"
  shows "dom (items_of kind (r_look R s') d) = insert i (dom (items_of kind (r_look R s) d))"
    and "items_of kind (r_look R s) d i = None \<Longrightarrow>
      items_of kind (r_look R s') d = (items_of kind (r_look R s) d)(i \<mapsto> b)"
    and "j \<noteq> i \<Longrightarrow> items_of kind (r_look R s') d j = items_of kind (r_look R s) d j"
    and "uuid_text d' \<Longrightarrow> d' \<noteq> d \<Longrightarrow> items_of kind (r_look R s') d' = items_of kind (r_look R s) d'"
  using assms by (auto simp: items_upd has_items split: if_splits)

lemma remove_laws:
  assumes "uuid_text d" and "r_look R s' = (r_look R s) |` (- {item_prefix kind d @ i})"
  shows "items_of kind (r_look R s') d = (items_of kind (r_look R s) d)(i := None)"
    and "uuid_text d' \<Longrightarrow> d' \<noteq> d \<Longrightarrow> items_of kind (r_look R s') d' = items_of kind (r_look R s) d'"
  using assms by (simp_all add: items_del)

interpretation wipes: device_box ready wipe_box "\<lambda>r d i b t. store_wipe (snd r) d i b t"
  "\<lambda>r d i. confirm_wipe (snd r) d i"
proof unfold_locales
  fix r :: "nat \<times> 's redis" and d i b and ttl :: nat and s
  assume R: "ready r" and d: "uuid_text d" and t: "0 < ttl"
  then have G: "redis_good (fst r) (snd r)" by (simp add: ready_def)
  obtain s' where s': "r_set_ex (snd r) (wipe_key d i) b ttl s = (Ok (), s')"
    "r_look (snd r) s' = (r_look (snd r) s)(wipe_key d i \<mapsto> (b, Some ttl))"
    by (rule redis_set [OF G t])
  have l: "r_look (snd r) s' = (if False \<and> has (r_look (snd r) s) (item_prefix ''wipe'' d @ i) then r_look (snd r) s
      else (r_look (snd r) s)(item_prefix ''wipe'' d @ i \<mapsto> (b, Some ttl)))"
    using s'(2) by (simp add: item_keys)
  show "\<exists>s'. store_wipe (snd r) d i b ttl s = (Ok (), s') \<and>
      dom (wipe_box r s' d) = insert i (dom (wipe_box r s d)) \<and>
      (wipe_box r s d i = None \<longrightarrow> wipe_box r s' d = (wipe_box r s d)(i \<mapsto> b)) \<and>
      (\<forall>j. j \<noteq> i \<longrightarrow> wipe_box r s' d j = wipe_box r s d j) \<and>
      (\<forall>d'. uuid_text d' \<longrightarrow> d' \<noteq> d \<longrightarrow> wipe_box r s' d' = wipe_box r s d')"
    using s'(1) put_laws [OF d l] unfolding wipe_box_def by (simp add: store_wipe_def)
next
  fix r :: "nat \<times> 's redis" and d i s
  assume R: "ready r" and d: "uuid_text d"
  then have G: "redis_good (fst r) (snd r)" by (simp add: ready_def)
  from remove_run [OF G, of "wipe_key d i" s] obtain s' where
    s': "confirm_wipe (snd r) d i s = (Ok (has (r_look (snd r) s) (wipe_key d i)), s')"
    "r_look (snd r) s' = (r_look (snd r) s) |` (- {item_prefix ''wipe'' d @ i})"
    by (auto simp: confirm_wipe_def item_keys)
  show "\<exists>s'. confirm_wipe (snd r) d i s = (Ok (wipe_box r s d i \<noteq> None), s') \<and>
      wipe_box r s' d = (wipe_box r s d)(i := None) \<and>
      (\<forall>d'. uuid_text d' \<longrightarrow> d' \<noteq> d \<longrightarrow> wipe_box r s' d' = wipe_box r s d')"
    using s'(1) remove_laws [OF d s'(2)] unfolding wipe_box_def by (simp add: item_keys has_items)
qed

section \<open>Draining the queue\<close>

text \<open>What has been dequeued so far is what the queue held, and is gone from it.\<close>

definition drained :: "'s redis \<Rightarrow> string \<Rightarrow> keyspace \<Rightarrow> queued_message list \<Rightarrow> 's \<Rightarrow> bool" where
  "drained R pre L0 ms s \<longleftrightarrow>
     distinct (map qm_message_id ms) \<and>
     (\<forall>m \<in> set ms. map_option fst (L0 (pre @ qm_message_id m)) = Some (qm_encrypted_blob m)) \<and>
     r_look R s = L0 |` (- (\<lambda>m. pre @ qm_message_id m) ` set ms)"

lemma dequeue_page_drains:
  assumes G: "redis_good N R" and I: "drained R pre L0 ms s"
    and keys: "\<forall>k \<in> set keys. has L0 k \<and> prefix pre k"
  shows "\<exists>ms' s'. dequeue_page R pre keys ms s = (Ok ms', s') \<and> drained R pre L0 ms' s' \<and>
    set keys \<subseteq> (\<lambda>m. pre @ qm_message_id m) ` set ms' \<and> set ms \<subseteq> set ms'"
  using I keys
proof (induction keys arbitrary: ms s)
  case (Cons k keys)
  obtain i where k: "k = pre @ i" using Cons.prems(2) by (auto simp: prefix_def)
  obtain s1 where g: "r_get R k s = (Ok (map_option fst (r_look R s k)), s1)" "r_look R s1 = r_look R s"
    by (rule redis_get [OF G])
  show ?case
  proof (cases "r_look R s k")
    case None
    with Cons.prems have in_ms: "k \<in> (\<lambda>m. pre @ qm_message_id m) ` set ms"
      by (auto simp: drained_def restrict_map_def has_def split: if_splits)
    have "drained R pre L0 ms s1" using Cons.prems(1) g(2) by (simp add: drained_def)
    from Cons.IH [OF this] Cons.prems(2) obtain ms' s' where
      "dequeue_page R pre keys ms s1 = (Ok ms', s')" "drained R pre L0 ms' s'"
      "set keys \<subseteq> (\<lambda>m. pre @ qm_message_id m) ` set ms'" "set ms \<subseteq> set ms'" by auto
    moreover from in_ms this(4) have "k \<in> (\<lambda>m. pre @ qm_message_id m) ` set ms'" by blast
    ultimately show ?thesis using None g(1) by (simp add: bind_a_Ok)
  next
    case (Some v)
    obtain b t where v: "v = (b, t)" by (cases v)
    let ?m = "\<lparr>qm_message_id = i, qm_encrypted_blob = b\<rparr>"
    have look0: "r_look R s = L0 |` (- (\<lambda>m. pre @ qm_message_id m) ` set ms)"
      using Cons.prems(1) by (simp add: drained_def)
    have L0: "L0 k = Some (b, t)" and new: "k \<notin> (\<lambda>m. pre @ qm_message_id m) ` set ms"
      using Some look0 by (auto simp: v restrict_map_def split: if_splits)
    obtain s2 where d: "r_del R [k] s1 = (Ok (card (dom (r_look R s1) \<inter> set [k])), s2)"
      "r_look R s2 = (r_look R s1) |` (- set [k])"
      by (rule redis_del [OF G])
    have strip: "strip_prefix pre k = i" by (simp add: strip_prefix_def k)
    have I2: "drained R pre L0 (ms @ [?m]) s2"
      using Cons.prems(1) new L0 d(2) g(2) look0
      by (auto simp: drained_def k image_iff fun_eq_iff restrict_map_def)
    from Cons.IH [OF I2] Cons.prems(2) obtain ms' s' where
      r: "dequeue_page R pre keys (ms @ [?m]) s2 = (Ok ms', s')" "drained R pre L0 ms' s'"
      "set keys \<subseteq> (\<lambda>m. pre @ qm_message_id m) ` set ms'" "set (ms @ [?m]) \<subseteq> set ms'" by auto
    from r(4) have "k \<in> (\<lambda>m. pre @ qm_message_id m) ` set ms'" by (force simp: k)
    with r Some v g(1) d(1) strip show ?thesis by (simp add: bind_a_Ok)
  qed
qed (auto simp: drained_def)

lemma dequeue_all_run:
  assumes G: "redis_good N R" and u: "uuid_text d" and f: "N \<le> fuel"
  shows "\<exists>ms s'. dequeue_all fuel R d s = (Ok (Some ms), s') \<and> distinct (map qm_message_id ms) \<and>
    (\<forall>i b. (\<exists>m \<in> set ms. qm_message_id m = i \<and> qm_encrypted_blob m = b) \<longleftrightarrow>
       items_of ''msg'' (r_look R s) d i = Some b) \<and>
    r_look R s' = r_look R s |` {k. \<not> prefix (item_prefix ''msg'' d) k}"
proof -
  let ?p = "item_prefix ''msg'' d" and ?L0 = "r_look R s"
  let ?dealt = "\<lambda>ms. (\<lambda>m. ?p @ qm_message_id m) ` set ms"
  have p: "plain ?p" using u plain_kinds by (simp add: item_prefix_plain)
  have "\<exists>ms s'. scan_loop fuel R (?p @ ''*'') (dequeue_page R ?p) 0 [] s = (Ok (Some ms), s') \<and>
      drained R ?p ?L0 ms s' \<and> {k. has ?L0 k \<and> prefix ?p k} \<subseteq> ?dealt ms"
  proof (rule scan_loop_all [OF G p _ _ _ _ f])
    fix keys ms t
    assume I: "drained R ?p ?L0 ms t" and k: "\<forall>k \<in> set keys. has (r_look R t) k \<and> prefix ?p k"
    then have "\<forall>k \<in> set keys. has ?L0 k \<and> prefix ?p k" by (auto simp: drained_def)
    from dequeue_page_drains [OF G I this] show "\<exists>acc' s'. dequeue_page R ?p keys ms t = (Ok acc', s') \<and>
        drained R ?p ?L0 acc' s' \<and> set keys \<subseteq> ?dealt acc' \<and> ?dealt ms \<subseteq> ?dealt acc'" by blast
  next
    fix ms t k assume "drained R ?p ?L0 ms t" "k \<notin> ?dealt ms" "has ?L0 k"
    then show "has (r_look R t) k" by (simp add: drained_def)
  qed (auto simp: drained_def)
  then obtain ms s' where run: "scan_loop fuel R (?p @ ''*'') (dequeue_page R ?p) 0 [] s = (Ok (Some ms), s')"
    and I: "drained R ?p ?L0 ms s'" and all: "{k. has ?L0 k \<and> prefix ?p k} \<subseteq> ?dealt ms" by blast
  have found: "items_of ''msg'' ?L0 d i = Some b \<Longrightarrow> \<exists>m \<in> set ms. qm_message_id m = i \<and> qm_encrypted_blob m = b" for i b
  proof -
    assume b: "items_of ''msg'' ?L0 d i = Some b"
    then have "?p @ i \<in> ?dealt ms" using all by (auto simp: has_items)
    then obtain m where m: "m \<in> set ms" "qm_message_id m = i" by auto
    from I m(1) have "map_option fst (?L0 (?p @ qm_message_id m)) = Some (qm_encrypted_blob m)"
      unfolding drained_def by blast
    with b m show ?thesis unfolding items_of_def by auto
  qed
  have dealt: "?dealt ms = {k. has ?L0 k \<and> prefix ?p k}"
    using I all by (force simp: drained_def has_def)
  have "r_look R s' = ?L0 |` {k. \<not> prefix ?p k}"
  proof
    fix k
    from I have "r_look R s' = ?L0 |` (- {k. has ?L0 k \<and> prefix ?p k})"
      unfolding drained_def dealt by blast
    then show "r_look R s' k = (?L0 |` {k. \<not> prefix ?p k}) k"
      by (cases "?L0 k") (auto simp: restrict_map_def has_def)
  qed
  with run I show ?thesis
    using found by (auto simp: dequeue_all_def Let_def item_prefix_def drained_def items_of_def)
qed

lemma prefix_other: "uuid_text d \<Longrightarrow> uuid_text d' \<Longrightarrow> d' \<noteq> d \<Longrightarrow> \<not> prefix (item_prefix kind d) (item_prefix kind d' @ i)"
  by (auto simp: prefix_def item_key_inj simp flip: append_assoc)

text \<open>\<open>drain\<close> as the client of the queue sees it, with the fuel that is enough.\<close>

definition drain_queue :: "nat \<times> 's redis \<Rightarrow> uuid \<Rightarrow> ('s, (string \<times> bytes) list) messaging" where
  "drain_queue r d = bind_a (dequeue_all (fst r) (snd r) d) (\<lambda>res. case res of
      Some ms \<Rightarrow> ret (map (\<lambda>m. (qm_message_id m, qm_encrypted_blob m)) ms)
    | None \<Rightarrow> throw MsgNotFound)"

lemma map_of_items:
  assumes "distinct (map qm_message_id ms)"
    and "\<forall>b. (\<exists>m \<in> set ms. qm_message_id m = i \<and> qm_encrypted_blob m = b) \<longleftrightarrow> f = Some b"
  shows "map_of (map (\<lambda>m. (qm_message_id m, qm_encrypted_blob m)) ms) i = f"
proof (cases "\<exists>m \<in> set ms. qm_message_id m = i")
  case True
  then obtain m where m: "m \<in> set ms" "qm_message_id m = i" by blast
  with assms(2) have "f = Some (qm_encrypted_blob m)" by blast
  moreover have "distinct (map fst (map (\<lambda>m. (qm_message_id m, qm_encrypted_blob m)) ms))"
    using assms(1) by (simp add: o_def)
  moreover have "(i, qm_encrypted_blob m) \<in> set (map (\<lambda>m. (qm_message_id m, qm_encrypted_blob m)) ms)"
    using m by auto
  ultimately show ?thesis by (simp del: set_map map_map)
next
  case False
  with assms(2) have "f = None" by (cases f) blast+
  moreover have "i \<notin> qm_message_id ` set ms" using False by blast
  ultimately show ?thesis by (simp add: map_of_eq_None_iff image_image)
qed

lemma drain_queue_run:
  fixes r :: "nat \<times> 's redis"
  assumes R: "ready r" and d: "uuid_text d"
  shows "\<exists>items s'. drain_queue r d s = (Ok items, s') \<and>
    distinct (map fst items) \<and> map_of items = msg_box r s d \<and> msg_box r s' d = (\<lambda>_. None) \<and>
    (\<forall>d'. uuid_text d' \<longrightarrow> d' \<noteq> d \<longrightarrow> msg_box r s' d' = msg_box r s d')"
proof -
  have G: "redis_good (fst r) (snd r)" using R by (simp add: ready_def)
  from dequeue_all_run [OF G d order_refl, of s] obtain ms s' where
    run: "dequeue_all (fst r) (snd r) d s = (Ok (Some ms), s')" and dist: "distinct (map qm_message_id ms)"
    and items0: "\<forall>i b. (\<exists>m \<in> set ms. qm_message_id m = i \<and> qm_encrypted_blob m = b) \<longleftrightarrow>
       items_of ''msg'' (r_look (snd r) s) d i = Some b"
    and look: "r_look (snd r) s' = r_look (snd r) s |` {k. \<not> prefix (item_prefix ''msg'' d) k}"
    by (elim exE conjE)
  let ?items = "map (\<lambda>m. (qm_message_id m, qm_encrypted_blob m)) ms"
  have di: "distinct (map fst ?items)" using dist by (simp add: o_def)
  have "map_of ?items i = msg_box r s d i" for i
    unfolding msg_box_def by (rule map_of_items [OF dist]) (rule spec [OF items0])
  moreover have "msg_box r s' d = (\<lambda>_. None)"
    by (simp add: msg_box_def items_of_def look fun_eq_iff)
  moreover have "msg_box r s' d' = msg_box r s d'" if "uuid_text d'" "d' \<noteq> d" for d'
    using prefix_other [OF d that] by (simp add: msg_box_def items_of_def look fun_eq_iff)
  moreover have "drain_queue r d s = (Ok ?items, s')"
    using run by (simp add: drain_queue_def bind_a_Ok)
  ultimately show ?thesis
    using di by (intro exI [of _ ?items] exI [of _ s'] conjI ext allI impI) simp_all
qed

interpretation queue: mailbox ready msg_box "\<lambda>r d i b t. enqueue (snd r) d i b t"
  "\<lambda>r d i. delete_message (snd r) d i" drain_queue
proof unfold_locales
  fix r :: "nat \<times> 's redis" and d i b and ttl :: nat and s
  assume R: "ready r" and d: "uuid_text d" and t: "0 < ttl"
  then have G: "redis_good (fst r) (snd r)" by (simp add: ready_def)
  from enqueue_run [OF G t, of d i b s] obtain s' where s': "enqueue (snd r) d i b ttl s = (Ok (), s')"
    and l: "r_look (snd r) s' = (if True \<and> has (r_look (snd r) s) (item_prefix ''msg'' d @ i) then r_look (snd r) s
      else (r_look (snd r) s)(item_prefix ''msg'' d @ i \<mapsto> (b, Some ttl)))"
    by (auto simp: item_keys)
  show "\<exists>s'. enqueue (snd r) d i b ttl s = (Ok (), s') \<and>
      dom (msg_box r s' d) = insert i (dom (msg_box r s d)) \<and>
      (msg_box r s d i = None \<longrightarrow> msg_box r s' d = (msg_box r s d)(i \<mapsto> b)) \<and>
      (\<forall>j. j \<noteq> i \<longrightarrow> msg_box r s' d j = msg_box r s d j) \<and>
      (\<forall>d'. uuid_text d' \<longrightarrow> d' \<noteq> d \<longrightarrow> msg_box r s' d' = msg_box r s d')"
    using s' put_laws [OF d l] unfolding msg_box_def by simp
next
  fix r :: "nat \<times> 's redis" and d i s
  assume R: "ready r" and d: "uuid_text d"
  then have G: "redis_good (fst r) (snd r)" by (simp add: ready_def)
  from remove_run [OF G, of "msg_key d i" s] obtain s' where
    s': "delete_message (snd r) d i s = (Ok (has (r_look (snd r) s) (msg_key d i)), s')"
    "r_look (snd r) s' = (r_look (snd r) s) |` (- {item_prefix ''msg'' d @ i})"
    by (auto simp: delete_message_def item_keys)
  show "\<exists>s'. delete_message (snd r) d i s = (Ok (msg_box r s d i \<noteq> None), s') \<and>
      msg_box r s' d = (msg_box r s d)(i := None) \<and>
      (\<forall>d'. uuid_text d' \<longrightarrow> d' \<noteq> d \<longrightarrow> msg_box r s' d' = msg_box r s d')"
    using s'(1) remove_laws [OF d s'(2)] unfolding msg_box_def by (simp add: item_keys has_items)
qed (rule drain_queue_run)

end
