(* ===== verification/Box_Properties.thy ===== *)
theory Box_Properties
  imports Device_Boxes Reference_Primitives
begin

text \<open>
  The properties of the message queue and the wipe store: what is enqueued for a device is
  dequeued exactly once, by that device only; wipe commands stay until they are acknowledged.
\<close>

section \<open>Pending wipes\<close>

definition parsed_at :: "keyspace \<Rightarrow> pending_wipe codec \<Rightarrow> string \<Rightarrow> pending_wipe set" where
  "parsed_at L J k = {w. \<exists>b t. L k = Some (b, t) \<and> from_json J b = Inr w}"

lemma wipes_page_run:
  assumes G: "redis_good N R"
  shows "\<exists>ws' s'. wipes_page R J keys ws s = (Ok ws', s') \<and> r_look R s' = r_look R s \<and>
    set ws' = set ws \<union> \<Union> (parsed_at (r_look R s) J ` set keys)"
proof (induction keys arbitrary: ws s)
  case (Cons k keys)
  obtain s1 where g: "r_get R k s = (Ok (map_option fst (r_look R s k)), s1)" "r_look R s1 = r_look R s"
    by (rule redis_get [OF G])
  define ws1 where "ws1 = (case r_look R s k of None \<Rightarrow> ws
    | Some v \<Rightarrow> (case from_json J (fst v) of Inl e \<Rightarrow> ws | Inr w \<Rightarrow> ws @ [w]))"
  have step: "wipes_page R J (k # keys) ws s = wipes_page R J keys ws1 s1"
    using g(1) by (simp add: bind_a_Ok ws1_def split: option.split sum.split)
  have "set ws1 = set ws \<union> parsed_at (r_look R s) J k"
    by (auto simp: ws1_def parsed_at_def split: option.splits sum.splits)
  with Cons.IH [of ws1 s1, unfolded g(2)] show ?case unfolding step by auto
qed simp

lemma get_pending_wipes_run:
  assumes G: "redis_good N R" and u: "uuid_text d" and f: "N \<le> fuel"
  shows "\<exists>ws s'. get_pending_wipes fuel R J d s = (Ok (Some ws), s') \<and> r_look R s' = r_look R s \<and>
    set ws = {w. \<exists>i b. items_of ''wipe'' (r_look R s) d i = Some b \<and> from_json J b = Inr w}"
proof -
  let ?p = "item_prefix ''wipe'' d" and ?L = "r_look R s"
  let ?dealt = "\<lambda>ws. {k. parsed_at ?L J k \<subseteq> set ws}"
  let ?I = "\<lambda>ws t. r_look R t = ?L \<and> set ws \<subseteq> \<Union> (parsed_at ?L J ` {k. prefix ?p k})"
  have p: "plain ?p" using u plain_kinds by (simp add: item_prefix_plain)
  have "\<exists>ws s'. scan_loop fuel R (?p @ ''*'') (wipes_page R J) 0 [] s = (Ok (Some ws), s') \<and> ?I ws s' \<and>
      {k. has ?L k \<and> prefix ?p k} \<subseteq> ?dealt ws"
  proof (rule scan_loop_all [where start = ?L, OF G p _ _ _ _ f])
    fix keys ws t
    assume I: "?I ws t" and k: "\<forall>k \<in> set keys. has (r_look R t) k \<and> prefix ?p k"
    from wipes_page_run [OF G, of J keys ws t] I obtain ws' s' where
      r: "wipes_page R J keys ws t = (Ok ws', s')" "r_look R s' = ?L"
        "set ws' = set ws \<union> \<Union> (parsed_at ?L J ` set keys)" by auto
    have "?I ws' s'" using r(2,3) I k by blast
    moreover have "set keys \<subseteq> ?dealt ws'" "?dealt ws \<subseteq> ?dealt ws'" using r(3) by blast+
    ultimately show "\<exists>acc' s'. wipes_page R J keys ws t = (Ok acc', s') \<and> ?I acc' s' \<and>
        set keys \<subseteq> ?dealt acc' \<and> ?dealt ws \<subseteq> ?dealt acc'" using r(1) by blast
  next
    fix ws t k assume "?I ws t" "has ?L k" then show "has (r_look R t) k" by simp
  qed simp_all
  then obtain ws s' where run: "scan_loop fuel R (?p @ ''*'') (wipes_page R J) 0 [] s = (Ok (Some ws), s')"
    and look: "r_look R s' = ?L" and sub: "set ws \<subseteq> \<Union> (parsed_at ?L J ` {k. prefix ?p k})"
    and all: "{k. has ?L k \<and> prefix ?p k} \<subseteq> ?dealt ws" by blast
  have "parsed_at ?L J k = {}" if "\<not> has ?L k" for k using that by (simp add: parsed_at_def has_def)
  with all have "\<Union> (parsed_at ?L J ` {k. prefix ?p k}) \<subseteq> set ws" by blast
  with sub have "set ws = \<Union> (parsed_at ?L J ` {k. prefix ?p k})" by blast
  also have "\<dots> = {w. \<exists>i b. items_of ''wipe'' ?L d i = Some b \<and> from_json J b = Inr w}"
    by (auto simp: parsed_at_def items_of_def prefix_def)
  finally have "set ws = {w. \<exists>i b. items_of ''wipe'' ?L d i = Some b \<and> from_json J b = Inr w}" .
  with run look show ?thesis by (simp add: get_pending_wipes_def item_prefix_def)
qed

lemma issue_loop_run:
  assumes G: "redis_good N R" and u: "\<forall>d \<in> set ds. uuid_text d"
  shows "\<exists>s'. for_a ds (\<lambda>d. store_wipe R d i b WIPE_TTL_SECONDS) s = (Ok (), s') \<and>
    (\<forall>d. uuid_text d \<longrightarrow> items_of ''wipe'' (r_look R s') d =
       (if d \<in> set ds then (items_of ''wipe'' (r_look R s) d)(i \<mapsto> b) else items_of ''wipe'' (r_look R s) d))"
  using u
proof (induction ds arbitrary: s)
  case (Cons d ds)
  have ttl: "0 < WIPE_TTL_SECONDS" by (simp add: WIPE_TTL_SECONDS_def)
  obtain s1 where s1: "r_set_ex R (wipe_key d i) b WIPE_TTL_SECONDS s = (Ok (), s1)"
    "r_look R s1 = (r_look R s)(wipe_key d i \<mapsto> (b, Some WIPE_TTL_SECONDS))"
    by (rule redis_set [OF G ttl])
  from Cons.IH [of s1] Cons.prems obtain s' where
    ih: "for_a ds (\<lambda>d. store_wipe R d i b WIPE_TTL_SECONDS) s1 = (Ok (), s')"
      "\<forall>e. uuid_text e \<longrightarrow> items_of ''wipe'' (r_look R s') e =
       (if e \<in> set ds then (items_of ''wipe'' (r_look R s1) e)(i \<mapsto> b) else items_of ''wipe'' (r_look R s1) e)" by auto
  have one: "items_of ''wipe'' (r_look R s1) e =
      (if e = d then (items_of ''wipe'' (r_look R s) d)(i \<mapsto> b) else items_of ''wipe'' (r_look R s) e)" if "uuid_text e" for e
    using items_upd [of d e "''wipe''"] Cons.prems that by (simp add: s1(2) item_keys)
  have "for_a (d # ds) (\<lambda>d. store_wipe R d i b WIPE_TTL_SECONDS) s = (Ok (), s')"
    using s1(1) ih(1) by (simp add: bind_a_Ok store_wipe_def)
  moreover have "items_of ''wipe'' (r_look R s') e =
      (if e \<in> set (d # ds) then (items_of ''wipe'' (r_look R s) e)(i \<mapsto> b) else items_of ''wipe'' (r_look R s) e)"
    if "uuid_text e" for e
    using ih(2) one [OF that] that by auto
  ultimately show ?case by blast
qed simp

section \<open>Properties\<close>

fun enqueue_many :: "'s redis \<Rightarrow> uuid \<Rightarrow> (string \<times> bytes \<times> nat) list \<Rightarrow> 's \<Rightarrow> 's" where
  "enqueue_many R d [] s = s"
| "enqueue_many R d ((i, b, ttl) # ms) s = enqueue_many R d ms (snd (enqueue R d i b ttl s))"

lemma enqueue_many_puts: "enqueue_many R d ms s = queue.puts (N, R) d ms s"
  by (induction ms arbitrary: s) auto

lemma drain_queue_Ok:
  "drain_queue (N, R) d s = (Ok items, s') \<longleftrightarrow>
     (\<exists>ms. dequeue_all N R d s = (Ok (Some ms), s') \<and> items = map (\<lambda>m. (qm_message_id m, qm_encrypted_blob m)) ms)"
  by (auto simp: drain_queue_def bind_a_split split: prod.splits outcome.splits option.splits)

text \<open>
  C11: Messages enqueued for an offline device under distinct ids are dequeued exactly once each
  with their content, in one call with fuel for the SCAN iteration; a second call finds nothing.
\<close>

theorem queue_store_and_forward:
  assumes "redis_good N R" and "uuid_text d" and "\<forall>m \<in> set ms. 0 < snd (snd m)" and "distinct (map fst ms)"
    and "\<forall>i. r_look R s (msg_key d i) = None"
  shows "\<exists>qs s' s''. dequeue_all N R d (enqueue_many R d ms s) = (Ok (Some qs), s') \<and>
    distinct (map qm_message_id qs) \<and>
    (\<lambda>q. (qm_message_id q, qm_encrypted_blob q)) ` set qs = (\<lambda>(i, b, t). (i, b)) ` set ms \<and>
    dequeue_all N R d s' = (Ok (Some []), s'')"
proof -
  have ready: "ready (N, R)" using assms(1) by (simp add: ready_def)
  have "msg_box (N, R) s d = (\<lambda>_. None)"
    using assms(5) by (auto simp: msg_box_def items_of_def item_keys)
  from queue.store_and_forward [OF ready assms(2-4) this] obtain items s' where
    d: "drain_queue (N, R) d (queue.puts (N, R) d ms s) = (Ok items, s')" "distinct (map fst items)"
      "set items = set (map (\<lambda>(i, b, t). (i, b)) ms)" "fst (drain_queue (N, R) d s') = Ok []" by blast
  from d(1) obtain qs where qs: "dequeue_all N R d (enqueue_many R d ms s) = (Ok (Some qs), s')"
    "items = map (\<lambda>m. (qm_message_id m, qm_encrypted_blob m)) qs"
    by (auto simp: drain_queue_Ok enqueue_many_puts [symmetric])
  from d(4) obtain s'' where "drain_queue (N, R) d s' = (Ok [], s'')" by (metis prod.collapse)
  then have "dequeue_all N R d s' = (Ok (Some []), s'')" by (auto simp: drain_queue_Ok)
  with qs d(2,3) show ?thesis by (auto simp: o_def)
qed

definition dev_a :: uuid where
  "dev_a = ''aaaaaaaa-0000-4000-8000-000000000001''"

definition dev_b :: uuid where
  "dev_b = ''bbbbbbbb-0000-4000-8000-000000000002''"

lemma demo_devices [simp]: "uuid_text dev_a" "uuid_text dev_b" "dev_a \<noteq> dev_b"
  by (simp_all add: uuid_text_def dev_a_def dev_b_def)

theorem queue_store_and_forward_witness:
  "\<exists>qs s'. dequeue_all 2 mem_redis dev_a (enqueue_many mem_redis dev_a [(''m1'', [1], 60), (''m2'', [2], 60)] []) =
      (Ok (Some qs), s') \<and>
    (\<lambda>q. (qm_message_id q, qm_encrypted_blob q)) ` set qs = {(''m1'', [1]), (''m2'', [2])}"
proof -
  have empty: "\<forall>i. r_look mem_redis [] (msg_key dev_a i) = None" by (simp add: mem_redis_def)
  from queue_store_and_forward [OF mem_redis_good demo_devices(1) _ _ empty, of "[(''m1'', [1], 60), (''m2'', [2], 60)]"]
  show ?thesis by auto
qed

text \<open>
  A message is kept as first enqueued: enqueuing again under the same id, whatever the content,
  changes nothing, and the queues of other devices are never touched.
\<close>

theorem enqueue_is_idempotent:
  assumes "redis_good N R" and "uuid_text d" and "0 < ttl" and "0 < ttl'"
  shows "\<exists>s1 s2. enqueue R d i b ttl s = (Ok (), s1) \<and> enqueue R d i b' ttl' s1 = (Ok (), s2) \<and>
    r_look R s2 = r_look R s1 \<and>
    (r_look R s (msg_key d i) = None \<longrightarrow> r_look R s1 (msg_key d i) = Some (b, Some ttl)) \<and>
    (\<forall>d' j. uuid_text d' \<longrightarrow> d' \<noteq> d \<longrightarrow> r_look R s2 (msg_key d' j) = r_look R s (msg_key d' j))"
proof -
  let ?k = "msg_key d i"
  from enqueue_run [OF assms(1,3), of d i b s] obtain s1 where s1: "enqueue R d i b ttl s = (Ok (), s1)"
    "r_look R s1 = (if has (r_look R s) ?k then r_look R s else (r_look R s)(?k \<mapsto> (b, Some ttl)))" by blast
  from enqueue_run [OF assms(1,4), of d i b' s1] obtain s2 where s2: "enqueue R d i b' ttl' s1 = (Ok (), s2)"
    "r_look R s2 = (if has (r_look R s1) ?k then r_look R s1 else (r_look R s1)(?k \<mapsto> (b', Some ttl')))" by blast
  have "has (r_look R s1) ?k" using s1(2) by (simp split: if_splits)
  with s2 have same: "r_look R s2 = r_look R s1" by simp
  have "r_look R s1 (msg_key d' j) = r_look R s (msg_key d' j)" if "uuid_text d'" "d' \<noteq> d" for d' j
    using s1(2) that assms(2) by (auto simp: item_keys item_key_inj split: if_splits)
  with s1 s2(1) same show ?thesis by (auto simp: has_def)
qed

theorem enqueue_is_idempotent_witness:
  "\<exists>s1 s2. enqueue mem_redis dev_a ''m1'' [1] 60 [] = (Ok (), s1) \<and>
    enqueue mem_redis dev_a ''m1'' [2] 60 s1 = (Ok (), s2) \<and> r_look mem_redis s2 = r_look mem_redis s1"
  using enqueue_is_idempotent [OF mem_redis_good demo_devices(1), of 60 60 "''m1''" "[1]" "[]" "[2]"] by auto

text \<open>
  C20: A wipe issued to a set of devices is pending for each of them, and for no other device, and
  acknowledging it removes it for that device only; acknowledging it again reports that nothing was
  pending.
\<close>

theorem wipe_lifecycle:
  assumes "redis_good N R" and "codec_laws J" and "\<forall>d \<in> set ds. uuid_text d" and "\<exists>b. to_json J w = Inr b"
    and "w = \<lparr>pw_wipe_id = i, pw_command = req, pw_issued_at = now\<rparr>"
    and "\<forall>d. r_look R s (wipe_key d i) = None"
  shows "\<exists>s1. issue_wipe R J i now ds req s = (Ok i, s1) \<and>
    (\<forall>d \<in> set ds. \<exists>ws s2 s3 s4. get_pending_wipes N R J d s1 = (Ok (Some ws), s2) \<and> w \<in> set ws \<and>
       confirm_wipe R d i s1 = (Ok True, s3) \<and> confirm_wipe R d i s3 = (Ok False, s4) \<and>
       (\<forall>d'. uuid_text d' \<longrightarrow> d' \<noteq> d \<longrightarrow> items_of ''wipe'' (r_look R s3) d' = items_of ''wipe'' (r_look R s1) d')) \<and>
    (\<forall>d. uuid_text d \<longrightarrow> d \<notin> set ds \<longrightarrow> items_of ''wipe'' (r_look R s1) d = items_of ''wipe'' (r_look R s) d)"
proof -
  obtain b where b: "to_json J w = Inr b" "from_json J b = Inr w"
    using assms(2,4) codec_lawsD by metis
  from issue_loop_run [OF assms(1,3), of i b s] obtain s1 where
    s1: "for_a ds (\<lambda>d. store_wipe R d i b WIPE_TTL_SECONDS) s = (Ok (), s1)"
      "\<forall>d. uuid_text d \<longrightarrow> items_of ''wipe'' (r_look R s1) d =
       (if d \<in> set ds then (items_of ''wipe'' (r_look R s) d)(i \<mapsto> b) else items_of ''wipe'' (r_look R s) d)" by blast
  have iss: "issue_wipe R J i now ds req s = (Ok i, s1)"
    using s1(1) b(1) by (simp add: issue_wipe_def assms(5) bind_a_Ok)
  have "\<exists>ws s2 s3 s4. get_pending_wipes N R J d s1 = (Ok (Some ws), s2) \<and> w \<in> set ws \<and>
       confirm_wipe R d i s1 = (Ok True, s3) \<and> confirm_wipe R d i s3 = (Ok False, s4) \<and>
       (\<forall>d'. uuid_text d' \<longrightarrow> d' \<noteq> d \<longrightarrow> items_of ''wipe'' (r_look R s3) d' = items_of ''wipe'' (r_look R s1) d')"
    if d: "d \<in> set ds" for d
  proof -
    have u: "uuid_text d" using assms(3) d by blast
    have ready: "ready (N, R)" using assms(1) by (simp add: ready_def)
    have item: "items_of ''wipe'' (r_look R s1) d i = Some b" using s1(2) u d by simp
    from get_pending_wipes_run [OF assms(1) u order_refl, of J s1] obtain ws s2 where
      ws: "get_pending_wipes N R J d s1 = (Ok (Some ws), s2)"
        "set ws = {w. \<exists>i b. items_of ''wipe'' (r_look R s1) d i = Some b \<and> from_json J b = Inr w}" by blast
    from wipes.remove [OF ready u, of i s1] item obtain s3 where
      s3: "confirm_wipe R d i s1 = (Ok True, s3)"
        "\<forall>d'. uuid_text d' \<longrightarrow> d' \<noteq> d \<longrightarrow> items_of ''wipe'' (r_look R s3) d' = items_of ''wipe'' (r_look R s1) d'"
      by (auto simp: wipe_box_def)
    from wipes.remove_twice [OF ready u, of i s1] s3(1) obtain s4 where "confirm_wipe R d i s3 = (Ok False, s4)"
      by (metis prod.collapse snd_conv)
    with ws item b(2) s3 show ?thesis by blast
  qed
  with iss s1(2) show ?thesis by auto
qed

definition pc_wipe :: "pending_wipe pcode" where
  "pc_wipe = pc_map
     (\<lambda>w. (pw_wipe_id w, (case wr_wipe_type (pw_command w) of WipeAll \<Rightarrow> 0 | WipeDevice \<Rightarrow> 1 | WipeConversation \<Rightarrow> (2 :: nat)),
           wr_target_device_id (pw_command w), wr_conversation_partner_id (pw_command w), pw_issued_at w))
     (\<lambda>(i, t, d, c, a). \<lparr>pw_wipe_id = i,
        pw_command = \<lparr>wr_wipe_type = (if t = 0 then WipeAll else if t = 1 then WipeDevice else WipeConversation),
          wr_target_device_id = d, wr_conversation_partner_id = c\<rparr>,
        pw_issued_at = a\<rparr>)
     (pc_pair pc_string (pc_pair pc_nat (pc_pair (pc_option pc_string) (pc_pair (pc_option pc_string) pc_int))))"

definition toy_wipe_codec :: "pending_wipe codec" where
  "toy_wipe_codec = codec_of (\<lambda>_. False) pc_wipe"

lemma toy_wipe_laws [simp]: "codec_laws toy_wipe_codec"
  unfolding toy_wipe_codec_def pc_wipe_def
  by (intro codec_of_laws pc_laws pc_more_laws pc_string_law) (simp split: wipe_type.split)

lemma toy_wipe_total [simp]: "\<exists>b. to_json toy_wipe_codec w = Inr b"
  by (simp add: toy_wipe_codec_def codec_of_def)

definition wipe_all :: wipe_request where
  "wipe_all = \<lparr>wr_wipe_type = WipeAll, wr_target_device_id = None, wr_conversation_partner_id = None\<rparr>"

theorem wipe_lifecycle_witness:
  "\<exists>s1 ws s2 s3. issue_wipe mem_redis toy_wipe_codec ''w1'' 100 [dev_a, dev_b] wipe_all [] = (Ok ''w1'', s1) \<and>
    get_pending_wipes 2 mem_redis toy_wipe_codec dev_a s1 = (Ok (Some ws), s2) \<and>
    \<lparr>pw_wipe_id = ''w1'', pw_command = wipe_all, pw_issued_at = 100\<rparr> \<in> set ws \<and>
    confirm_wipe mem_redis dev_a ''w1'' s1 = (Ok True, s3)"
proof -
  have empty: "\<forall>d. r_look mem_redis [] (wipe_key d ''w1'') = None" by (simp add: mem_redis_def)
  have "\<forall>d \<in> set [dev_a, dev_b]. uuid_text d" by simp
  from wipe_lifecycle [OF mem_redis_good toy_wipe_laws this toy_wipe_total refl empty, of 100 wipe_all]
  show ?thesis by auto
qed

end
