(* ===== verification/Rate_Limiter.thy ===== *)
theory Rate_Limiter
  imports Hysj_Prelude
begin

text \<open>
  crates/hysj-api/src/middleware/rate_limit.rs and the cleanup task that runs on it. The
  \<open>DashMap\<close> is an association list with distinct keys; an \<open>Instant\<close> is an integer read from the
  monotonic clock and passed in. The property of the component is the sliding-window bound, over
  any interleaving of requests for any keys with the cleanup task.
\<close>

section \<open>rate_limit.rs\<close>

type_synonym limiter = "(string \<times> int list) list"

definition limiter_new :: limiter where
  "limiter_new = []"

definition stamps :: "limiter \<Rightarrow> string \<Rightarrow> int list" where
  "stamps l key = (case map_of l key of None \<Rightarrow> [] | Some ts \<Rightarrow> ts)"

definition check_rate_limit :: "int \<Rightarrow> string \<Rightarrow> nat \<Rightarrow> int \<Rightarrow> limiter \<Rightarrow> bool \<times> limiter" where
  "check_rate_limit now key max_requests window l =
     (let cutoff = now - window;
          entry = filter (\<lambda>t. t > cutoff) (stamps l key) in
      if length entry \<ge> max_requests then (False, AList.update key entry l)
      else (True, AList.update key (entry @ [now]) l))"

definition cleanup :: "int \<Rightarrow> int \<Rightarrow> limiter \<Rightarrow> limiter" where
  "cleanup now max_age l =
     (let cutoff = now - max_age in
      filter (\<lambda>e. snd e \<noteq> []) (map (\<lambda>(k, ts). (k, filter (\<lambda>t. t > cutoff) ts)) l))"

text \<open>One round of background/rate_limit_cleanup.rs: entries older than an hour.\<close>

definition cleanup_round :: "int \<Rightarrow> limiter \<Rightarrow> limiter" where
  "cleanup_round now l = cleanup now (60 * 60) l"

lemma stamps_update [simp]:
  "stamps (AList.update k ts l) j = (if j = k then ts else stamps l j)"
  by (simp add: stamps_def update_conv')

lemma cleanup_keys: "fst ` set (cleanup now age l) \<subseteq> fst ` set l"
  by (force simp: cleanup_def Let_def)

lemma stamps_cleanup:
  assumes "distinct (map fst l)"
  shows "stamps (cleanup now age l) k = filter (\<lambda>t. t > now - age) (stamps l k)"
  using assms
proof (induction l)
  case (Cons e l)
  obtain j ts where e: "e = (j, ts)" by (cases e)
  have "k \<notin> fst ` set (cleanup now age l)" if "k = j"
    using Cons.prems e that cleanup_keys [of now age l] by auto
  then have none: "map_of (cleanup now age l) k = None" if "k = j"
    using that by (simp add: map_of_eq_None_iff)
  have "cleanup now age (e # l) = (if filter (\<lambda>t. t > now - age) ts = [] then cleanup now age l
      else (j, filter (\<lambda>t. t > now - age) ts) # cleanup now age l)"
    by (simp add: cleanup_def Let_def e)
  with Cons none e show ?case by (auto simp: stamps_def)
qed (simp add: stamps_def cleanup_def)

lemma cleanup_distinct: "distinct (map fst l) \<Longrightarrow> distinct (map fst (cleanup now age l))"
proof (induction l)
  case (Cons e l)
  have "cleanup now age (e # l) = (if filter (\<lambda>t. t > now - age) (snd e) = [] then cleanup now age l
      else (fst e, filter (\<lambda>t. t > now - age) (snd e)) # cleanup now age l)"
    by (simp add: cleanup_def Let_def case_prod_beta)
  with Cons cleanup_keys [of now age l] show ?case by auto
qed (simp add: cleanup_def)

section \<open>Runs\<close>

datatype limit_event =
    Request int string
  | Cleanup int

fun event_time :: "limit_event \<Rightarrow> int" where
  "event_time (Request t k) = t"
| "event_time (Cleanup t) = t"

text \<open>
  A run of requests, each against its key's limit and window, and of cleanup rounds. The result
  lists the accepted requests, newest first, with the limiter left behind.
\<close>

fun limiter_run ::
    "(string \<Rightarrow> nat) \<Rightarrow> (string \<Rightarrow> int) \<Rightarrow> limit_event list \<Rightarrow> (int \<times> string) list \<times> limiter \<Rightarrow>
     (int \<times> string) list \<times> limiter" where
  "limiter_run lim win [] st = st"
| "limiter_run lim win (Request t k # es) (acc, l) =
     (let (ok, l') = check_rate_limit t k (lim k) (win k) l in
      limiter_run lim win es (if ok then (t, k) # acc else acc, l'))"
| "limiter_run lim win (Cleanup t # es) (acc, l) = limiter_run lim win es (acc, cleanup_round t l)"

definition accepted_at :: "(int \<times> string) list \<Rightarrow> string \<Rightarrow> int list" where
  "accepted_at acc k = rev (map fst (filter (\<lambda>a. snd a = k) acc))"

text \<open>Accepted requests of key \<open>k\<close> within the window that ends at \<open>t\<close>.\<close>

definition in_window :: "(int \<times> string) list \<Rightarrow> string \<Rightarrow> int \<Rightarrow> int \<Rightarrow> nat" where
  "in_window acc k w t = length (filter (\<lambda>s. t - w < s \<and> s \<le> t) (accepted_at acc k))"

definition limiter_inv ::
    "(string \<Rightarrow> nat) \<Rightarrow> (string \<Rightarrow> int) \<Rightarrow> int \<Rightarrow> (int \<times> string) list \<times> limiter \<Rightarrow> bool" where
  "limiter_inv lim win now st \<longleftrightarrow>
     distinct (map fst (snd st)) \<and>
     (\<forall>a \<in> set (fst st). fst a \<le> now) \<and>
     (\<forall>k t. now \<le> t \<longrightarrow> filter (\<lambda>s. t - win k < s) (stamps (snd st) k) =
        filter (\<lambda>s. t - win k < s) (accepted_at (fst st) k)) \<and>
     (\<forall>k t. in_window (fst st) k (win k) t \<le> lim k)"

lemma filter_later:
  "t' \<le> t \<Longrightarrow> filter (\<lambda>s. t - w < s) (filter (\<lambda>s. t' - w < s) xs) = filter (\<lambda>s. t - w < (s :: int)) xs"
  by (induction xs) auto

lemma accepted_at_Cons:
  "accepted_at ((t, k) # acc) j = (if j = k then accepted_at acc j @ [t] else accepted_at acc j)"
  by (simp add: accepted_at_def)

lemma in_window_old:
  assumes "\<forall>a \<in> set acc. fst a \<le> now" and "now \<le> t"
  shows "in_window acc k w t = length (filter (\<lambda>s. t - w < s) (accepted_at acc k))"
proof -
  have "\<forall>s \<in> set (accepted_at acc k). s \<le> t" using assms by (auto simp: accepted_at_def)
  then have "filter (\<lambda>s. t - w < s \<and> s \<le> t) (accepted_at acc k) = filter (\<lambda>s. t - w < s) (accepted_at acc k)"
    by (intro filter_cong) auto
  then show ?thesis by (simp add: in_window_def)
qed

lemma request_inv:
  assumes I: "limiter_inv lim win now (acc, l)" and t: "now \<le> t"
    and c: "check_rate_limit t k (lim k) (win k) l = (ok, l')"
  shows "limiter_inv lim win t (if ok then (t, k) # acc else acc, l')"
proof -
  let ?e = "filter (\<lambda>s. t - win k < s) (stamps l k)"
  from I have d: "distinct (map fst l)" and old: "\<forall>a \<in> set acc. fst a \<le> now"
    and st: "\<And>j u. now \<le> u \<Longrightarrow> filter (\<lambda>s. u - win j < s) (stamps l j) = filter (\<lambda>s. u - win j < s) (accepted_at acc j)"
    and bd: "\<And>j u. in_window acc j (win j) u \<le> lim j"
    by (simp_all add: limiter_inv_def)
  have e: "?e = filter (\<lambda>s. t - win k < s) (accepted_at acc k)" using st t by simp
  have keep: "filter (\<lambda>s. u - win j < s) (stamps l j) = filter (\<lambda>s. u - win j < s) (accepted_at acc j)"
    if "t \<le> u" for j u using st [of u j] t that by simp
  have now_e: "filter (\<lambda>s. u - win k < s) ?e = filter (\<lambda>s. u - win k < s) (accepted_at acc k)" if "t \<le> u" for u
    using keep [OF that, of k] filter_later [OF that, of "win k" "stamps l k"] by simp
  show ?thesis
  proof (cases "length ?e \<ge> lim k")
    case True
    with c have r: "\<not> ok" "l' = AList.update k ?e l" by (auto simp: check_rate_limit_def Let_def)
    have "\<forall>a \<in> set acc. fst a \<le> t" using old t by auto
    with r d keep now_e bd show ?thesis
      by (simp add: limiter_inv_def distinct_update)
  next
    case False
    with c have r: "ok" "l' = AList.update k (?e @ [t]) l" by (auto simp: check_rate_limit_def Let_def)
    have "in_window ((t, k) # acc) j (win j) u \<le> lim j" for j u
    proof (cases "j = k")
      case True
      have "in_window ((t, k) # acc) k (win k) u =
          in_window acc k (win k) u + (if u - win k < t \<and> t \<le> u then 1 else 0)"
        by (simp add: in_window_def accepted_at_Cons)
      moreover have "in_window acc k (win k) u < lim k" if "t \<le> u"
      proof -
        have "in_window acc k (win k) u = length (filter (\<lambda>s. u - win k < s) (accepted_at acc k))"
          using in_window_old [OF old, of u k] that t by simp
        also have "\<dots> = length (filter (\<lambda>s. u - win k < s) ?e)" using now_e [OF that] by simp
        also have "\<dots> \<le> length ?e" by (rule length_filter_le)
        also have "\<dots> < lim k" using False by simp
        finally show ?thesis .
      qed
      ultimately show ?thesis using bd [of k u] True by (cases "t \<le> u") auto
    next
      case False
      then show ?thesis using bd [of j u] by (simp add: in_window_def accepted_at_Cons)
    qed
    moreover have "\<forall>a \<in> set ((t, k) # acc). fst a \<le> t" using old t by auto
    moreover have "filter (\<lambda>s. u - win j < s) (stamps l' j) =
        filter (\<lambda>s. u - win j < s) (accepted_at ((t, k) # acc) j)" if "t \<le> u" for j u
      using r(2) keep [OF that, of j] now_e [OF that] by (auto simp: accepted_at_Cons)
    ultimately show ?thesis using r d by (simp add: limiter_inv_def distinct_update)
  qed
qed

lemma cleanup_inv:
  assumes I: "limiter_inv lim win now (acc, l)" and t: "now \<le> t" and w: "\<forall>k. win k \<le> 3600"
  shows "limiter_inv lim win t (acc, cleanup_round t l)"
proof -
  from I have d: "distinct (map fst l)" and old: "\<forall>a \<in> set acc. fst a \<le> now"
    and st: "\<And>j u. now \<le> u \<Longrightarrow> filter (\<lambda>s. u - win j < s) (stamps l j) = filter (\<lambda>s. u - win j < s) (accepted_at acc j)"
    and bd: "\<And>j u. in_window acc j (win j) u \<le> lim j"
    by (simp_all add: limiter_inv_def)
  have "filter (\<lambda>s. u - win j < s) (stamps (cleanup_round t l) j) = filter (\<lambda>s. u - win j < s) (accepted_at acc j)"
    if u: "t \<le> u" for j u
  proof -
    have imp: "u - win j < s \<Longrightarrow> t - 3600 < s" for s using w u by (smt (verit))
    have "filter (\<lambda>s. u - win j < s) (filter (\<lambda>s. t - 3600 < s) xs) = filter (\<lambda>s. u - win j < s) xs" for xs
      using imp by (induction xs) auto
    with st [of u j] t u show ?thesis by (simp add: cleanup_round_def stamps_cleanup [OF d])
  qed
  moreover have "\<forall>a \<in> set acc. fst a \<le> t" using old t by auto
  ultimately show ?thesis
    using d bd by (simp add: limiter_inv_def cleanup_round_def cleanup_distinct)
qed

lemma limiter_run_inv:
  assumes "limiter_inv lim win now st" and "sorted (now # map event_time es)" and "\<forall>k. win k \<le> 3600"
  shows "limiter_inv lim win (last (now # map event_time es)) (limiter_run lim win es st)"
  using assms(1,2)
proof (induction es arbitrary: now st)
  case (Cons e es)
  obtain acc l where st: "st = (acc, l)" by (cases st)
  show ?case
  proof (cases e)
    case (Request t k)
    obtain ok l' where c: "check_rate_limit t k (lim k) (win k) l = (ok, l')" by fastforce
    have "limiter_inv lim win t (if ok then (t, k) # acc else acc, l')"
      using Cons.prems Request st c by (intro request_inv) auto
    from Cons.IH [OF this] Cons.prems(2) Request c st show ?thesis by simp
  next
    case (Cleanup t)
    have "limiter_inv lim win t (acc, cleanup_round t l)"
      using Cons.prems Cleanup st assms(3) by (intro cleanup_inv) auto
    from Cons.IH [OF this] Cons.prems(2) Cleanup st show ?thesis by simp
  qed
qed simp

section \<open>Properties\<close>

lemma limiter_after:
  assumes "sorted (map event_time es @ [t])" and "\<forall>k. win k \<le> 3600"
  shows "limiter_inv lim win t (limiter_run lim win es ([], limiter_new))"
proof -
  define start where "start = hd (map event_time es @ [t])"
  have "limiter_inv lim win start ([], limiter_new)"
    by (simp add: limiter_inv_def limiter_new_def stamps_def accepted_at_def in_window_def)
  moreover have "sorted (start # map event_time es)"
    using assms(1) by (cases es) (auto simp: start_def sorted_append)
  ultimately have I: "limiter_inv lim win (last (start # map event_time es)) (limiter_run lim win es ([], limiter_new))"
    using assms(2) by (rule limiter_run_inv)
  moreover have "last (start # map event_time es) \<in> set (map event_time es @ [t])"
    using last_in_set [of "start # map event_time es"] by (cases es) (auto simp: start_def)
  then have "last (start # map event_time es) \<le> t" using assms(1) by (auto simp: sorted_append)
  ultimately show ?thesis unfolding limiter_inv_def by (meson order_trans)
qed

text \<open>
  C17: Over any sequence of requests for any keys and any cleanup rounds, with a clock that does not
  run backwards, no window of a key's length ever holds more accepted requests than its limit.
\<close>

theorem sliding_window_bound:
  assumes "sorted (map event_time es)" and "\<forall>k. win k \<le> 3600"
  shows "in_window (fst (limiter_run lim win es ([], limiter_new))) k (win k) t \<le> lim k"
proof (cases es)
  case Nil
  then show ?thesis by (simp add: in_window_def accepted_at_def)
next
  case (Cons e es')
  have "limiter_inv lim win (event_time e) ([], limiter_new)"
    by (simp add: limiter_inv_def limiter_new_def stamps_def accepted_at_def in_window_def)
  moreover have "sorted (event_time e # map event_time es)" using assms(1) Cons by simp
  ultimately have "limiter_inv lim win (last (event_time e # map event_time es))
      (limiter_run lim win es ([], limiter_new))"
    using assms(2) by (intro limiter_run_inv)
  then show ?thesis by (simp add: limiter_inv_def)
qed

theorem sliding_window_bound_witness:
  "in_window (fst (limiter_run (\<lambda>_. 2) (\<lambda>_. 60)
     [Request 0 ''a'', Request 10 ''a'', Request 20 ''b'', Request 30 ''a'', Cleanup 40, Request 61 ''a'']
     ([], limiter_new))) ''a'' 60 61 \<le> 2"
  using sliding_window_bound
    [of "[Request 0 ''a'', Request 10 ''a'', Request 20 ''b'', Request 30 ''a'', Cleanup 40, Request 61 ''a'']"
      "\<lambda>_. 60" "\<lambda>_. 2" "''a''" 61] by simp

text \<open>
  C18: The limiter decides as a reference that remembers every accepted request for ever: a request is
  accepted exactly if fewer than the limit were accepted in the window that ends with it. Forgetting old
  timestamps, in each call and in the cleanup, changes no decision.
\<close>

theorem limiter_equals_history:
  assumes "sorted (map event_time es @ [t])" and "\<forall>k. win k \<le> 3600"
  shows "fst (check_rate_limit t k (lim k) (win k) (snd (limiter_run lim win es ([], limiter_new)))) \<longleftrightarrow>
    in_window (fst (limiter_run lim win es ([], limiter_new))) k (win k) t < lim k"
proof -
  obtain acc l where run: "limiter_run lim win es ([], limiter_new) = (acc, l)" by (rule prod.exhaust)
  with limiter_after [OF assms, of lim] have I: "limiter_inv lim win t (acc, l)" by simp
  then have "filter (\<lambda>s. t - win k < s) (stamps l k) = filter (\<lambda>s. t - win k < s) (accepted_at acc k)"
    and old: "\<forall>a \<in> set acc. fst a \<le> t" by (simp_all add: limiter_inv_def)
  with in_window_old [OF old, of t k "win k"] run show ?thesis by (simp add: check_rate_limit_def Let_def not_le)
qed

theorem limiter_equals_history_witness:
  "fst (check_rate_limit 61 ''a'' 2 60 (snd (limiter_run (\<lambda>_. 2) (\<lambda>_. 60)
     [Request 0 ''a'', Request 10 ''a'', Request 30 ''a'', Cleanup 40] ([], limiter_new)))) \<longleftrightarrow>
   in_window (fst (limiter_run (\<lambda>_. 2) (\<lambda>_. 60)
     [Request 0 ''a'', Request 10 ''a'', Request 30 ''a'', Cleanup 40] ([], limiter_new))) ''a'' 60 61 < 2"
  by (rule limiter_equals_history [of "[Request 0 ''a'', Request 10 ''a'', Request 30 ''a'', Cleanup 40]" 61
      "\<lambda>_. 60" "''a''" "\<lambda>_. 2"]) simp_all

end
