(* ===== verification/Auth_Tokens.thy ===== *)
theory Auth_Tokens
  imports Reference_Primitives
begin

text \<open>
  crates/hysj-auth: access and refresh tokens (jwt.rs), sender certificates (certificate.rs),
  passwords (password.rs) and one-time codes (totp.rs). The crates jsonwebtoken, argon2 and totp-rs
  are parameters with named hypotheses; Ed25519 is \<open>prims\<close>. The clock and random bytes are
  arguments.
\<close>

section \<open>lib.rs\<close>

datatype auth_error =
    HashingFailed string
  | TokenCreationFailed string
  | TokenValidationFailed string
  | AuthInvalidToken
  | AuthExpired
  | TotpError string
  | CertificateError string

fun auth_error_str :: "auth_error \<Rightarrow> string" where
  "auth_error_str (HashingFailed e) = ''password hashing failed: '' @ e"
| "auth_error_str (TokenCreationFailed e) = ''token creation failed: '' @ e"
| "auth_error_str (TokenValidationFailed e) = ''token validation failed: '' @ e"
| "auth_error_str AuthInvalidToken = ''invalid token''"
| "auth_error_str AuthExpired = ''token or certificate has expired''"
| "auth_error_str (TotpError e) = ''TOTP error: '' @ e"
| "auth_error_str (CertificateError e) = ''certificate error: '' @ e"

section \<open>jwt.rs\<close>

definition ACCESS_TOKEN_EXPIRY_SECONDS :: nat where
  "ACCESS_TOKEN_EXPIRY_SECONDS = 15 * 60"

definition REFRESH_TOKEN_EXPIRY_SECONDS :: nat where
  "REFRESH_TOKEN_EXPIRY_SECONDS = 30 * 24 * 60 * 60"

record claims =
  cl_sub :: string
  cl_device_id :: string
  cl_username :: string
  cl_exp :: nat
  cl_iat :: nat

text \<open>The \<open>ErrorKind\<close>s of jsonwebtoken the code tells apart.\<close>

datatype jwt_failure = JwtExpiredSignature | JwtInvalidToken | JwtOther string

fun jwt_failure_str :: "jwt_failure \<Rightarrow> string" where
  "jwt_failure_str JwtExpiredSignature = ''ExpiredSignature''"
| "jwt_failure_str JwtInvalidToken = ''InvalidToken''"
| "jwt_failure_str (JwtOther e) = e"

text \<open>
  jsonwebtoken with HS256: \<open>decode\<close> reads the clock. With the \<open>Validation\<close> the code builds (the
  default leeway of 60 seconds) a token signed with the same secret is rejected as expired exactly
  when its expiry lies more than 60 seconds back, and otherwise gives back its claims.
\<close>

record jwt_lib =
  jwt_encode :: "claims \<Rightarrow> bytes \<Rightarrow> string + string"
  jwt_decode :: "int \<Rightarrow> string \<Rightarrow> bytes \<Rightarrow> jwt_failure + claims"

definition jwt_laws :: "jwt_lib \<Rightarrow> bool" where
  "jwt_laws W \<longleftrightarrow> (\<forall>c k t now. jwt_encode W c k = Inr t \<longrightarrow>
     jwt_decode W now t k = (if int (cl_exp c) < now - 60 then Inl JwtExpiredSignature else Inr c))"

text \<open>Encoding a value of this type with an HMAC secret does not fail.\<close>

definition jwt_encodes :: "jwt_lib \<Rightarrow> bool" where
  "jwt_encodes W \<longleftrightarrow> (\<forall>c k. \<exists>t. jwt_encode W c k = Inr t)"

text \<open>\<open>timestamp() as usize\<close>\<close>

definition usize_of_i64 :: "int \<Rightarrow> nat" where
  "usize_of_i64 t = nat (t mod 2 ^ 64)"

lemma usize_of_i64_pos: "0 \<le> t \<Longrightarrow> t < 2 ^ 63 \<Longrightarrow> int (usize_of_i64 t) = t"
  by (simp add: usize_of_i64_def)

definition create_access_token ::
    "jwt_lib \<Rightarrow> int \<Rightarrow> uuid \<Rightarrow> uuid \<Rightarrow> string \<Rightarrow> string \<Rightarrow> (auth_error, string) outcome" where
  "create_access_token W utc_now user_id device_id username secret =
     (let now = usize_of_i64 utc_now;
          claims = \<lparr>cl_sub = user_id, cl_device_id = device_id, cl_username = username,
            cl_exp = now + ACCESS_TOKEN_EXPIRY_SECONDS, cl_iat = now\<rparr> in
      of_sum TokenCreationFailed (jwt_encode W claims (str_bytes secret)))"

definition create_refresh_token ::
    "jwt_lib \<Rightarrow> int \<Rightarrow> uuid \<Rightarrow> uuid \<Rightarrow> string \<Rightarrow> string \<Rightarrow> (auth_error, string) outcome" where
  "create_refresh_token W utc_now user_id device_id username secret =
     (let now = usize_of_i64 utc_now;
          claims = \<lparr>cl_sub = user_id, cl_device_id = device_id, cl_username = username,
            cl_exp = now + REFRESH_TOKEN_EXPIRY_SECONDS, cl_iat = now\<rparr> in
      of_sum TokenCreationFailed (jwt_encode W claims (str_bytes secret)))"

definition validate_token :: "jwt_lib \<Rightarrow> int \<Rightarrow> string \<Rightarrow> string \<Rightarrow> (auth_error, claims) outcome" where
  "validate_token W now token secret =
     (case jwt_decode W now token (str_bytes secret) of
        Inl e \<Rightarrow> Err (case e of
            JwtExpiredSignature \<Rightarrow> AuthExpired
          | JwtInvalidToken \<Rightarrow> AuthInvalidToken
          | JwtOther m \<Rightarrow> TokenValidationFailed m)
      | Inr c \<Rightarrow> Ok c)"

lemma validate_issued:
  assumes "jwt_laws W" and "jwt_encode W c (str_bytes secret) = Inr t"
  shows "validate_token W now t secret = (if int (cl_exp c) < now - 60 then Err AuthExpired else Ok c)"
  using assms unfolding jwt_laws_def by (simp add: validate_token_def)

lemma issued_tokens:
  assumes "jwt_laws W" and "jwt_encodes W" and "0 \<le> t0" and "t0 < 2 ^ 63"
  shows "\<exists>access refresh c c'.
    create_access_token W t0 user_id device_id username secret = Ok access \<and>
    create_refresh_token W t0 user_id device_id username secret = Ok refresh \<and>
    (\<forall>now. validate_token W now access secret = (if t0 + 900 + 60 < now then Err AuthExpired else Ok c)) \<and>
    (\<forall>now. validate_token W now refresh secret = (if t0 + 2592000 + 60 < now then Err AuthExpired else Ok c')) \<and>
    cl_sub c = user_id \<and> cl_device_id c = device_id \<and> cl_username c = username \<and>
    cl_sub c' = user_id \<and> cl_device_id c' = device_id \<and> cl_username c' = username"
proof -
  let ?n = "usize_of_i64 t0"
  let ?c = "\<lambda>life. \<lparr>cl_sub = user_id, cl_device_id = device_id, cl_username = username,
    cl_exp = ?n + life, cl_iat = ?n\<rparr>"
  obtain a r where enc: "jwt_encode W (?c 900) (str_bytes secret) = Inr a"
    "jwt_encode W (?c 2592000) (str_bytes secret) = Inr r"
    using assms(2) unfolding jwt_encodes_def by blast
  then have "create_access_token W t0 user_id device_id username secret = Ok a"
    "create_refresh_token W t0 user_id device_id username secret = Ok r"
    by (simp_all add: create_access_token_def create_refresh_token_def Let_def
        ACCESS_TOKEN_EXPIRY_SECONDS_def REFRESH_TOKEN_EXPIRY_SECONDS_def)
  moreover have "validate_token W now a secret = (if t0 + 900 + 60 < now then Err AuthExpired else Ok (?c 900))"
    "validate_token W now r secret = (if t0 + 2592000 + 60 < now then Err AuthExpired else Ok (?c 2592000))" for now
    using validate_issued [OF assms(1) enc(1), of now] validate_issued [OF assms(1) enc(2), of now]
      usize_of_i64_pos [OF assms(3,4)] by (simp_all add: algebra_simps)
  ultimately show ?thesis by (intro exI [of _ a] exI [of _ r] exI [of _ "?c 900"] exI [of _ "?c 2592000"]) simp
qed

section \<open>certificate.rs\<close>

definition SENDER_CERT_EXPIRY_SECONDS :: nat where
  "SENDER_CERT_EXPIRY_SECONDS = 24 * 60 * 60"

record sender_certificate =
  sc_user_id :: string
  sc_username :: string
  sc_public_key :: bytes
  sc_expires_at :: int
  sc_signature :: bytes

text \<open>\<open>to_le_bytes\<close> of an \<open>i64\<close>\<close>

definition i64_le :: "int \<Rightarrow> bytes" where
  "i64_le t = map (\<lambda>i. of_int (t div 256 ^ i)) [0 ..< 8]"

definition certificate_payload :: "string \<Rightarrow> string \<Rightarrow> bytes \<Rightarrow> int \<Rightarrow> bytes" where
  "certificate_payload user_id username public_key expires_at =
     str_bytes user_id @ str_bytes username @ public_key @ i64_le expires_at"

definition sign_certificate :: "prims \<Rightarrow> int \<Rightarrow> uuid \<Rightarrow> string \<Rightarrow> bytes \<Rightarrow> bytes \<Rightarrow> sender_certificate" where
  "sign_certificate P now user_id username user_public_key server_key =
     (let expires_at = now + int SENDER_CERT_EXPIRY_SECONDS;
          payload = certificate_payload user_id username user_public_key expires_at;
          signature = ed_sign P server_key payload in
      \<lparr>sc_user_id = user_id, sc_username = username, sc_public_key = user_public_key,
       sc_expires_at = expires_at, sc_signature = signature\<rparr>)"

definition verify_certificate :: "prims \<Rightarrow> int \<Rightarrow> sender_certificate \<Rightarrow> bytes \<Rightarrow> (auth_error, bool) outcome" where
  "verify_certificate P now cert server_pk =
     (if sc_expires_at cert < now then Err AuthExpired
      else
        let payload = certificate_payload (sc_user_id cert) (sc_username cert) (sc_public_key cert) (sc_expires_at cert) in
        if length (sc_signature cert) \<noteq> 64 then Err (CertificateError ''invalid signature length'')
        else Ok (ed_verify P server_pk payload (sc_signature cert)))"

definition get_signing_keypair_from_seed :: "prims \<Rightarrow> bytes \<Rightarrow> bytes \<times> bytes" where
  "get_signing_keypair_from_seed P seed = (seed, ed_pub P seed)"

section \<open>password.rs\<close>

text \<open>The outcomes of \<open>verify_password\<close> of the argon2 crate.\<close>

datatype argon2_check = A2Match | A2Password | A2Failure string

record argon2_lib =
  a2_params :: "nat \<Rightarrow> nat \<Rightarrow> nat \<Rightarrow> string + nat \<times> nat \<times> nat"
  a2_hash :: "nat \<times> nat \<times> nat \<Rightarrow> bytes \<Rightarrow> string \<Rightarrow> string + string"
  a2_parse :: "string \<Rightarrow> string + string"
  a2_verify :: "bytes \<Rightarrow> string \<Rightarrow> argon2_check"

definition argon2_laws :: "argon2_lib \<Rightarrow> bool" where
  "argon2_laws A \<longleftrightarrow> (\<forall>ps p s h. a2_hash A ps p s = Inr h \<longrightarrow> a2_parse A h = Inr h \<and> a2_verify A p h = A2Match)"

definition hash_password :: "argon2_lib \<Rightarrow> string \<Rightarrow> string \<Rightarrow> (auth_error, string \<times> bytes) outcome" where
  "hash_password A salt password =
     bind_o (of_sum HashingFailed (a2_params A 65536 3 4)) (\<lambda>params.
     bind_o (of_sum HashingFailed (a2_hash A params (str_bytes password) salt)) (\<lambda>hash.
     Ok (hash, str_bytes salt)))"

definition verify_password :: "argon2_lib \<Rightarrow> string \<Rightarrow> string \<Rightarrow> (auth_error, bool) outcome" where
  "verify_password A password hash =
     bind_o (of_sum HashingFailed (a2_parse A hash)) (\<lambda>parsed_hash.
     case a2_verify A (str_bytes password) parsed_hash of
       A2Match \<Rightarrow> Ok True
     | A2Password \<Rightarrow> Ok False
     | A2Failure e \<Rightarrow> Err (HashingFailed e))"

lemma verify_hashed:
  assumes "argon2_laws A" and "hash_password A salt password = Ok (h, s)"
  shows "verify_password A password h = Ok True"
proof -
  from assms(2) obtain ps where "a2_hash A ps (str_bytes password) salt = Inr h"
    by (auto simp: hash_password_def)
  with assms(1) have "a2_parse A h = Inr h" "a2_verify A (str_bytes password) h = A2Match"
    unfolding argon2_laws_def by metis+
  then show ?thesis by (simp add: verify_password_def)
qed

section \<open>totp.rs\<close>

text \<open>
  totp-rs: secrets are Base32, \<open>TOTP::new\<close> rejects an account name with a colon in it.
\<close>

record 'totp totp_lib =
  tl_generate :: "bytes \<Rightarrow> string"
  tl_secret :: "string \<Rightarrow> string + bytes"
  tl_new :: "nat \<Rightarrow> nat \<Rightarrow> nat \<Rightarrow> bytes \<Rightarrow> string option \<Rightarrow> string \<Rightarrow> string + 'totp"
  tl_url :: "'totp \<Rightarrow> string"
  tl_check :: "int \<Rightarrow> 'totp \<Rightarrow> string \<Rightarrow> string + bool"

definition totp_laws :: "'totp totp_lib \<Rightarrow> bool" where
  "totp_laws T \<longleftrightarrow> (\<forall>d k st s i a. CHR '':'' \<in> set a \<longrightarrow> (\<exists>e. tl_new T d k st s i a = Inl e))"

definition ISSUER :: string where
  "ISSUER = ''Hysj''"

definition DIGITS :: nat where
  "DIGITS = 6"

definition STEP :: nat where
  "STEP = 30"

definition generate_secret :: "'totp totp_lib \<Rightarrow> bytes \<Rightarrow> string" where
  "generate_secret T rnd = tl_generate T rnd"

definition build_totp :: "'totp totp_lib \<Rightarrow> string \<Rightarrow> string \<Rightarrow> (auth_error, 'totp) outcome" where
  "build_totp T secret account_name =
     bind_o (of_sum TotpError (tl_secret T secret)) (\<lambda>secret_bytes.
     of_sum TotpError (tl_new T DIGITS 1 STEP secret_bytes (Some ISSUER) account_name))"

definition generate_totp_uri :: "'totp totp_lib \<Rightarrow> string \<Rightarrow> string \<Rightarrow> ('e, string) outcome" where
  "generate_totp_uri T secret username =
     (case build_totp T secret username of
        Ok totp \<Rightarrow> Ok (tl_url T totp)
      | Err e \<Rightarrow> Panic ''failed to build TOTP for URI generation''
      | Panic p \<Rightarrow> Panic p)"

definition verify_totp :: "'totp totp_lib \<Rightarrow> int \<Rightarrow> string \<Rightarrow> string \<Rightarrow> (auth_error, bool) outcome" where
  "verify_totp T now secret code =
     bind_o (map_err (\<lambda>e. TotpError (auth_error_str e)) (build_totp T secret ''user'')) (\<lambda>totp.
     of_sum TotpError (tl_check T now totp code))"

lemma totp_uri_colon:
  assumes "totp_laws T" and "CHR '':'' \<in> set username"
  shows "generate_totp_uri T secret username = Panic ''failed to build TOTP for URI generation''"
proof -
  have "\<exists>e. build_totp T secret username = Err e"
  proof (cases "tl_secret T secret")
    case (Inr b)
    from assms obtain e where "tl_new T DIGITS 1 STEP b (Some ISSUER) username = Inl e"
      unfolding totp_laws_def by blast
    with Inr show ?thesis by (simp add: build_totp_def)
  qed (simp add: build_totp_def)
  then show ?thesis by (auto simp: generate_totp_uri_def)
qed

section \<open>Reference instances\<close>

text \<open>Executable stand-ins for the crates that satisfy the laws.\<close>

definition pc_claims :: "claims pcode" where
  "pc_claims = pc_map (\<lambda>c. ((cl_sub c, cl_device_id c, cl_username c), (cl_exp c, cl_iat c)))
     (\<lambda>((s, d, n), (e, i)). \<lparr>cl_sub = s, cl_device_id = d, cl_username = n, cl_exp = e, cl_iat = i\<rparr>)
     (pc_pair (pc_pair pc_string (pc_pair pc_string pc_string)) (pc_pair pc_nat pc_nat))"

lemma pc_claims_law [simp]: "pc_law pc_claims"
  unfolding pc_claims_def by (intro pc_laws) simp_all

definition toy_jwt :: jwt_lib where
  "toy_jwt = \<lparr>
     jwt_encode = (\<lambda>c k. Inr (bytes_str (p_enc (pc_pair pc_bytes pc_claims) (k, c)))),
     jwt_decode = (\<lambda>now t k. case p_dec (pc_pair pc_bytes pc_claims) (str_bytes t) of
        Some ((k', c), []) \<Rightarrow>
          if k' \<noteq> k then Inl (JwtOther ''InvalidSignature'')
          else if int (cl_exp c) < now - 60 then Inl JwtExpiredSignature else Inr c
      | _ \<Rightarrow> Inl JwtInvalidToken)\<rparr>"

lemma toy_jwt_laws [simp]: "jwt_laws toy_jwt" "jwt_encodes toy_jwt"
proof -
  have "p_dec (pc_pair pc_bytes pc_claims) (p_enc (pc_pair pc_bytes pc_claims) x) = Some (x, [])" for x
    using pc_lawD [of "pc_pair pc_bytes pc_claims" x "[]"] by simp
  then show "jwt_laws toy_jwt" by (simp add: jwt_laws_def toy_jwt_def)
qed (simp add: jwt_encodes_def toy_jwt_def)

definition toy_argon2 :: argon2_lib where
  "toy_argon2 = \<lparr>
     a2_params = (\<lambda>m t p. Inr (m, t, p)),
     a2_hash = (\<lambda>ps p s. Inr (''$argon2id$'' @ bytes_str p)),
     a2_parse = (\<lambda>h. if take 10 h = ''$argon2id$'' then Inr h else Inl ''invalid hash''),
     a2_verify = (\<lambda>p h. if h = ''$argon2id$'' @ bytes_str p then A2Match else A2Password)\<rparr>"

lemma toy_argon2_laws [simp]: "argon2_laws toy_argon2"
  by (simp add: argon2_laws_def toy_argon2_def)

definition toy_totp :: "(bytes \<times> string) totp_lib" where
  "toy_totp = \<lparr>
     tl_generate = (\<lambda>rnd. bytes_str rnd),
     tl_secret = (\<lambda>s. Inr (str_bytes s)),
     tl_new = (\<lambda>d k st s i a. if CHR '':'' \<in> set a then Inl ''account name contains a colon'' else Inr (s, a)),
     tl_url = (\<lambda>t. ''otpauth://totp/Hysj:'' @ snd t),
     tl_check = (\<lambda>now t code. Inr (code = nat_str (nat now mod 1000000)))\<rparr>"

lemma toy_totp_laws [simp]: "totp_laws toy_totp"
  by (simp add: totp_laws_def toy_totp_def)

section \<open>Properties\<close>



text \<open>
  C24: A certificate verifies under the key pair of the server's seed for exactly 24 hours after it
  was signed and is reported as expired afterwards.
\<close>

theorem certificate_lifetime:
  assumes "sig_laws P" and "get_signing_keypair_from_seed P seed = (sk, vk)"
  shows "verify_certificate P now (sign_certificate P t0 user_id username pk sk) vk =
    (if now \<le> t0 + 86400 then Ok True else Err AuthExpired)"
proof -
  have "vk = ed_pub P sk" using assms(2) by (auto simp: get_signing_keypair_from_seed_def)
  with assms(1) show ?thesis
    by (simp add: sig_laws_def verify_certificate_def sign_certificate_def Let_def SENDER_CERT_EXPIRY_SECONDS_def)
qed

theorem certificate_lifetime_witness:
  "verify_certificate toy_prims 86401 (sign_certificate toy_prims 1 ''u'' ''alice'' [1, 2] [9]) (ed_pub toy_prims [9]) = Ok True"
  using certificate_lifetime [OF toy_sig_laws, of "[9]" "[9]" "ed_pub toy_prims [9]" 86401 1 "''u''" "''alice''" "[1, 2]"]
  by (simp add: get_signing_keypair_from_seed_def)

text \<open>
  The signed payload does not separate the fields: moving the end of the user name to the front
  of the public key (or the end of the user id to the front of the user name) changes the identity
  and the key the certificate asserts and leaves its verification result the same.
\<close>

theorem certificate_boundary_shift:
  assumes "sc_username cert = u @ v" and "sc_user_id cert = i @ j"
  shows "verify_certificate P now (cert\<lparr>sc_username := u, sc_public_key := str_bytes v @ sc_public_key cert\<rparr>) vk =
      verify_certificate P now cert vk \<and>
    verify_certificate P now (cert\<lparr>sc_user_id := i, sc_username := j @ sc_username cert\<rparr>) vk =
      verify_certificate P now cert vk"
  using assms by (simp add: verify_certificate_def certificate_payload_def)

theorem certificate_boundary_shift_witness:
  "verify_certificate toy_prims 5 ((sign_certificate toy_prims 1 ''u1'' ''alice'' [1, 2] [9])
      \<lparr>sc_username := ''al'', sc_public_key := str_bytes ''ice'' @ [1, 2]\<rparr>) (ed_pub toy_prims [9]) = Ok True"
  using certificate_boundary_shift [of "sign_certificate toy_prims 1 ''u1'' ''alice'' [1, 2] [9]" "''al''" "''ice''" "''u''" "''1''"
      toy_prims 5 "ed_pub toy_prims [9]"] toy_sig_laws
      by (simp add: sign_certificate_def Let_def verify_certificate_def sig_laws_def SENDER_CERT_EXPIRY_SECONDS_def)

end
