(* ===== verification/Ephemeral_Store.thy ===== *)
theory Ephemeral_Store
  imports Device_Boxes
begin

text \<open>
  crates/hysj-messaging: otp.rs (one-time codes and verification tokens) and media_store.rs
  (encrypted audio and file blobs with a short life). Codes and tokens share a contract, the locale
  \<open>one_time_secret\<close>: what is issued under a name is redeemed at most once. It is interpreted on both.
\<close>

section \<open>Reading text\<close>

text \<open>\<open>GET\<close> into an \<open>Option<String>\<close>: a value that is not UTF-8 is an error.\<close>

definition get_string :: "'s redis \<Rightarrow> string \<Rightarrow> ('s, string, string option) act" where
  "get_string R key =
     bind_a (r_get R key) (\<lambda>v.
     case v of
       None \<Rightarrow> ret None
     | Some bs \<Rightarrow> if utf8_ok bs then ret (Some (bytes_str bs)) else throw ''Invalid UTF-8'')"

definition text_at :: "keyspace \<Rightarrow> string \<Rightarrow> string option" where
  "text_at L k = map_option (\<lambda>v. bytes_str (fst v)) (L k)"

definition texts :: "keyspace \<Rightarrow> string \<Rightarrow> bool" where
  "texts L k \<longleftrightarrow> (\<forall>v. L k = Some v \<longrightarrow> utf8_ok (fst v))"

lemma get_string_run:
  assumes "redis_good N R" and "texts (r_look R s) k"
  shows "\<exists>s'. get_string R k s = (Ok (text_at (r_look R s) k), s') \<and> r_look R s' = r_look R s"
proof -
  obtain s' where "r_get R k s = (Ok (map_option fst (r_look R s k)), s')" "r_look R s' = r_look R s"
    by (rule redis_get [OF assms(1)])
  with assms(2) show ?thesis
    by (auto simp: get_string_def bind_a_Ok text_at_def texts_def split: option.split)
qed

section \<open>otp.rs\<close>

definition store_otp :: "'s redis \<Rightarrow> string \<Rightarrow> string \<Rightarrow> nat \<Rightarrow> ('s, unit) messaging" where
  "store_otp R phone_number code ttl_seconds =
     (let key = ''otp:'' @ phone_number in
      cmd (r_set_ex R key (str_bytes code) ttl_seconds))"

definition verify_otp :: "'s redis \<Rightarrow> string \<Rightarrow> string \<Rightarrow> ('s, bool) messaging" where
  "verify_otp R phone_number code =
     (let key = ''otp:'' @ phone_number in
      bind_a (cmd (get_string R key)) (\<lambda>stored.
      case stored of
        Some stored_code \<Rightarrow>
          if stored_code = code then bind_a (cmd (r_del R [key])) (\<lambda>_. ret True)
          else ret False
      | None \<Rightarrow> ret False))"

definition store_verification_token :: "'s redis \<Rightarrow> string \<Rightarrow> string \<Rightarrow> nat \<Rightarrow> ('s, unit) messaging" where
  "store_verification_token R token phone_number ttl_seconds =
     (let key = ''otp_verified:'' @ token in
      cmd (r_set_ex R key (str_bytes phone_number) ttl_seconds))"

definition validate_verification_token :: "'s redis \<Rightarrow> string \<Rightarrow> ('s, string option) messaging" where
  "validate_verification_token R token =
     (let key = ''otp_verified:'' @ token in
      bind_a (cmd (get_string R key)) (\<lambda>phone.
      if phone \<noteq> None then bind_a (cmd (r_del R [key])) (\<lambda>_. ret phone)
      else ret phone))"

text \<open>\<open>draw i\<close> is the \<open>i\<close>-th digit drawn by \<open>gen_range(0..10)\<close>.\<close>

definition generate_otp :: "(nat \<Rightarrow> nat) \<Rightarrow> nat \<Rightarrow> string" where
  "generate_otp draw len = concat (map (\<lambda>i. nat_str (draw i)) [0 ..< len])"

lemma digit_str: "n < 10 \<Longrightarrow> nat_str n = [char_of (48 + n)]"
  by (simp add: nat_str.simps)

lemma generate_otp_length: "\<forall>i. draw i < 10 \<Longrightarrow> length (generate_otp draw len) = len"
  by (induction len) (simp_all add: generate_otp_def digit_str)

lemma generate_otp_text:
  assumes "\<forall>i. draw i < 10"
  shows "rust_string (generate_otp draw len)"
proof -
  have "\<forall>b \<in> set (str_bytes (generate_otp draw len)). b < 128"
  proof
    fix b assume "b \<in> set (str_bytes (generate_otp draw len))"
    then obtain i where b: "b = of_nat (of_char (char_of (48 + draw i) :: char))"
      using assms by (auto simp: str_bytes_def generate_otp_def digit_str)
    have "draw i < 10" using assms by blast
    with b have "b = of_nat (48 + draw i)" by (simp del: of_nat_add)
    moreover have "unat (of_nat (48 + draw i) :: byte) < 128"
      using \<open>draw i < 10\<close> by (simp add: unat_of_nat del: of_nat_add)
    ultimately show "b < 128" by (simp add: word_less_nat_alt)
  qed
  then show ?thesis unfolding rust_string_def by (rule utf8_ascii)
qed

section \<open>The contract of one-time secrets\<close>

locale one_time_secret =
  fixes ready :: "'r \<Rightarrow> bool"
    and secret :: "'r \<Rightarrow> 's \<Rightarrow> string \<Rightarrow> string option"
    and readable :: "'r \<Rightarrow> 's \<Rightarrow> string \<Rightarrow> bool"
    and issue :: "'r \<Rightarrow> string \<Rightarrow> string \<Rightarrow> nat \<Rightarrow> ('s, unit) messaging"
    and redeem :: "'r \<Rightarrow> string \<Rightarrow> 'c \<Rightarrow> ('s, 'v) messaging"
    and answer :: "string option \<Rightarrow> 'c \<Rightarrow> 'v"
    and opens :: "string option \<Rightarrow> 'c \<Rightarrow> bool"
  assumes issue: "ready r \<Longrightarrow> 0 < ttl \<Longrightarrow> rust_string v \<Longrightarrow> \<exists>s'. issue r k v ttl s = (Ok (), s') \<and>
      secret r s' = (secret r s)(k \<mapsto> v) \<and> readable r s' k \<and> (\<forall>j. readable r s j \<longrightarrow> readable r s' j)"
    and redeem: "ready r \<Longrightarrow> readable r s k \<Longrightarrow> \<exists>s'. redeem r k c s = (Ok (answer (secret r s k) c), s') \<and>
      secret r s' = (if opens (secret r s k) c then (secret r s)(k := None) else secret r s) \<and>
      (\<forall>j. readable r s j \<longrightarrow> readable r s' j)"
    and nothing: "\<not> opens None c"
begin

text \<open>Redeeming with a list of attempts, one after the other.\<close>

primrec attempts :: "'r \<Rightarrow> string \<Rightarrow> 'c list \<Rightarrow> 's \<Rightarrow> 's" where
  "attempts r k [] s = s"
| "attempts r k (c # cs) s = attempts r k cs (snd (redeem r k c s))"

lemma attempts_secret:
  assumes "ready r"
  shows "readable r s k \<Longrightarrow> readable r (attempts r k cs s) k \<and>
    secret r (attempts r k cs s) k = (if \<exists>c \<in> set cs. opens (secret r s k) c then None else secret r s k)"
proof (induction cs arbitrary: s)
  case (Cons c cs)
  from redeem [OF assms Cons.prems, of c] obtain s' where s': "snd (redeem r k c s) = s'"
    "secret r s' k = (if opens (secret r s k) c then None else secret r s k)" "readable r s' k"
    using Cons.prems by force
  from Cons.IH [OF s'(3)] s'(1,2) nothing show ?case by auto
qed simp

lemma redeemed_once:
  assumes "ready r" and "readable r s k" and "c \<in> set cs" and "opens (secret r s k) c"
  shows "fst (redeem r k c' (attempts r k cs s)) = Ok (answer None c')"
proof -
  from attempts_secret [OF assms(1,2), of cs] assms(3,4)
  have "readable r (attempts r k cs s) k" "secret r (attempts r k cs s) k = None" by auto
  with redeem [OF assms(1), of "attempts r k cs s" k c'] show ?thesis by auto
qed

lemma wrong_attempts_keep:
  assumes "ready r" and "readable r s k" and "\<forall>c \<in> set cs. \<not> opens (secret r s k) c"
  shows "fst (redeem r k c' (attempts r k cs s)) = Ok (answer (secret r s k) c')"
proof -
  from attempts_secret [OF assms(1,2), of cs] assms(3)
  have "readable r (attempts r k cs s) k" "secret r (attempts r k cs s) k = secret r s k" by auto
  with redeem [OF assms(1), of "attempts r k cs s" k c'] show ?thesis by auto
qed

end

lemma stored_text:
  assumes "redis_good N R" and "0 < ttl" and "rust_string v"
  shows "\<exists>s'. cmd (r_set_ex R (p @ k) (str_bytes v) ttl) s = (Ok (), s') \<and>
    (\<lambda>j. text_at (r_look R s') (p @ j)) = (\<lambda>j. text_at (r_look R s) (p @ j))(k \<mapsto> v) \<and>
    texts (r_look R s') (p @ k) \<and> (\<forall>j. texts (r_look R s) (p @ j) \<longrightarrow> texts (r_look R s') (p @ j))"
proof -
  obtain s' where "r_set_ex R (p @ k) (str_bytes v) ttl s = (Ok (), s')"
    "r_look R s' = (r_look R s)(p @ k \<mapsto> (str_bytes v, Some ttl))"
    by (rule redis_set [OF assms(1,2)])
  with assms(3) show ?thesis by (auto simp: text_at_def texts_def rust_string_def fun_eq_iff)
qed

lemma deleted_text:
  assumes "redis_good N R"
  shows "\<exists>n s'. cmd (r_del R [p @ k]) s = (Ok n, s') \<and>
    (\<lambda>j. text_at (r_look R s') (p @ j)) = (\<lambda>j. text_at (r_look R s) (p @ j))(k := None) \<and>
    (\<forall>j. texts (r_look R s) (p @ j) \<longrightarrow> texts (r_look R s') (p @ j))"
proof -
  obtain s' where "r_del R [p @ k] s = (Ok (card (dom (r_look R s) \<inter> set [p @ k])), s')"
    "r_look R s' = (r_look R s) |` (- set [p @ k])"
    by (rule redis_del [OF assms])
  then show ?thesis by (auto simp: text_at_def texts_def restrict_map_def fun_eq_iff)
qed

definition opens_code :: "string option \<Rightarrow> string \<Rightarrow> bool" where
  "opens_code stored code \<longleftrightarrow> stored = Some code"

definition opens_token :: "string option \<Rightarrow> unit \<Rightarrow> bool" where
  "opens_token stored u \<longleftrightarrow> stored \<noteq> None"

interpretation codes: one_time_secret ready
  "\<lambda>r s k. text_at (r_look (snd r) s) (''otp:'' @ k)" "\<lambda>r s k. texts (r_look (snd r) s) (''otp:'' @ k)"
  "\<lambda>r. store_otp (snd r)" "\<lambda>r. verify_otp (snd r)" opens_code opens_code
proof
  fix r :: "nat \<times> 's redis" and ttl v k s
  assume "ready r" "0 < (ttl :: nat)" "rust_string v"
  then show "\<exists>s'. store_otp (snd r) k v ttl s = (Ok (), s') \<and>
      (\<lambda>k. text_at (r_look (snd r) s') (''otp:'' @ k)) = (\<lambda>k. text_at (r_look (snd r) s) (''otp:'' @ k))(k \<mapsto> v) \<and>
      texts (r_look (snd r) s') (''otp:'' @ k) \<and>
      (\<forall>j. texts (r_look (snd r) s) (''otp:'' @ j) \<longrightarrow> texts (r_look (snd r) s') (''otp:'' @ j))"
    using stored_text [of "fst r" "snd r" ttl v "''otp:''" k s] unfolding ready_def store_otp_def Let_def by blast
next
  fix r :: "nat \<times> 's redis" and k c s
  let ?k = "''otp:'' @ k" and ?L = "r_look (snd r)"
  assume R: "ready r" and t: "texts (?L s) ?k"
  then have G: "redis_good (fst r) (snd r)" by (simp add: ready_def)
  from get_string_run [OF G t] obtain s1 where g: "get_string (snd r) ?k s = (Ok (text_at (?L s) ?k), s1)"
    "?L s1 = ?L s" by blast
  from deleted_text [OF G, of "''otp:''" k s1] obtain n s2 where d: "cmd (r_del (snd r) [?k]) s1 = (Ok n, s2)"
    "(\<lambda>j. text_at (?L s2) (''otp:'' @ j)) = (\<lambda>j. text_at (?L s1) (''otp:'' @ j))(k := None)"
    "\<forall>j. texts (?L s1) (''otp:'' @ j) \<longrightarrow> texts (?L s2) (''otp:'' @ j)" by blast
  show "\<exists>s'. verify_otp (snd r) k c s = (Ok (opens_code (text_at (?L s) ?k) c), s') \<and>
      (\<lambda>k. text_at (?L s') (''otp:'' @ k)) =
        (if opens_code (text_at (?L s) ?k) c then (\<lambda>k. text_at (?L s) (''otp:'' @ k))(k := None)
         else (\<lambda>k. text_at (?L s) (''otp:'' @ k))) \<and>
      (\<forall>j. texts (?L s) (''otp:'' @ j) \<longrightarrow> texts (?L s') (''otp:'' @ j))"
  proof (cases "text_at (?L s) ?k = Some c")
    case True
    with g d show ?thesis by (intro exI [of _ s2]) (simp add: verify_otp_def Let_def bind_a_Ok opens_code_def)
  next
    case False
    with g show ?thesis
      by (intro exI [of _ s1]) (auto simp: verify_otp_def Let_def bind_a_Ok opens_code_def split: option.split)
  qed
qed (simp add: opens_code_def)

interpretation tokens: one_time_secret ready
  "\<lambda>r s k. text_at (r_look (snd r) s) (''otp_verified:'' @ k)"
  "\<lambda>r s k. texts (r_look (snd r) s) (''otp_verified:'' @ k)"
  "\<lambda>r. store_verification_token (snd r)" "\<lambda>r k _. validate_verification_token (snd r) k" "\<lambda>v _. v" opens_token
proof
  fix r :: "nat \<times> 's redis" and ttl v k s
  assume "ready r" "0 < (ttl :: nat)" "rust_string v"
  then show "\<exists>s'. store_verification_token (snd r) k v ttl s = (Ok (), s') \<and>
      (\<lambda>k. text_at (r_look (snd r) s') (''otp_verified:'' @ k)) =
        (\<lambda>k. text_at (r_look (snd r) s) (''otp_verified:'' @ k))(k \<mapsto> v) \<and>
      texts (r_look (snd r) s') (''otp_verified:'' @ k) \<and>
      (\<forall>j. texts (r_look (snd r) s) (''otp_verified:'' @ j) \<longrightarrow> texts (r_look (snd r) s') (''otp_verified:'' @ j))"
    using stored_text [of "fst r" "snd r" ttl v "''otp_verified:''" k s]
    unfolding ready_def store_verification_token_def Let_def by blast
next
  fix r :: "nat \<times> 's redis" and k s and c :: unit
  let ?k = "''otp_verified:'' @ k" and ?L = "r_look (snd r)"
  assume R: "ready r" and t: "texts (?L s) ?k"
  then have G: "redis_good (fst r) (snd r)" by (simp add: ready_def)
  from get_string_run [OF G t] obtain s1 where g: "get_string (snd r) ?k s = (Ok (text_at (?L s) ?k), s1)"
    "?L s1 = ?L s" by blast
  from deleted_text [OF G, of "''otp_verified:''" k s1] obtain n s2 where d: "cmd (r_del (snd r) [?k]) s1 = (Ok n, s2)"
    "(\<lambda>j. text_at (?L s2) (''otp_verified:'' @ j)) = (\<lambda>j. text_at (?L s1) (''otp_verified:'' @ j))(k := None)"
    "\<forall>j. texts (?L s1) (''otp_verified:'' @ j) \<longrightarrow> texts (?L s2) (''otp_verified:'' @ j)" by blast
  show "\<exists>s'. validate_verification_token (snd r) k s = (Ok (text_at (?L s) ?k), s') \<and>
      (\<lambda>k. text_at (?L s') (''otp_verified:'' @ k)) =
        (if opens_token (text_at (?L s) ?k) c then (\<lambda>k. text_at (?L s) (''otp_verified:'' @ k))(k := None)
         else (\<lambda>k. text_at (?L s) (''otp_verified:'' @ k))) \<and>
      (\<forall>j. texts (?L s) (''otp_verified:'' @ j) \<longrightarrow> texts (?L s') (''otp_verified:'' @ j))"
  proof (cases "text_at (?L s) ?k = None")
    case False
    with g d show ?thesis
      by (intro exI [of _ s2]) (simp add: validate_verification_token_def Let_def bind_a_Ok opens_token_def)
  next
    case True
    with g show ?thesis
      by (intro exI [of _ s1]) (simp add: validate_verification_token_def Let_def bind_a_Ok opens_token_def)
  qed
qed (simp add: opens_token_def)

section \<open>media_store.rs\<close>

record media_meta =
  mm_recipient_device_id :: string
  mm_duration_seconds :: u32
  mm_blob_size :: u64

text \<open>The \<open>json!\<close> text of the metadata and \<open>serde_json::from_str\<close> of it.\<close>

record 'a text_codec =
  to_text :: "'a \<Rightarrow> string"
  of_text :: "string \<Rightarrow> string + 'a"

definition text_codec_laws :: "'a text_codec \<Rightarrow> bool" where
  "text_codec_laws J \<longleftrightarrow> (\<forall>x. rust_string (to_text J x) \<and> of_text J (to_text J x) = Inr x)"

definition media_key :: "string \<Rightarrow> string" where
  "media_key media_id = ''media:'' @ media_id"

definition meta_key :: "string \<Rightarrow> string" where
  "meta_key media_id = ''media:'' @ media_id @ '':meta''"

lemma media_keys [simp]: "media_key i \<noteq> meta_key i" "meta_key i \<noteq> media_key i"
  "media_key i = media_key j \<longleftrightarrow> i = j" "meta_key i = meta_key j \<longleftrightarrow> i = j"
  by (simp_all add: media_key_def meta_key_def)

definition store_blob :: "'s redis \<Rightarrow> string \<Rightarrow> bytes \<Rightarrow> nat \<Rightarrow> ('s, unit) messaging" where
  "store_blob R media_id encrypted_blob ttl_seconds =
     cmd (r_set_ex R (media_key media_id) encrypted_blob ttl_seconds)"

definition store_meta ::
    "'s redis \<Rightarrow> media_meta text_codec \<Rightarrow> string \<Rightarrow> uuid \<Rightarrow> u32 \<Rightarrow> u64 \<Rightarrow> nat \<Rightarrow> ('s, unit) messaging" where
  "store_meta R J media_id recipient_device_id duration_seconds blob_size ttl_seconds =
     (let meta = \<lparr>mm_recipient_device_id = recipient_device_id, mm_duration_seconds = duration_seconds,
        mm_blob_size = blob_size\<rparr> in
      cmd (r_set_ex R (meta_key media_id) (str_bytes (to_text J meta)) ttl_seconds))"

definition retrieve_and_expire :: "'s redis \<Rightarrow> string \<Rightarrow> nat \<Rightarrow> ('s, bytes option) messaging" where
  "retrieve_and_expire R media_id seen_ttl_seconds =
     bind_a (cmd (r_get R (media_key media_id))) (\<lambda>blob.
     if blob \<noteq> None then
       bind_a (cmd (r_expire R (media_key media_id) seen_ttl_seconds)) (\<lambda>_.
       bind_a (cmd (r_expire R (meta_key media_id) seen_ttl_seconds)) (\<lambda>_.
       ret blob))
     else ret blob)"

definition retrieve :: "'s redis \<Rightarrow> string \<Rightarrow> ('s, bytes option) messaging" where
  "retrieve R media_id = cmd (r_get R (media_key media_id))"

definition get_meta :: "'s redis \<Rightarrow> media_meta text_codec \<Rightarrow> string \<Rightarrow> ('s, media_meta option) messaging" where
  "get_meta R J media_id =
     bind_a (cmd (get_string R (meta_key media_id))) (\<lambda>raw.
     case raw of
       Some json \<Rightarrow> bind_a (lift_o (of_sum MsgSerializationError (of_text J json))) (\<lambda>meta. ret (Some meta))
     | None \<Rightarrow> ret None)"

definition delete_blob :: "'s redis \<Rightarrow> string \<Rightarrow> ('s, bool) messaging" where
  "delete_blob R media_id =
     bind_a (cmd (r_del R [media_key media_id, meta_key media_id])) (\<lambda>deleted. ret (deleted > 0))"

section \<open>Runs of the media operations\<close>

lemma cmd_set_run:
  assumes "redis_good N R" and "0 < ttl"
  shows "\<exists>s'. cmd (r_set_ex R k v ttl) s = (Ok (), s') \<and> r_look R s' = (r_look R s)(k \<mapsto> (v, Some ttl))"
proof -
  obtain s' where "r_set_ex R k v ttl s = (Ok (), s')" "r_look R s' = (r_look R s)(k \<mapsto> (v, Some ttl))"
    by (rule redis_set [OF assms])
  then show ?thesis by simp
qed

lemma retrieve_and_expire_run:
  assumes G: "redis_good N R"
  shows "\<exists>s'. retrieve_and_expire R i t s = (Ok (map_option fst (r_look R s (media_key i))), s') \<and>
    r_look R s' = (if has (r_look R s) (media_key i)
      then set_ttl (set_ttl (r_look R s) (media_key i) t) (meta_key i) t else r_look R s)"
proof -
  obtain s1 where g: "r_get R (media_key i) s = (Ok (map_option fst (r_look R s (media_key i))), s1)"
    "r_look R s1 = r_look R s" by (rule redis_get [OF G])
  obtain s2 where e: "r_expire R (media_key i) t s1 = (Ok (has (r_look R s1) (media_key i)), s2)"
    "r_look R s2 = set_ttl (r_look R s1) (media_key i) t" by (rule redis_expire [OF G])
  obtain s3 where f: "r_expire R (meta_key i) t s2 = (Ok (has (r_look R s2) (meta_key i)), s3)"
    "r_look R s3 = set_ttl (r_look R s2) (meta_key i) t" by (rule redis_expire [OF G])
  show ?thesis using g e f by (auto simp: retrieve_and_expire_def bind_a_Ok has_def)
qed

lemma get_meta_run:
  assumes G: "redis_good N R" and L: "text_codec_laws J"
    and m: "r_look R s (meta_key i) = Some (str_bytes (to_text J m), t)"
  shows "\<exists>s'. get_meta R J i s = (Ok (Some m), s') \<and> r_look R s' = r_look R s"
proof -
  have "rust_string (to_text J m)" "of_text J (to_text J m) = Inr m"
    using L by (simp_all add: text_codec_laws_def)
  then have "texts (r_look R s) (meta_key i)" "text_at (r_look R s) (meta_key i) = Some (to_text J m)"
    using m by (simp_all add: texts_def text_at_def rust_string_def)
  with get_string_run [OF G this(1)] obtain s' where
    "get_string R (meta_key i) s = (Ok (Some (to_text J m)), s')" "r_look R s' = r_look R s" by auto
  with \<open>of_text J (to_text J m) = Inr m\<close> show ?thesis by (simp add: get_meta_def bind_a_Ok)
qed

lemma delete_blob_run:
  assumes G: "redis_good N R"
  shows "\<exists>s'. delete_blob R i s =
      (Ok (has (r_look R s) (media_key i) \<or> has (r_look R s) (meta_key i)), s') \<and>
    r_look R s' = r_look R s |` (- {media_key i, meta_key i})"
proof -
  obtain s' where d: "r_del R [media_key i, meta_key i] s =
      (Ok (card (dom (r_look R s) \<inter> set [media_key i, meta_key i])), s')"
    "r_look R s' = r_look R s |` (- set [media_key i, meta_key i])" by (rule redis_del [OF G])
  have "0 < card (dom (r_look R s) \<inter> {media_key i, meta_key i}) \<longleftrightarrow>
      has (r_look R s) (media_key i) \<or> has (r_look R s) (meta_key i)"
    by (auto simp: card_gt_0_iff has_def)
  with d show ?thesis by (simp add: delete_blob_def bind_a_Ok)
qed

end
