(* ===== verification/Database.thy ===== *)
theory Database
  imports Hysj_Prelude
begin

text \<open>
  crates/hysj-db: the rows of models.rs, the error conversion of lib.rs and the queries of users.rs, but
  for the deletion of a user, which is in \<open>Database_Extras\<close>. PostgreSQL is not part
  of the repository: a table is a list of rows, a statement of the code is a function on the tables,
  written from its SQL text and the constraints of migrations/ (primary keys, UNIQUE, foreign keys,
  VARCHAR lengths). A statement can also fail for reasons of its own: \<open>db_faults\<close> lists what becomes
  of the statements to come. Random ids and the clock are arguments.
\<close>

section \<open>models.rs\<close>

record user =
  u_id :: uuid
  u_username :: string
  u_phone_number :: string
  u_display_name :: "string option"
  u_password_hash :: string
  u_salt :: bytes
  u_identity_public_key :: bytes
  u_identity_dh_public_key :: bytes
  u_totp_secret :: "bytes option"
  u_has_2fa_enabled :: bool
  u_created_at :: int
  u_last_seen_at :: int
  u_avatar_url :: "string option"
  u_status :: string

record device =
  d_id :: uuid
  d_user_id :: uuid
  d_device_name :: string
  d_push_token :: "string option"
  d_signed_pre_key :: bytes
  d_signed_pre_key_sig :: bytes
  d_kyber_public_key :: bytes
  d_is_online :: bool
  d_last_active_at :: int
  d_registered_at :: int

record pre_key =
  pk_id :: nat
  pk_device_id :: uuid
  pk_public_key :: bytes
  pk_is_used :: bool
  pk_created_at :: int

record login_attempt =
  la_ip_address :: string
  la_user_id :: "uuid option"
  la_success :: bool
  la_attempted_at :: int

record group =
  g_id :: uuid
  g_name :: string
  g_creator_id :: uuid
  g_is_anonymous :: bool
  g_max_members :: nat
  g_created_at :: int

record group_member =
  gm_group_id :: uuid
  gm_user_id :: uuid
  gm_alias_name :: "string option"
  gm_alias_color :: "string option"
  gm_role :: string
  gm_joined_at :: int

record contact =
  co_user_id :: uuid
  co_contact_user_id :: uuid
  co_nickname :: "string option"
  co_is_blocked :: bool
  co_created_at :: int

record vpn_server =
  vs_id :: uuid
  vs_name :: string
  vs_country :: string
  vs_city :: "string option"
  vs_endpoint :: string
  vs_public_key :: string
  vs_is_active :: bool
  vs_max_connections :: int
  vs_current_connections :: int

record user_vpn_key =
  vk_user_id :: uuid
  vk_public_key :: string
  vk_private_key_encrypted :: bytes
  vk_created_at :: int

record vpn_session =
  vn_id :: uuid
  vn_user_id :: uuid
  vn_server_id :: uuid
  vn_client_public_key :: string
  vn_assigned_ip :: string
  vn_started_at :: int
  vn_ended_at :: "int option"
  vn_bytes_up :: int
  vn_bytes_down :: int

record emoji_pack =
  ep_id :: uuid
  ep_name :: string
  ep_description :: "string option"
  ep_creator_id :: "uuid option"
  ep_cover_image_url :: "string option"
  ep_is_premium :: bool
  ep_price_cents :: "int option"
  ep_is_active :: bool
  ep_created_at :: int

record emoji =
  em_id :: uuid
  em_pack_id :: uuid
  em_shortcode :: string
  em_image_url :: string
  em_is_animated :: bool
  em_created_at :: int

record user_emoji_pack =
  up_user_id :: uuid
  up_pack_id :: uuid
  up_purchased_at :: int

record contact_request =
  ctr_id :: uuid
  ctr_from_user_id :: uuid
  ctr_to_user_id :: uuid
  ctr_created_at :: int

record user_settings =
  us_user_id :: uuid
  us_read_receipts_enabled :: bool
  us_typing_indicators_enabled :: bool
  us_last_active_visible :: bool

record muted_chat =
  mc_user_id :: uuid
  mc_target_id :: uuid
  mc_created_at :: int

record pinned_message =
  pm_group_id :: uuid
  pm_message_id :: string
  pm_pinned_by :: uuid
  pm_pinned_at :: int

record relay_row =
  rl_id :: uuid
  rl_address :: string
  rl_public_key :: string
  rl_region :: string
  rl_is_active :: bool
  rl_load_percent :: int
  rl_created_at :: int
  rl_last_heartbeat_at :: int

record pre_key_bundle_data =
  pkb_identity_public_key :: bytes
  pkb_identity_dh_public_key :: bytes
  pkb_device_id :: uuid
  pkb_signed_pre_key :: bytes
  pkb_signed_pre_key_sig :: bytes
  pkb_one_time_pre_key :: "bytes option"
  pkb_kyber_public_key :: bytes

text \<open>The tables; \<open>t_next_pre_key\<close> is the sequence of the SERIAL column.\<close>

record tables =
  t_users :: "user list"
  t_devices :: "device list"
  t_pre_keys :: "pre_key list"
  t_next_pre_key :: nat
  t_login_attempts :: "login_attempt list"
  t_groups :: "group list"
  t_members :: "group_member list"
  t_pins :: "pinned_message list"
  t_contacts :: "contact list"
  t_requests :: "contact_request list"
  t_settings :: "user_settings list"
  t_muted :: "muted_chat list"
  t_vpn_servers :: "vpn_server list"
  t_vpn_keys :: "user_vpn_key list"
  t_vpn_sessions :: "vpn_session list"
  t_packs :: "emoji_pack list"
  t_emojis :: "emoji list"
  t_user_packs :: "user_emoji_pack list"
  t_relays :: "relay_row list"

definition no_tables :: tables where
  "no_tables = \<lparr>t_users = [], t_devices = [], t_pre_keys = [], t_next_pre_key = 1, t_login_attempts = [],
     t_groups = [], t_members = [], t_pins = [], t_contacts = [], t_requests = [], t_settings = [], t_muted = [],
     t_vpn_servers = [], t_vpn_keys = [], t_vpn_sessions = [], t_packs = [], t_emojis = [], t_user_packs = [],
     t_relays = []\<rparr>"

section \<open>lib.rs\<close>

text \<open>The cases of \<open>sqlx::Error\<close> the code tells apart; a database error has its SQLSTATE and message.\<close>

datatype sqlx_error =
    RowNotFound
  | DatabaseFailure string string
  | OtherFailure string

fun sqlx_error_str :: "sqlx_error \<Rightarrow> string" where
  "sqlx_error_str RowNotFound = ''no rows returned by a query that expected to return at least one row''"
| "sqlx_error_str (DatabaseFailure code msg) = ''error returned from database: '' @ msg"
| "sqlx_error_str (OtherFailure msg) = msg"

datatype db_error = QueryFailed string | DbNotFound | Conflict string

fun db_error_str :: "db_error \<Rightarrow> string" where
  "db_error_str (QueryFailed e) = ''query failed: '' @ e"
| "db_error_str DbNotFound = ''record not found''"
| "db_error_str (Conflict e) = ''conflict: '' @ e"

fun from_sqlx :: "sqlx_error \<Rightarrow> db_error" where
  "from_sqlx RowNotFound = DbNotFound"
| "from_sqlx (DatabaseFailure code msg) =
     (if code = ''23505'' then Conflict msg else QueryFailed (sqlx_error_str (DatabaseFailure code msg)))"
| "from_sqlx (OtherFailure msg) = QueryFailed (sqlx_error_str (OtherFailure msg))"

section \<open>Running statements\<close>

text \<open>What becomes of a statement: it runs, it is not run, or it runs and its reply is lost.\<close>

datatype sql_fault = NoFault | NotRun sqlx_error | ReplyLost sqlx_error

record database =
  db_tables :: tables
  db_faults :: "sql_fault list"

type_synonym 'a stmt = "(tables, sqlx_error, 'a) act"
type_synonym 'a query = "(database, db_error, 'a) act"

definition sql :: "'a stmt \<Rightarrow> 'a query" where
  "sql q d =
     (let later = tl (db_faults d); (r, t) = q (db_tables d) in
      case (case db_faults d of [] \<Rightarrow> NoFault | f # _ \<Rightarrow> f) of
        NoFault \<Rightarrow> (map_err from_sqlx r, \<lparr>db_tables = t, db_faults = later\<rparr>)
      | NotRun e \<Rightarrow> (Err (from_sqlx e), d\<lparr>db_faults := later\<rparr>)
      | ReplyLost e \<Rightarrow> (Err (from_sqlx e), \<lparr>db_tables = t, db_faults = later\<rparr>))"

lemma sql_clean:
  "db_faults d = [] \<Longrightarrow> sql q d = (map_err from_sqlx (fst (q (db_tables d))), d\<lparr>db_tables := snd (q (db_tables d))\<rparr>)"
  by (cases d) (simp add: sql_def Let_def case_prod_beta)

definition fetch_one :: "'a list \<Rightarrow> 'a stmt" where
  "fetch_one rows = (case rows of [] \<Rightarrow> throw RowNotFound | r # _ \<Rightarrow> ret r)"

definition fetch_optional :: "'a list \<Rightarrow> 'a option stmt" where
  "fetch_optional rows = ret (case rows of [] \<Rightarrow> None | r # _ \<Rightarrow> Some r)"

definition unique_violation :: "string \<Rightarrow> 'a stmt" where
  "unique_violation constraint =
     throw (DatabaseFailure ''23505'' (''duplicate key value violates unique constraint '' @ constraint))"

definition foreign_violation :: "string \<Rightarrow> 'a stmt" where
  "foreign_violation constraint =
     throw (DatabaseFailure ''23503'' (''violates foreign key constraint '' @ constraint))"

definition too_long :: "'a stmt" where
  "too_long = throw (DatabaseFailure ''22001'' ''value too long for type character varying'')"

text \<open>UPDATE of the rows that satisfy a condition; the number of rows affected.\<close>

definition update_where :: "('r \<Rightarrow> bool) \<Rightarrow> ('r \<Rightarrow> 'r) \<Rightarrow> 'r list \<Rightarrow> 'r list" where
  "update_where p f rows = map (\<lambda>r. if p r then f r else r) rows"

definition affected :: "('r \<Rightarrow> bool) \<Rightarrow> 'r list \<Rightarrow> nat" where
  "affected p rows = length (filter p rows)"

text \<open>ORDER BY: a stable sort by a key.\<close>

definition order_by :: "('r \<Rightarrow> int) \<Rightarrow> 'r list \<Rightarrow> 'r list" where
  "order_by key rows = sort_key key rows"

definition rows_or_not_found :: "nat \<Rightarrow> unit query" where
  "rows_or_not_found n = (if n = 0 then throw DbNotFound else ret ())"

text \<open>LIMIT and OFFSET.\<close>

definition paged :: "int \<Rightarrow> int \<Rightarrow> 'r list \<Rightarrow> 'r list stmt" where
  "paged limit offset rows =
     (if offset < 0 then throw (DatabaseFailure ''2201X'' ''OFFSET must not be negative'')
      else if limit < 0 then throw (DatabaseFailure ''2201W'' ''LIMIT must not be negative'')
      else ret (take (nat limit) (drop (nat offset) rows)))"

section \<open>users.rs\<close>

definition user_exists :: "tables \<Rightarrow> uuid \<Rightarrow> bool" where
  "user_exists t i \<longleftrightarrow> i \<in> u_id ` set (t_users t)"

definition insert_user :: "user \<Rightarrow> user stmt" where
  "insert_user u t =
     (if char_count (u_username u) > 32 \<or> char_count (u_phone_number u) > 20 then too_long t
      else if user_exists t (u_id u) then unique_violation ''users_pkey'' t
      else if u_username u \<in> u_username ` set (t_users t) then unique_violation ''users_username_key'' t
      else if u_phone_number u \<in> u_phone_number ` set (t_users t) then unique_violation ''users_phone_number_key'' t
      else (Ok u, t\<lparr>t_users := t_users t @ [u]\<rparr>))"

definition create_user ::
    "uuid \<Rightarrow> int \<Rightarrow> string \<Rightarrow> string \<Rightarrow> string \<Rightarrow> bytes \<Rightarrow> bytes \<Rightarrow> bytes \<Rightarrow> user query" where
  "create_user new_id now username phone_number password_hash salt identity_public_key identity_dh_public_key =
     sql (insert_user
       \<lparr>u_id = new_id, u_username = username, u_phone_number = phone_number, u_display_name = None,
        u_password_hash = password_hash, u_salt = salt, u_identity_public_key = identity_public_key,
        u_identity_dh_public_key = identity_dh_public_key, u_totp_secret = None, u_has_2fa_enabled = False,
        u_created_at = now, u_last_seen_at = now, u_avatar_url = None, u_status = ''online''\<rparr>)"

definition find_user_by_id :: "uuid \<Rightarrow> user option query" where
  "find_user_by_id i = sql (\<lambda>t. fetch_optional (filter (\<lambda>u. u_id u = i) (t_users t)) t)"

definition find_by_username :: "string \<Rightarrow> user option query" where
  "find_by_username n = sql (\<lambda>t. fetch_optional (filter (\<lambda>u. u_username u = n) (t_users t)) t)"

definition find_by_phone_number :: "string \<Rightarrow> user option query" where
  "find_by_phone_number n = sql (\<lambda>t. fetch_optional (filter (\<lambda>u. u_phone_number u = n) (t_users t)) t)"

text \<open>\<open>UPDATE users SET ... WHERE id = $1\<close> and the check that a row was found.\<close>

definition update_user :: "(user \<Rightarrow> user) \<Rightarrow> uuid \<Rightarrow> nat stmt" where
  "update_user f i t =
     (Ok (affected (\<lambda>u. u_id u = i) (t_users t)), t\<lparr>t_users := update_where (\<lambda>u. u_id u = i) f (t_users t)\<rparr>)"

definition update_last_seen :: "int \<Rightarrow> uuid \<Rightarrow> unit query" where
  "update_last_seen now i = bind_a (sql (update_user (\<lambda>u. u\<lparr>u_last_seen_at := now\<rparr>) i)) rows_or_not_found"

definition enable_2fa :: "uuid \<Rightarrow> bytes \<Rightarrow> unit query" where
  "enable_2fa i totp_secret =
     bind_a (sql (update_user (\<lambda>u. u\<lparr>u_totp_secret := Some totp_secret, u_has_2fa_enabled := True\<rparr>) i)) rows_or_not_found"

definition db_disable_2fa :: "uuid \<Rightarrow> unit query" where
  "db_disable_2fa i =
     bind_a (sql (update_user (\<lambda>u. u\<lparr>u_totp_secret := None, u_has_2fa_enabled := False\<rparr>) i)) rows_or_not_found"

definition update_username :: "uuid \<Rightarrow> string \<Rightarrow> nat stmt" where
  "update_username i n t =
     (if affected (\<lambda>u. u_id u = i) (t_users t) = 0 then (Ok 0, t)
      else if char_count n > 32 then too_long t
      else if \<exists>u \<in> set (t_users t). u_id u \<noteq> i \<and> u_username u = n then unique_violation ''users_username_key'' t
      else update_user (\<lambda>u. u\<lparr>u_username := n\<rparr>) i t)"

definition db_set_username :: "uuid \<Rightarrow> string \<Rightarrow> unit query" where
  "db_set_username i username = bind_a (sql (update_username i username)) rows_or_not_found"

definition db_set_display_name :: "uuid \<Rightarrow> string \<Rightarrow> unit query" where
  "db_set_display_name i display_name =
     bind_a (sql (update_user (\<lambda>u. u\<lparr>u_display_name := Some display_name\<rparr>) i)) rows_or_not_found"

definition db_set_avatar :: "uuid \<Rightarrow> string option \<Rightarrow> unit query" where
  "db_set_avatar i avatar_url =
     bind_a (sql (update_user (\<lambda>u. u\<lparr>u_avatar_url := avatar_url\<rparr>) i)) rows_or_not_found"

definition update_status :: "uuid \<Rightarrow> string \<Rightarrow> nat stmt" where
  "update_status i status t =
     (if affected (\<lambda>u. u_id u = i) (t_users t) > 0 \<and> char_count status > 16 then too_long t
      else update_user (\<lambda>u. u\<lparr>u_status := status\<rparr>) i t)"

definition db_set_status :: "uuid \<Rightarrow> string \<Rightarrow> unit query" where
  "db_set_status i status = bind_a (sql (update_status i status)) rows_or_not_found"

definition is_username_available :: "string \<Rightarrow> bool query" where
  "is_username_available n =
     bind_a (sql (\<lambda>t. (Ok (affected (\<lambda>u. u_username u = n) (t_users t)), t))) (\<lambda>count. ret (count = 0))"

end
