(* ===== verification/Database_Queries.thy ===== *)
theory Database_Queries
  imports Database
begin

text \<open>
  The queries of crates/hysj-db on devices (devices.rs), pre-keys (keys.rs), login attempts
  (login_attempts.rs), groups (groups.rs) and pinned messages (pinned_messages.rs). The id column of
  login_attempts is not read by the code and is left out of its rows.
\<close>

section \<open>devices.rs\<close>

definition device_exists :: "tables \<Rightarrow> uuid \<Rightarrow> bool" where
  "device_exists t i \<longleftrightarrow> i \<in> d_id ` set (t_devices t)"

definition insert_device :: "device \<Rightarrow> device stmt" where
  "insert_device d t =
     (if char_count (d_device_name d) > 64 then too_long t
      else if device_exists t (d_id d) then unique_violation ''devices_pkey'' t
      else if \<not> user_exists t (d_user_id d) then foreign_violation ''devices_user_id_fkey'' t
      else (Ok d, t\<lparr>t_devices := t_devices t @ [d]\<rparr>))"

definition register_device ::
    "uuid \<Rightarrow> int \<Rightarrow> uuid \<Rightarrow> string \<Rightarrow> bytes \<Rightarrow> bytes \<Rightarrow> bytes \<Rightarrow> device query" where
  "register_device new_id now user_id device_name signed_pre_key signed_pre_key_sig kyber_public_key =
     sql (insert_device
       \<lparr>d_id = new_id, d_user_id = user_id, d_device_name = device_name, d_push_token = None,
        d_signed_pre_key = signed_pre_key, d_signed_pre_key_sig = signed_pre_key_sig,
        d_kyber_public_key = kyber_public_key, d_is_online = False, d_last_active_at = now,
        d_registered_at = now\<rparr>)"

definition find_device_by_id :: "uuid \<Rightarrow> device query" where
  "find_device_by_id i = sql (\<lambda>t. fetch_one (filter (\<lambda>d. d_id d = i) (t_devices t)) t)"

definition list_by_user :: "uuid \<Rightarrow> device list query" where
  "list_by_user user_id =
     sql (\<lambda>t. (Ok (order_by d_registered_at (filter (\<lambda>d. d_user_id d = user_id) (t_devices t))), t))"

text \<open>DELETE with the cascade to the device's pre-keys.\<close>

definition drop_device :: "uuid \<Rightarrow> uuid \<Rightarrow> nat stmt" where
  "drop_device device_id user_id t =
     (let gone = (\<lambda>d. d_id d = device_id \<and> d_user_id d = user_id) in
      (Ok (affected gone (t_devices t)),
       t\<lparr>t_devices := filter (\<lambda>d. \<not> gone d) (t_devices t),
         t_pre_keys := filter (\<lambda>k. pk_device_id k \<notin> d_id ` set (filter gone (t_devices t))) (t_pre_keys t)\<rparr>))"

definition db_delete_device :: "uuid \<Rightarrow> uuid \<Rightarrow> bool query" where
  "db_delete_device device_id user_id = bind_a (sql (drop_device device_id user_id)) (\<lambda>n. ret (n > 0))"

definition update_device :: "(device \<Rightarrow> device) \<Rightarrow> uuid \<Rightarrow> unit stmt" where
  "update_device f i t = (Ok (), t\<lparr>t_devices := update_where (\<lambda>d. d_id d = i) f (t_devices t)\<rparr>)"

definition set_online :: "int \<Rightarrow> uuid \<Rightarrow> bool \<Rightarrow> unit query" where
  "set_online now device_id online =
     sql (update_device (\<lambda>d. d\<lparr>d_is_online := online, d_last_active_at := now\<rparr>) device_id)"

definition update_push_token :: "uuid \<Rightarrow> string \<Rightarrow> unit query" where
  "update_push_token device_id push_token =
     sql (update_device (\<lambda>d. d\<lparr>d_push_token := Some push_token\<rparr>) device_id)"

definition list_by_users :: "uuid list \<Rightarrow> device list query" where
  "list_by_users user_ids =
     sql (\<lambda>t. (Ok (order_by d_registered_at (filter (\<lambda>d. d_user_id d \<in> set user_ids) (t_devices t))), t))"

definition find_one_device_for_user :: "uuid \<Rightarrow> device query" where
  "find_one_device_for_user user_id =
     sql (\<lambda>t. fetch_one (order_by (\<lambda>d. - d_last_active_at d) (filter (\<lambda>d. d_user_id d = user_id) (t_devices t))) t)"

section \<open>keys.rs\<close>

text \<open>The sequence of the SERIAL column advances even when the row is then refused.\<close>

definition insert_pre_key :: "int \<Rightarrow> uuid \<Rightarrow> bytes \<Rightarrow> unit stmt" where
  "insert_pre_key now device_id key t =
     (let t' = t\<lparr>t_next_pre_key := Suc (t_next_pre_key t)\<rparr> in
      if \<not> device_exists t device_id then foreign_violation ''pre_keys_device_id_fkey'' t'
      else (Ok (), t'\<lparr>t_pre_keys := t_pre_keys t @
        [\<lparr>pk_id = t_next_pre_key t, pk_device_id = device_id, pk_public_key = key, pk_is_used = False,
          pk_created_at = now\<rparr>]\<rparr>))"

fun store_pre_keys_loop :: "int \<Rightarrow> uuid \<Rightarrow> bytes list \<Rightarrow> nat \<Rightarrow> nat query" where
  "store_pre_keys_loop now device_id [] count = ret count"
| "store_pre_keys_loop now device_id (key # keys) count =
     bind_a (sql (insert_pre_key now device_id key)) (\<lambda>_. store_pre_keys_loop now device_id keys (count + 1))"

definition store_pre_keys :: "int \<Rightarrow> uuid \<Rightarrow> bytes list \<Rightarrow> nat query" where
  "store_pre_keys now device_id public_keys = store_pre_keys_loop now device_id public_keys 0"

definition unused_of :: "uuid \<Rightarrow> pre_key \<Rightarrow> bool" where
  "unused_of device_id k \<longleftrightarrow> pk_device_id k = device_id \<and> \<not> pk_is_used k"

definition claim_pre_key :: "uuid \<Rightarrow> pre_key option stmt" where
  "claim_pre_key device_id t =
     (case sort_key pk_id (filter (unused_of device_id) (t_pre_keys t)) of
        [] \<Rightarrow> (Ok None, t)
      | k # _ \<Rightarrow>
          (Ok (Some (k\<lparr>pk_is_used := True\<rparr>)),
           t\<lparr>t_pre_keys := update_where (\<lambda>r. pk_id r = pk_id k) (\<lambda>r. r\<lparr>pk_is_used := True\<rparr>) (t_pre_keys t)\<rparr>))"

definition claim_one_time_pre_key :: "uuid \<Rightarrow> pre_key option query" where
  "claim_one_time_pre_key device_id = sql (claim_pre_key device_id)"

definition count_available_pre_keys :: "uuid \<Rightarrow> nat query" where
  "count_available_pre_keys device_id = sql (\<lambda>t. (Ok (affected (unused_of device_id) (t_pre_keys t)), t))"

definition get_pre_key_bundle :: "uuid \<Rightarrow> pre_key_bundle_data query" where
  "get_pre_key_bundle user_id =
     bind_a (sql (\<lambda>t. fetch_one
       (map (\<lambda>u. (u_identity_public_key u, u_identity_dh_public_key u)) (filter (\<lambda>u. u_id u = user_id) (t_users t))) t))
       (\<lambda>user_row.
     bind_a (find_one_device_for_user user_id) (\<lambda>device.
     bind_a (claim_one_time_pre_key (d_id device)) (\<lambda>otpk.
     ret \<lparr>pkb_identity_public_key = fst user_row, pkb_identity_dh_public_key = snd user_row,
          pkb_device_id = d_id device, pkb_signed_pre_key = d_signed_pre_key device,
          pkb_signed_pre_key_sig = d_signed_pre_key_sig device,
          pkb_one_time_pre_key = map_option pk_public_key otpk,
          pkb_kyber_public_key = d_kyber_public_key device\<rparr>)))"

section \<open>login\_attempts.rs\<close>

definition insert_attempt :: "login_attempt \<Rightarrow> unit stmt" where
  "insert_attempt a t =
     (if char_count (la_ip_address a) > 45 then too_long t
      else case la_user_id a of
        Some u \<Rightarrow>
          if user_exists t u then (Ok (), t\<lparr>t_login_attempts := t_login_attempts t @ [a]\<rparr>)
          else foreign_violation ''login_attempts_user_id_fkey'' t
      | None \<Rightarrow> (Ok (), t\<lparr>t_login_attempts := t_login_attempts t @ [a]\<rparr>))"

definition record_attempt :: "int \<Rightarrow> string \<Rightarrow> uuid option \<Rightarrow> bool \<Rightarrow> unit query" where
  "record_attempt now ip_address user_id success =
     sql (insert_attempt \<lparr>la_ip_address = ip_address, la_user_id = user_id, la_success = success, la_attempted_at = now\<rparr>)"

definition count_recent_failures :: "int \<Rightarrow> string \<Rightarrow> nat \<Rightarrow> nat query" where
  "count_recent_failures now ip_address window_seconds =
     (let cutoff = now - int window_seconds in
      sql (\<lambda>t. (Ok (affected (\<lambda>a. la_ip_address a = ip_address \<and> \<not> la_success a \<and> la_attempted_at a > cutoff)
        (t_login_attempts t)), t)))"

definition is_locked_out :: "int \<Rightarrow> string \<Rightarrow> nat \<Rightarrow> nat \<Rightarrow> bool query" where
  "is_locked_out now ip_address max_failures window_seconds =
     bind_a (count_recent_failures now ip_address window_seconds) (\<lambda>count. ret (count \<ge> max_failures))"

section \<open>groups.rs\<close>

definition group_exists :: "tables \<Rightarrow> uuid \<Rightarrow> bool" where
  "group_exists t i \<longleftrightarrow> i \<in> g_id ` set (t_groups t)"

definition in_group :: "uuid \<Rightarrow> uuid \<Rightarrow> group_member \<Rightarrow> bool" where
  "in_group group_id user_id m \<longleftrightarrow> gm_group_id m = group_id \<and> gm_user_id m = user_id"

definition insert_group :: "group \<Rightarrow> group stmt" where
  "insert_group g t =
     (if char_count (g_name g) > 64 then too_long t
      else if group_exists t (g_id g) then unique_violation ''groups_pkey'' t
      else if \<not> user_exists t (g_creator_id g) then foreign_violation ''groups_creator_id_fkey'' t
      else (Ok g, t\<lparr>t_groups := t_groups t @ [g]\<rparr>))"

definition db_create_group :: "uuid \<Rightarrow> int \<Rightarrow> string \<Rightarrow> uuid \<Rightarrow> bool \<Rightarrow> group query" where
  "db_create_group new_id now name creator_id is_anonymous =
     sql (insert_group \<lparr>g_id = new_id, g_name = name, g_creator_id = creator_id, g_is_anonymous = is_anonymous,
       g_max_members = 50, g_created_at = now\<rparr>)"

definition insert_member :: "group_member \<Rightarrow> group_member stmt" where
  "insert_member m t =
     (if char_count (gm_role m) > 16 then too_long t
      else if list_ex (in_group (gm_group_id m) (gm_user_id m)) (t_members t) then unique_violation ''group_members_pkey'' t
      else if \<not> group_exists t (gm_group_id m) then foreign_violation ''group_members_group_id_fkey'' t
      else if \<not> user_exists t (gm_user_id m) then foreign_violation ''group_members_user_id_fkey'' t
      else (Ok m, t\<lparr>t_members := t_members t @ [m]\<rparr>))"

definition db_add_member :: "int \<Rightarrow> uuid \<Rightarrow> uuid \<Rightarrow> string \<Rightarrow> group_member query" where
  "db_add_member now group_id user_id role =
     sql (insert_member \<lparr>gm_group_id = group_id, gm_user_id = user_id, gm_alias_name = None, gm_alias_color = None,
       gm_role = role, gm_joined_at = now\<rparr>)"

definition db_remove_member :: "uuid \<Rightarrow> uuid \<Rightarrow> bool query" where
  "db_remove_member group_id user_id =
     bind_a (sql (\<lambda>t. (Ok (affected (in_group group_id user_id) (t_members t)),
       t\<lparr>t_members := filter (\<lambda>m. \<not> in_group group_id user_id m) (t_members t)\<rparr>))) (\<lambda>n. ret (n > 0))"

definition find_group_by_id :: "uuid \<Rightarrow> group query" where
  "find_group_by_id group_id = sql (\<lambda>t. fetch_one (filter (\<lambda>g. g_id g = group_id) (t_groups t)) t)"

definition groups_of :: "uuid \<Rightarrow> tables \<Rightarrow> group list" where
  "groups_of user_id t =
     order_by (\<lambda>g. - g_created_at g)
       (concat (map (\<lambda>g. map (\<lambda>_. g) (filter (in_group (g_id g) user_id) (t_members t))) (t_groups t)))"

definition list_groups_for_user :: "uuid \<Rightarrow> group list query" where
  "list_groups_for_user user_id = sql (\<lambda>t. (Ok (groups_of user_id t), t))"

definition list_groups_for_user_paginated :: "uuid \<Rightarrow> int \<Rightarrow> int \<Rightarrow> group list query" where
  "list_groups_for_user_paginated user_id limit offset =
     sql (\<lambda>t. paged limit offset (groups_of user_id t) t)"

definition get_members :: "uuid \<Rightarrow> group_member list query" where
  "get_members group_id =
     sql (\<lambda>t. (Ok (order_by gm_joined_at (filter (\<lambda>m. gm_group_id m = group_id) (t_members t))), t))"

definition get_member_role :: "uuid \<Rightarrow> uuid \<Rightarrow> string option query" where
  "get_member_role group_id user_id =
     bind_a (sql (\<lambda>t. fetch_optional (map gm_role (filter (in_group group_id user_id) (t_members t))) t)) (\<lambda>row. ret row)"

text \<open>The second statement takes the group's members and pinned messages with it.\<close>

definition drop_group :: "uuid \<Rightarrow> nat stmt" where
  "drop_group group_id t =
     (Ok (affected (\<lambda>g. g_id g = group_id) (t_groups t)),
      if group_exists t group_id then
        t\<lparr>t_groups := filter (\<lambda>g. g_id g \<noteq> group_id) (t_groups t),
          t_members := filter (\<lambda>m. gm_group_id m \<noteq> group_id) (t_members t),
          t_pins := filter (\<lambda>p. pm_group_id p \<noteq> group_id) (t_pins t)\<rparr>
      else t)"

definition db_delete_group :: "uuid \<Rightarrow> bool query" where
  "db_delete_group group_id =
     bind_a (sql (\<lambda>t. (Ok (), t\<lparr>t_members := filter (\<lambda>m. gm_group_id m \<noteq> group_id) (t_members t)\<rparr>))) (\<lambda>_.
     bind_a (sql (drop_group group_id)) (\<lambda>n. ret (n > 0)))"

definition rename_group :: "uuid \<Rightarrow> string \<Rightarrow> nat stmt" where
  "rename_group group_id name t =
     (if group_exists t group_id \<and> char_count name > 64 then too_long t
      else (Ok (affected (\<lambda>g. g_id g = group_id) (t_groups t)),
        t\<lparr>t_groups := update_where (\<lambda>g. g_id g = group_id) (\<lambda>g. g\<lparr>g_name := name\<rparr>) (t_groups t)\<rparr>))"

definition update_group_name :: "uuid \<Rightarrow> string \<Rightarrow> unit query" where
  "update_group_name group_id name = bind_a (sql (rename_group group_id name)) rows_or_not_found"

definition is_member :: "uuid \<Rightarrow> uuid \<Rightarrow> bool query" where
  "is_member group_id user_id =
     bind_a (sql (\<lambda>t. (Ok (affected (in_group group_id user_id) (t_members t)), t))) (\<lambda>n. ret (n > 0))"

section \<open>pinned\_messages.rs\<close>

text \<open>ON CONFLICT DO NOTHING: a message already pinned gives no row back.\<close>

definition insert_pin :: "pinned_message \<Rightarrow> pinned_message stmt" where
  "insert_pin p t =
     (if list_ex (\<lambda>q. pm_group_id q = pm_group_id p \<and> pm_message_id q = pm_message_id p) (t_pins t) then fetch_one [] t
      else if \<not> group_exists t (pm_group_id p) then foreign_violation ''pinned_messages_group_id_fkey'' t
      else if \<not> user_exists t (pm_pinned_by p) then foreign_violation ''pinned_messages_pinned_by_fkey'' t
      else fetch_one [p] (t\<lparr>t_pins := t_pins t @ [p]\<rparr>))"

definition pin :: "int \<Rightarrow> uuid \<Rightarrow> string \<Rightarrow> uuid \<Rightarrow> pinned_message query" where
  "pin now group_id message_id pinned_by =
     sql (insert_pin \<lparr>pm_group_id = group_id, pm_message_id = message_id, pm_pinned_by = pinned_by, pm_pinned_at = now\<rparr>)"

definition unpin :: "uuid \<Rightarrow> string \<Rightarrow> unit query" where
  "unpin group_id message_id =
     sql (\<lambda>t. (Ok (), t\<lparr>t_pins := filter (\<lambda>p. \<not> (pm_group_id p = group_id \<and> pm_message_id p = message_id)) (t_pins t)\<rparr>))"

definition get_pinned :: "uuid \<Rightarrow> pinned_message list query" where
  "get_pinned group_id =
     sql (\<lambda>t. (Ok (order_by (\<lambda>p. - pm_pinned_at p) (filter (\<lambda>p. pm_group_id p = group_id) (t_pins t))), t))"

end
