(* ===== verification/Database_Social.thy ===== *)
theory Database_Social
  imports Database_Queries
begin

text \<open>
  The queries of crates/hysj-db on contacts (contacts.rs), contact requests (contact_requests.rs) and
  settings (settings.rs). Rows without an ORDER BY come in the order of insertion.
\<close>

section \<open>contacts.rs\<close>

definition is_contact :: "uuid \<Rightarrow> uuid \<Rightarrow> contact \<Rightarrow> bool" where
  "is_contact user_id contact_user_id c \<longleftrightarrow> co_user_id c = user_id \<and> co_contact_user_id c = contact_user_id"

definition insert_contact :: "contact \<Rightarrow> contact stmt" where
  "insert_contact c t =
     (if list_ex (is_contact (co_user_id c) (co_contact_user_id c)) (t_contacts t) then unique_violation ''contacts_pkey'' t
      else if \<not> user_exists t (co_user_id c) then foreign_violation ''contacts_user_id_fkey'' t
      else if \<not> user_exists t (co_contact_user_id c) then foreign_violation ''contacts_contact_user_id_fkey'' t
      else (Ok c, t\<lparr>t_contacts := t_contacts t @ [c]\<rparr>))"

definition db_add_contact :: "int \<Rightarrow> uuid \<Rightarrow> uuid \<Rightarrow> contact query" where
  "db_add_contact now user_id contact_user_id =
     sql (insert_contact \<lparr>co_user_id = user_id, co_contact_user_id = contact_user_id, co_nickname = None,
       co_is_blocked = False, co_created_at = now\<rparr>)"

definition update_contact :: "(contact \<Rightarrow> contact) \<Rightarrow> uuid \<Rightarrow> uuid \<Rightarrow> nat stmt" where
  "update_contact f user_id contact_user_id t =
     (Ok (affected (is_contact user_id contact_user_id) (t_contacts t)),
      t\<lparr>t_contacts := update_where (is_contact user_id contact_user_id) f (t_contacts t)\<rparr>)"

definition db_set_nickname :: "uuid \<Rightarrow> uuid \<Rightarrow> string option \<Rightarrow> unit query" where
  "db_set_nickname user_id contact_user_id nickname =
     bind_a (sql (update_contact (\<lambda>c. c\<lparr>co_nickname := nickname\<rparr>) user_id contact_user_id)) rows_or_not_found"

text \<open>INSERT .. ON CONFLICT DO UPDATE\<close>

definition upsert_blocked :: "int \<Rightarrow> uuid \<Rightarrow> uuid \<Rightarrow> unit stmt" where
  "upsert_blocked now user_id contact_user_id t =
     (if list_ex (is_contact user_id contact_user_id) (t_contacts t)
      then (Ok (), snd (update_contact (\<lambda>c. c\<lparr>co_is_blocked := True\<rparr>) user_id contact_user_id t))
      else bind_a (insert_contact \<lparr>co_user_id = user_id, co_contact_user_id = contact_user_id, co_nickname = None,
        co_is_blocked = True, co_created_at = now\<rparr>) (\<lambda>_. ret ()) t)"

definition db_block_contact :: "int \<Rightarrow> uuid \<Rightarrow> uuid \<Rightarrow> unit query" where
  "db_block_contact now user_id contact_user_id = sql (upsert_blocked now user_id contact_user_id)"

definition db_unblock_contact :: "uuid \<Rightarrow> uuid \<Rightarrow> unit query" where
  "db_unblock_contact user_id contact_user_id =
     bind_a (sql (update_contact (\<lambda>c. c\<lparr>co_is_blocked := False\<rparr>) user_id contact_user_id)) rows_or_not_found"

definition contacts_of :: "uuid \<Rightarrow> tables \<Rightarrow> contact list" where
  "contacts_of user_id t = order_by co_created_at (filter (\<lambda>c. co_user_id c = user_id) (t_contacts t))"

definition get_contacts :: "uuid \<Rightarrow> contact list query" where
  "get_contacts user_id = sql (\<lambda>t. (Ok (contacts_of user_id t), t))"

definition get_contacts_paginated :: "uuid \<Rightarrow> int \<Rightarrow> int \<Rightarrow> contact list query" where
  "get_contacts_paginated user_id limit offset = sql (\<lambda>t. paged limit offset (contacts_of user_id t) t)"

definition get_contact :: "uuid \<Rightarrow> uuid \<Rightarrow> contact option query" where
  "get_contact user_id contact_user_id =
     sql (\<lambda>t. fetch_optional (filter (is_contact user_id contact_user_id) (t_contacts t)) t)"

definition drop_contact :: "uuid \<Rightarrow> uuid \<Rightarrow> nat stmt" where
  "drop_contact user_id contact_user_id t =
     (Ok (affected (is_contact user_id contact_user_id) (t_contacts t)),
      t\<lparr>t_contacts := filter (\<lambda>c. \<not> is_contact user_id contact_user_id c) (t_contacts t)\<rparr>)"

definition db_remove_contact :: "uuid \<Rightarrow> uuid \<Rightarrow> unit query" where
  "db_remove_contact user_id contact_user_id = bind_a (sql (drop_contact user_id contact_user_id)) rows_or_not_found"

section \<open>contact\_requests.rs\<close>

definition insert_request :: "contact_request \<Rightarrow> contact_request stmt" where
  "insert_request r t =
     (if ctr_id r \<in> ctr_id ` set (t_requests t) then unique_violation ''contact_requests_pkey'' t
      else if list_ex (\<lambda>q. ctr_from_user_id q = ctr_from_user_id r \<and> ctr_to_user_id q = ctr_to_user_id r) (t_requests t)
        then unique_violation ''contact_requests_from_user_id_to_user_id_key'' t
      else if \<not> user_exists t (ctr_from_user_id r) then foreign_violation ''contact_requests_from_user_id_fkey'' t
      else if \<not> user_exists t (ctr_to_user_id r) then foreign_violation ''contact_requests_to_user_id_fkey'' t
      else (Ok r, t\<lparr>t_requests := t_requests t @ [r]\<rparr>))"

text \<open>Id and time of a request are the defaults of their columns.\<close>

definition db_send_request :: "uuid \<Rightarrow> int \<Rightarrow> uuid \<Rightarrow> uuid \<Rightarrow> contact_request query" where
  "db_send_request new_id now from_user_id to_user_id =
     sql (insert_request \<lparr>ctr_id = new_id, ctr_from_user_id = from_user_id, ctr_to_user_id = to_user_id, ctr_created_at = now\<rparr>)"

definition pending_of :: "uuid \<Rightarrow> tables \<Rightarrow> contact_request list" where
  "pending_of user_id t = order_by (\<lambda>r. - ctr_created_at r) (filter (\<lambda>r. ctr_to_user_id r = user_id) (t_requests t))"

definition get_pending :: "uuid \<Rightarrow> contact_request list query" where
  "get_pending user_id = sql (\<lambda>t. (Ok (pending_of user_id t), t))"

definition get_pending_paginated :: "uuid \<Rightarrow> int \<Rightarrow> int \<Rightarrow> contact_request list query" where
  "get_pending_paginated user_id limit offset = sql (\<lambda>t. paged limit offset (pending_of user_id t) t)"

definition get_sent :: "uuid \<Rightarrow> contact_request list query" where
  "get_sent user_id =
     sql (\<lambda>t. (Ok (order_by (\<lambda>r. - ctr_created_at r) (filter (\<lambda>r. ctr_from_user_id r = user_id) (t_requests t))), t))"

definition request_to :: "uuid \<Rightarrow> uuid \<Rightarrow> contact_request \<Rightarrow> bool" where
  "request_to request_id user_id r \<longleftrightarrow> ctr_id r = request_id \<and> ctr_to_user_id r = user_id"

definition drop_request :: "uuid \<Rightarrow> uuid \<Rightarrow> contact_request list stmt" where
  "drop_request request_id user_id t =
     (Ok (filter (request_to request_id user_id) (t_requests t)),
      t\<lparr>t_requests := filter (\<lambda>r. \<not> request_to request_id user_id r) (t_requests t)\<rparr>)"

text \<open>DELETE .. RETURNING, of which one row is fetched.\<close>

definition db_accept :: "uuid \<Rightarrow> uuid \<Rightarrow> contact_request query" where
  "db_accept request_id user_id = sql (bind_a (drop_request request_id user_id) fetch_one)"

definition db_reject :: "uuid \<Rightarrow> uuid \<Rightarrow> unit query" where
  "db_reject request_id user_id =
     bind_a (sql (drop_request request_id user_id)) (\<lambda>rows. rows_or_not_found (length rows))"

section \<open>settings.rs\<close>

text \<open>
  \<open>get_or_create\<close> sends two statements in one query with a bound parameter. Bound parameters need a prepared
  statement, and PostgreSQL prepares single statements only.
\<close>

definition get_or_create :: "uuid \<Rightarrow> user_settings query" where
  "get_or_create user_id =
     sql (throw (DatabaseFailure ''42601'' ''cannot insert multiple commands into a prepared statement''))"

definition ensure_settings :: "uuid \<Rightarrow> unit stmt" where
  "ensure_settings user_id t =
     (if user_id \<in> us_user_id ` set (t_settings t) then (Ok (), t)
      else if \<not> user_exists t user_id then foreign_violation ''user_settings_user_id_fkey'' t
      else (Ok (), t\<lparr>t_settings := t_settings t @ [\<lparr>us_user_id = user_id, us_read_receipts_enabled = True,
        us_typing_indicators_enabled = True, us_last_active_visible = True\<rparr>]\<rparr>))"

definition set_setting :: "uuid \<Rightarrow> (bool \<Rightarrow> user_settings \<Rightarrow> user_settings) \<Rightarrow> bool option \<Rightarrow> unit query" where
  "set_setting user_id f v =
     (case v of
        None \<Rightarrow> ret ()
      | Some b \<Rightarrow> sql (\<lambda>t. (Ok (), t\<lparr>t_settings := update_where (\<lambda>s. us_user_id s = user_id) (f b) (t_settings t)\<rparr>)))"

definition db_update_settings :: "uuid \<Rightarrow> bool option \<Rightarrow> bool option \<Rightarrow> bool option \<Rightarrow> user_settings query" where
  "db_update_settings user_id read_receipts typing_indicators last_active_visible =
     bind_a (sql (ensure_settings user_id)) (\<lambda>_.
     bind_a (set_setting user_id (\<lambda>b s. s\<lparr>us_read_receipts_enabled := b\<rparr>) read_receipts) (\<lambda>_.
     bind_a (set_setting user_id (\<lambda>b s. s\<lparr>us_typing_indicators_enabled := b\<rparr>) typing_indicators) (\<lambda>_.
     bind_a (set_setting user_id (\<lambda>b s. s\<lparr>us_last_active_visible := b\<rparr>) last_active_visible) (\<lambda>_.
     sql (\<lambda>t. fetch_one (filter (\<lambda>s. us_user_id s = user_id) (t_settings t)) t)))))"

definition is_muted :: "uuid \<Rightarrow> uuid \<Rightarrow> muted_chat \<Rightarrow> bool" where
  "is_muted user_id target_id m \<longleftrightarrow> mc_user_id m = user_id \<and> mc_target_id m = target_id"

definition insert_muted :: "muted_chat \<Rightarrow> unit stmt" where
  "insert_muted m t =
     (if list_ex (is_muted (mc_user_id m) (mc_target_id m)) (t_muted t) then (Ok (), t)
      else if \<not> user_exists t (mc_user_id m) then foreign_violation ''muted_chats_user_id_fkey'' t
      else (Ok (), t\<lparr>t_muted := t_muted t @ [m]\<rparr>))"

definition db_mute_chat :: "int \<Rightarrow> uuid \<Rightarrow> uuid \<Rightarrow> unit query" where
  "db_mute_chat now user_id target_id =
     sql (insert_muted \<lparr>mc_user_id = user_id, mc_target_id = target_id, mc_created_at = now\<rparr>)"

definition db_unmute_chat :: "uuid \<Rightarrow> uuid \<Rightarrow> unit query" where
  "db_unmute_chat user_id target_id =
     sql (\<lambda>t. (Ok (), t\<lparr>t_muted := filter (\<lambda>m. \<not> is_muted user_id target_id m) (t_muted t)\<rparr>))"

definition get_muted_chats :: "uuid \<Rightarrow> muted_chat list query" where
  "get_muted_chats user_id = sql (\<lambda>t. (Ok (filter (\<lambda>m. mc_user_id m = user_id) (t_muted t)), t))"

definition get_muted_chats_paginated :: "uuid \<Rightarrow> int \<Rightarrow> int \<Rightarrow> muted_chat list query" where
  "get_muted_chats_paginated user_id limit offset =
     sql (\<lambda>t. paged limit offset (filter (\<lambda>m. mc_user_id m = user_id) (t_muted t)) t)"

end
