(* ===== verification/Database_Extras.thy ===== *)
theory Database_Extras
  imports Database_Social "HOL-Library.Char_ord" "HOL-Library.List_Lexorder" "HOL-Library.Product_Lexorder"
begin

text \<open>
  The queries of crates/hysj-db on VPN servers, keys and sessions (vpn.rs), emojis (emojis.rs) and relay
  nodes (relay.rs), and the deletion of a user with its cascade through every table (users.rs).
\<close>

section \<open>The order of nullable texts\<close>

text \<open>ORDER BY sorts texts, here by their bytes, and puts NULL last.\<close>

datatype sql_text = SqlText string | SqlNull

instantiation sql_text :: linorder
begin

definition less_eq_sql_text :: "sql_text \<Rightarrow> sql_text \<Rightarrow> bool" where
  "less_eq_sql_text x y \<longleftrightarrow> (case (x, y) of
      (_, SqlNull) \<Rightarrow> True
    | (SqlNull, SqlText _) \<Rightarrow> False
    | (SqlText s, SqlText t) \<Rightarrow> s \<le> t)"

definition less_sql_text :: "sql_text \<Rightarrow> sql_text \<Rightarrow> bool" where
  "less_sql_text x y \<longleftrightarrow> x \<le> y \<and> \<not> y \<le> x"

instance
  by standard (auto simp: less_eq_sql_text_def less_sql_text_def split: sql_text.splits)

end

definition sql_text_of :: "string option \<Rightarrow> sql_text" where
  "sql_text_of v = (case v of Some s \<Rightarrow> SqlText s | None \<Rightarrow> SqlNull)"

section \<open>vpn.rs\<close>

definition active_servers :: "tables \<Rightarrow> vpn_server list" where
  "active_servers t =
     sort_key (\<lambda>s. (SqlText (vs_country s), sql_text_of (vs_city s))) (filter vs_is_active (t_vpn_servers t))"

definition db_list_servers :: "vpn_server list query" where
  "db_list_servers = sql (\<lambda>t. (Ok (active_servers t), t))"

definition insert_session :: "vpn_session \<Rightarrow> vpn_session stmt" where
  "insert_session s t =
     (if vn_id s \<in> vn_id ` set (t_vpn_sessions t) then unique_violation ''vpn_sessions_pkey'' t
      else if \<not> user_exists t (vn_user_id s) then foreign_violation ''vpn_sessions_user_id_fkey'' t
      else if vn_server_id s \<notin> vs_id ` set (t_vpn_servers t) then foreign_violation ''vpn_sessions_server_id_fkey'' t
      else (Ok s, t\<lparr>t_vpn_sessions := t_vpn_sessions t @ [s]\<rparr>))"

text \<open>\<open>current_connections\<close> is a 32-bit INT.\<close>

definition update_connections :: "(int \<Rightarrow> int) \<Rightarrow> uuid set \<Rightarrow> unit stmt" where
  "update_connections f ids t =
     (if \<exists>s \<in> set (t_vpn_servers t). vs_id s \<in> ids \<and> f (vs_current_connections s) > 2147483647
      then throw (DatabaseFailure ''22003'' ''integer out of range'') t
      else (Ok (), t\<lparr>t_vpn_servers := update_where (\<lambda>s. vs_id s \<in> ids)
        (\<lambda>s. s\<lparr>vs_current_connections := f (vs_current_connections s)\<rparr>) (t_vpn_servers t)\<rparr>))"

definition create_session :: "uuid \<Rightarrow> int \<Rightarrow> uuid \<Rightarrow> uuid \<Rightarrow> string \<Rightarrow> string \<Rightarrow> vpn_session query" where
  "create_session new_id now user_id server_id client_public_key assigned_ip =
     bind_a (sql (insert_session \<lparr>vn_id = new_id, vn_user_id = user_id, vn_server_id = server_id,
       vn_client_public_key = client_public_key, vn_assigned_ip = assigned_ip, vn_started_at = now, vn_ended_at = None,
       vn_bytes_up = 0, vn_bytes_down = 0\<rparr>)) (\<lambda>session.
     bind_a (sql (update_connections (\<lambda>n. n + 1) {server_id})) (\<lambda>_.
     ret session))"

definition open_session :: "vpn_session \<Rightarrow> bool" where
  "open_session s \<longleftrightarrow> vn_ended_at s = None"

definition close_session :: "int \<Rightarrow> uuid \<Rightarrow> nat stmt" where
  "close_session now session_id t =
     (let p = (\<lambda>s. vn_id s = session_id \<and> open_session s) in
      (Ok (affected p (t_vpn_sessions t)),
       t\<lparr>t_vpn_sessions := update_where p (\<lambda>s. s\<lparr>vn_ended_at := Some now\<rparr>) (t_vpn_sessions t)\<rparr>))"

definition leave_server :: "uuid \<Rightarrow> unit stmt" where
  "leave_server session_id t =
     update_connections (\<lambda>n. max (n - 1) 0) (vn_server_id ` {s \<in> set (t_vpn_sessions t). vn_id s = session_id}) t"

definition end_session :: "int \<Rightarrow> uuid \<Rightarrow> unit query" where
  "end_session now session_id =
     bind_a (sql (close_session now session_id)) (\<lambda>n.
     bind_a (rows_or_not_found n) (\<lambda>_.
     sql (leave_server session_id)))"

definition get_active_session :: "uuid \<Rightarrow> vpn_session option query" where
  "get_active_session user_id =
     sql (\<lambda>t. fetch_optional (order_by (\<lambda>s. - vn_started_at s)
       (filter (\<lambda>s. vn_user_id s = user_id \<and> open_session s) (t_vpn_sessions t))) t)"

definition upsert_vpn_key :: "user_vpn_key \<Rightarrow> unit stmt" where
  "upsert_vpn_key k t =
     (if vk_user_id k \<in> vk_user_id ` set (t_vpn_keys t)
      then (Ok (), t\<lparr>t_vpn_keys := update_where (\<lambda>j. vk_user_id j = vk_user_id k) (\<lambda>_. k) (t_vpn_keys t)\<rparr>)
      else if \<not> user_exists t (vk_user_id k) then foreign_violation ''user_vpn_keys_user_id_fkey'' t
      else (Ok (), t\<lparr>t_vpn_keys := t_vpn_keys t @ [k]\<rparr>))"

definition store_vpn_keys :: "int \<Rightarrow> uuid \<Rightarrow> string \<Rightarrow> bytes \<Rightarrow> unit query" where
  "store_vpn_keys now user_id public_key private_key_encrypted =
     sql (upsert_vpn_key \<lparr>vk_user_id = user_id, vk_public_key = public_key,
       vk_private_key_encrypted = private_key_encrypted, vk_created_at = now\<rparr>)"

definition count_sessions :: "uuid \<Rightarrow> nat query" where
  "count_sessions server_id =
     sql (\<lambda>t. (Ok (affected (\<lambda>s. vn_server_id s = server_id \<and> open_session s) (t_vpn_sessions t)), t))"

definition get_vpn_keys :: "uuid \<Rightarrow> user_vpn_key option query" where
  "get_vpn_keys user_id = sql (\<lambda>t. fetch_optional (filter (\<lambda>k. vk_user_id k = user_id) (t_vpn_keys t)) t)"

section \<open>emojis.rs\<close>

definition pack_exists :: "tables \<Rightarrow> uuid \<Rightarrow> bool" where
  "pack_exists t i \<longleftrightarrow> i \<in> ep_id ` set (t_packs t)"

definition insert_pack :: "emoji_pack \<Rightarrow> emoji_pack stmt" where
  "insert_pack p t =
     (if pack_exists t (ep_id p) then unique_violation ''emoji_packs_pkey'' t
      else if (case ep_creator_id p of Some u \<Rightarrow> \<not> user_exists t u | None \<Rightarrow> False)
        then foreign_violation ''emoji_packs_creator_id_fkey'' t
      else (Ok p, t\<lparr>t_packs := t_packs t @ [p]\<rparr>))"

definition db_create_pack ::
    "uuid \<Rightarrow> int \<Rightarrow> string \<Rightarrow> string option \<Rightarrow> uuid option \<Rightarrow> bool \<Rightarrow> int option \<Rightarrow> emoji_pack query" where
  "db_create_pack new_id now name description creator_id is_premium price_cents =
     sql (insert_pack \<lparr>ep_id = new_id, ep_name = name, ep_description = description, ep_creator_id = creator_id,
       ep_cover_image_url = None, ep_is_premium = is_premium, ep_price_cents = price_cents, ep_is_active = True,
       ep_created_at = now\<rparr>)"

definition db_list_packs :: "emoji_pack list query" where
  "db_list_packs = sql (\<lambda>t. (Ok (order_by (\<lambda>p. - ep_created_at p) (filter ep_is_active (t_packs t))), t))"

definition db_get_pack :: "uuid \<Rightarrow> emoji_pack option query" where
  "db_get_pack pack_id = sql (\<lambda>t. fetch_optional (filter (\<lambda>p. ep_id p = pack_id) (t_packs t)) t)"

definition get_pack_emojis :: "uuid \<Rightarrow> emoji list query" where
  "get_pack_emojis pack_id =
     sql (\<lambda>t. (Ok (sort_key em_shortcode (filter (\<lambda>e. em_pack_id e = pack_id) (t_emojis t))), t))"

definition insert_emoji :: "emoji \<Rightarrow> emoji stmt" where
  "insert_emoji e t =
     (if em_id e \<in> em_id ` set (t_emojis t) then unique_violation ''emojis_pkey'' t
      else if list_ex (\<lambda>f. em_pack_id f = em_pack_id e \<and> em_shortcode f = em_shortcode e) (t_emojis t)
        then unique_violation ''emojis_pack_id_shortcode_key'' t
      else if \<not> pack_exists t (em_pack_id e) then foreign_violation ''emojis_pack_id_fkey'' t
      else (Ok e, t\<lparr>t_emojis := t_emojis t @ [e]\<rparr>))"

definition db_add_emoji :: "uuid \<Rightarrow> int \<Rightarrow> uuid \<Rightarrow> string \<Rightarrow> string \<Rightarrow> bool \<Rightarrow> emoji query" where
  "db_add_emoji new_id now pack_id shortcode image_url is_animated =
     sql (insert_emoji \<lparr>em_id = new_id, em_pack_id = pack_id, em_shortcode = shortcode, em_image_url = image_url,
       em_is_animated = is_animated, em_created_at = now\<rparr>)"

definition owns_pack :: "uuid \<Rightarrow> uuid \<Rightarrow> user_emoji_pack \<Rightarrow> bool" where
  "owns_pack user_id pack_id p \<longleftrightarrow> up_user_id p = user_id \<and> up_pack_id p = pack_id"

definition insert_user_pack :: "user_emoji_pack \<Rightarrow> unit stmt" where
  "insert_user_pack p t =
     (if list_ex (owns_pack (up_user_id p) (up_pack_id p)) (t_user_packs t) then (Ok (), t)
      else if \<not> user_exists t (up_user_id p) then foreign_violation ''user_emoji_packs_user_id_fkey'' t
      else if \<not> pack_exists t (up_pack_id p) then foreign_violation ''user_emoji_packs_pack_id_fkey'' t
      else (Ok (), t\<lparr>t_user_packs := t_user_packs t @ [p]\<rparr>))"

definition db_purchase_pack :: "int \<Rightarrow> uuid \<Rightarrow> uuid \<Rightarrow> unit query" where
  "db_purchase_pack now user_id pack_id =
     sql (insert_user_pack \<lparr>up_user_id = user_id, up_pack_id = pack_id, up_purchased_at = now\<rparr>)"

definition get_user_packs :: "uuid \<Rightarrow> emoji_pack list query" where
  "get_user_packs user_id =
     sql (\<lambda>t. (Ok (concat (map (\<lambda>u. filter (\<lambda>p. ep_id p = up_pack_id u) (t_packs t))
       (order_by (\<lambda>u. - up_purchased_at u) (filter (\<lambda>u. up_user_id u = user_id) (t_user_packs t))))), t))"

definition has_pack :: "uuid \<Rightarrow> uuid \<Rightarrow> bool query" where
  "has_pack user_id pack_id =
     bind_a (sql (\<lambda>t. (Ok (affected (owns_pack user_id pack_id) (t_user_packs t)), t))) (\<lambda>n. ret (n > 0))"

section \<open>relay.rs\<close>

definition list_active_nodes :: "relay_row list query" where
  "list_active_nodes = sql (\<lambda>t. (Ok (order_by rl_load_percent (filter rl_is_active (t_relays t))), t))"

section \<open>delete\_user\<close>

text \<open>
  The rows that refer to a user, and those that refer to these, go with it; its login attempts lose their
  user. The creator of an emoji pack cannot be deleted: that reference has no cascade.
\<close>

definition without_user :: "uuid \<Rightarrow> tables \<Rightarrow> tables" where
  "without_user i t =
     (let devices = d_id ` {d \<in> set (t_devices t). d_user_id d = i};
          groups = g_id ` {g \<in> set (t_groups t). g_creator_id g = i} in
      t\<lparr>t_users := filter (\<lambda>u. u_id u \<noteq> i) (t_users t),
        t_devices := filter (\<lambda>d. d_user_id d \<noteq> i) (t_devices t),
        t_pre_keys := filter (\<lambda>k. pk_device_id k \<notin> devices) (t_pre_keys t),
        t_login_attempts := update_where (\<lambda>a. la_user_id a = Some i) (\<lambda>a. a\<lparr>la_user_id := None\<rparr>) (t_login_attempts t),
        t_groups := filter (\<lambda>g. g_creator_id g \<noteq> i) (t_groups t),
        t_members := filter (\<lambda>m. gm_user_id m \<noteq> i \<and> gm_group_id m \<notin> groups) (t_members t),
        t_pins := filter (\<lambda>p. pm_pinned_by p \<noteq> i \<and> pm_group_id p \<notin> groups) (t_pins t),
        t_contacts := filter (\<lambda>c. co_user_id c \<noteq> i \<and> co_contact_user_id c \<noteq> i) (t_contacts t),
        t_requests := filter (\<lambda>r. ctr_from_user_id r \<noteq> i \<and> ctr_to_user_id r \<noteq> i) (t_requests t),
        t_settings := filter (\<lambda>s. us_user_id s \<noteq> i) (t_settings t),
        t_muted := filter (\<lambda>m. mc_user_id m \<noteq> i) (t_muted t),
        t_vpn_keys := filter (\<lambda>k. vk_user_id k \<noteq> i) (t_vpn_keys t),
        t_vpn_sessions := filter (\<lambda>s. vn_user_id s \<noteq> i) (t_vpn_sessions t),
        t_user_packs := filter (\<lambda>p. up_user_id p \<noteq> i) (t_user_packs t)\<rparr>)"

definition drop_user :: "uuid \<Rightarrow> nat stmt" where
  "drop_user i t =
     (if \<not> user_exists t i then (Ok 0, t)
      else if Some i \<in> ep_creator_id ` set (t_packs t) then foreign_violation ''emoji_packs_creator_id_fkey'' t
      else (Ok (affected (\<lambda>u. u_id u = i) (t_users t)), without_user i t))"

definition delete_user :: "uuid \<Rightarrow> unit query" where
  "delete_user i = bind_a (sql (drop_user i)) rows_or_not_found"

end
