(* ===== verification/Table_Invariants.thy ===== *)
theory Table_Invariants
  imports Database_Extras
begin

text \<open>
  What a predicate on the tables has to promise of the single statements so that every query keeps it,
  whatever statements fail: the locale \<open>table_invariant\<close>. It is interpreted twice: keys are unique and
  references resolve (\<open>tables_ok\<close>), and texts fit their columns (\<open>rows_fit\<close>).
\<close>

section \<open>The invariant\<close>

definition users_ok :: "user list \<Rightarrow> bool" where
  "users_ok us \<longleftrightarrow> distinct (map u_id us) \<and> distinct (map u_username us) \<and> distinct (map u_phone_number us)"

definition devices_ok :: "uuid set \<Rightarrow> device list \<Rightarrow> bool" where
  "devices_ok U ds \<longleftrightarrow> distinct (map d_id ds) \<and> d_user_id ` set ds \<subseteq> U"

definition pre_keys_ok :: "uuid set \<Rightarrow> nat \<Rightarrow> pre_key list \<Rightarrow> bool" where
  "pre_keys_ok D n ks \<longleftrightarrow> distinct (map pk_id ks) \<and> (\<forall>i \<in> pk_id ` set ks. i < n) \<and> pk_device_id ` set ks \<subseteq> D"

definition groups_ok :: "uuid set \<Rightarrow> group list \<Rightarrow> bool" where
  "groups_ok U gs \<longleftrightarrow> distinct (map g_id gs) \<and> g_creator_id ` set gs \<subseteq> U"

definition members_ok :: "uuid set \<Rightarrow> uuid set \<Rightarrow> group_member list \<Rightarrow> bool" where
  "members_ok U G ms \<longleftrightarrow> distinct (map (\<lambda>m. (gm_group_id m, gm_user_id m)) ms) \<and>
     gm_group_id ` set ms \<subseteq> G \<and> gm_user_id ` set ms \<subseteq> U"

definition pins_ok :: "uuid set \<Rightarrow> uuid set \<Rightarrow> pinned_message list \<Rightarrow> bool" where
  "pins_ok U G ps \<longleftrightarrow> distinct (map (\<lambda>p. (pm_group_id p, pm_message_id p)) ps) \<and>
     pm_group_id ` set ps \<subseteq> G \<and> pm_pinned_by ` set ps \<subseteq> U"

definition attempts_ok :: "uuid set \<Rightarrow> login_attempt list \<Rightarrow> bool" where
  "attempts_ok U as \<longleftrightarrow> la_user_id ` set as \<subseteq> insert None (Some ` U)"

definition contacts_ok :: "uuid set \<Rightarrow> contact list \<Rightarrow> bool" where
  "contacts_ok U cs \<longleftrightarrow> distinct (map (\<lambda>c. (co_user_id c, co_contact_user_id c)) cs) \<and>
     co_user_id ` set cs \<subseteq> U \<and> co_contact_user_id ` set cs \<subseteq> U"

definition requests_ok :: "uuid set \<Rightarrow> contact_request list \<Rightarrow> bool" where
  "requests_ok U rs \<longleftrightarrow> distinct (map ctr_id rs) \<and> distinct (map (\<lambda>r. (ctr_from_user_id r, ctr_to_user_id r)) rs) \<and>
     ctr_from_user_id ` set rs \<subseteq> U \<and> ctr_to_user_id ` set rs \<subseteq> U"

definition settings_ok :: "uuid set \<Rightarrow> user_settings list \<Rightarrow> bool" where
  "settings_ok U ss \<longleftrightarrow> distinct (map us_user_id ss) \<and> us_user_id ` set ss \<subseteq> U"

definition muted_ok :: "uuid set \<Rightarrow> muted_chat list \<Rightarrow> bool" where
  "muted_ok U ms \<longleftrightarrow> distinct (map (\<lambda>m. (mc_user_id m, mc_target_id m)) ms) \<and> mc_user_id ` set ms \<subseteq> U"

definition vpn_keys_ok :: "uuid set \<Rightarrow> user_vpn_key list \<Rightarrow> bool" where
  "vpn_keys_ok U ks \<longleftrightarrow> distinct (map vk_user_id ks) \<and> vk_user_id ` set ks \<subseteq> U"

definition sessions_ok :: "uuid set \<Rightarrow> uuid set \<Rightarrow> vpn_session list \<Rightarrow> bool" where
  "sessions_ok U S ss \<longleftrightarrow> distinct (map vn_id ss) \<and> vn_user_id ` set ss \<subseteq> U \<and> vn_server_id ` set ss \<subseteq> S"

definition packs_ok :: "uuid set \<Rightarrow> emoji_pack list \<Rightarrow> bool" where
  "packs_ok U ps \<longleftrightarrow> distinct (map ep_id ps) \<and> ep_creator_id ` set ps \<subseteq> insert None (Some ` U)"

definition emojis_ok :: "uuid set \<Rightarrow> emoji list \<Rightarrow> bool" where
  "emojis_ok P es \<longleftrightarrow> distinct (map em_id es) \<and> distinct (map (\<lambda>e. (em_pack_id e, em_shortcode e)) es) \<and>
     em_pack_id ` set es \<subseteq> P"

definition user_packs_ok :: "uuid set \<Rightarrow> uuid set \<Rightarrow> user_emoji_pack list \<Rightarrow> bool" where
  "user_packs_ok U P us \<longleftrightarrow> distinct (map (\<lambda>u. (up_user_id u, up_pack_id u)) us) \<and>
     up_user_id ` set us \<subseteq> U \<and> up_pack_id ` set us \<subseteq> P"

text \<open>The tables that refer to users but not to devices or groups.\<close>

definition extras_ok :: "uuid set \<Rightarrow> tables \<Rightarrow> bool" where
  "extras_ok U t \<longleftrightarrow> contacts_ok U (t_contacts t) \<and> requests_ok U (t_requests t) \<and> settings_ok U (t_settings t) \<and>
     muted_ok U (t_muted t) \<and> vpn_keys_ok U (t_vpn_keys t) \<and>
     sessions_ok U (vs_id ` set (t_vpn_servers t)) (t_vpn_sessions t) \<and> packs_ok U (t_packs t) \<and>
     emojis_ok (ep_id ` set (t_packs t)) (t_emojis t) \<and> user_packs_ok U (ep_id ` set (t_packs t)) (t_user_packs t)"

definition tables_ok :: "tables \<Rightarrow> bool" where
  "tables_ok t \<longleftrightarrow> users_ok (t_users t) \<and> devices_ok (u_id ` set (t_users t)) (t_devices t) \<and>
     pre_keys_ok (d_id ` set (t_devices t)) (t_next_pre_key t) (t_pre_keys t) \<and>
     groups_ok (u_id ` set (t_users t)) (t_groups t) \<and>
     members_ok (u_id ` set (t_users t)) (g_id ` set (t_groups t)) (t_members t) \<and>
     pins_ok (u_id ` set (t_users t)) (g_id ` set (t_groups t)) (t_pins t) \<and>
     attempts_ok (u_id ` set (t_users t)) (t_login_attempts t) \<and> extras_ok (u_id ` set (t_users t)) t"

definition db_ok :: "database \<Rightarrow> bool" where
  "db_ok d \<longleftrightarrow> tables_ok (db_tables d)"

lemmas part_defs = users_ok_def devices_ok_def pre_keys_ok_def groups_ok_def members_ok_def pins_ok_def attempts_ok_def

lemmas extras_defs = contacts_ok_def requests_ok_def settings_ok_def muted_ok_def vpn_keys_ok_def sessions_ok_def
  packs_ok_def emojis_ok_def user_packs_ok_def

lemma no_tables_ok [simp]: "tables_ok no_tables"
  by (simp add: tables_ok_def part_defs extras_ok_def extras_defs no_tables_def)

text \<open>More rows to refer to never hurt.\<close>

lemma part_mono:
  "devices_ok U ds \<Longrightarrow> U \<subseteq> U' \<Longrightarrow> devices_ok U' ds"
  "pre_keys_ok D n ks \<Longrightarrow> D \<subseteq> D' \<Longrightarrow> n \<le> n' \<Longrightarrow> pre_keys_ok D' n' ks"
  "groups_ok U gs \<Longrightarrow> U \<subseteq> U' \<Longrightarrow> groups_ok U' gs"
  "members_ok U G ms \<Longrightarrow> U \<subseteq> U' \<Longrightarrow> G \<subseteq> G' \<Longrightarrow> members_ok U' G' ms"
  "pins_ok U G ps \<Longrightarrow> U \<subseteq> U' \<Longrightarrow> G \<subseteq> G' \<Longrightarrow> pins_ok U' G' ps"
  "attempts_ok U as \<Longrightarrow> U \<subseteq> U' \<Longrightarrow> attempts_ok U' as"
proof -
  show "pre_keys_ok D n ks \<Longrightarrow> D \<subseteq> D' \<Longrightarrow> n \<le> n' \<Longrightarrow> pre_keys_ok D' n' ks"
    unfolding pre_keys_ok_def by (meson order_less_le_trans subset_trans)
qed (auto simp: part_defs)

lemma extras_mono:
  assumes "extras_ok U t" and "U \<subseteq> U'"
  shows "extras_ok U' t"
proof -
  have "insert None (Some ` U) \<subseteq> insert None (Some ` U')" using assms(2) by auto
  with assms show ?thesis unfolding extras_ok_def extras_defs by (meson subset_trans)
qed

text \<open>The other tables do not matter to them.\<close>

lemma extras_parts [simp]:
  "extras_ok U (t\<lparr>t_users := a\<rparr>) = extras_ok U t" "extras_ok U (t\<lparr>t_devices := b\<rparr>) = extras_ok U t"
  "extras_ok U (t\<lparr>t_pre_keys := c\<rparr>) = extras_ok U t" "extras_ok U (t\<lparr>t_next_pre_key := d\<rparr>) = extras_ok U t"
  "extras_ok U (t\<lparr>t_login_attempts := e\<rparr>) = extras_ok U t" "extras_ok U (t\<lparr>t_groups := f\<rparr>) = extras_ok U t"
  "extras_ok U (t\<lparr>t_members := g\<rparr>) = extras_ok U t" "extras_ok U (t\<lparr>t_pins := h\<rparr>) = extras_ok U t"
  by (simp_all add: extras_ok_def)

section \<open>Statements\<close>

lemma map_update_where:
  assumes "\<And>x. key (f x) = key x"
  shows "map key (update_where p f xs) = map key xs"
  using assms by (simp add: update_where_def)

lemma image_update_where:
  assumes "\<And>x. key (f x) = key x"
  shows "key ` set (update_where p f xs) = key ` set xs"
  using map_update_where [of key f p xs, OF assms] by (metis set_map)

lemma distinct_map_filter_key: "distinct (map key xs) \<Longrightarrow> distinct (map key (filter p xs))"
  by (induction xs) auto

lemma image_filter_subset: "key ` set (filter p xs) \<subseteq> key ` set xs"
  by auto

lemma fetch_reads [simp]: "snd (fetch_one xs t) = t" "snd (fetch_optional xs t) = t" "snd (paged l off xs t) = t"
  by (simp_all add: fetch_one_def fetch_optional_def paged_def split: list.split)

lemma keeps_found [simp, intro]: "keeps I (rows_or_not_found n)"
  by (simp add: rows_or_not_found_def)

lemma violations [simp]:
  "unique_violation c t = (Err (DatabaseFailure ''23505'' (''duplicate key value violates unique constraint '' @ c)), t)"
  "foreign_violation c t = (Err (DatabaseFailure ''23503'' (''violates foreign key constraint '' @ c)), t)"
  "too_long t = (Err (DatabaseFailure ''22001'' ''value too long for type character varying''), t)"
  by (simp_all add: unique_violation_def foreign_violation_def too_long_def)

text \<open>The users change but keep their ids and unique columns.\<close>

lemma users_changed:
  assumes "tables_ok t" and "users_ok us" and sub: "u_id ` set (t_users t) \<subseteq> u_id ` set us"
  shows "tables_ok (t\<lparr>t_users := us\<rparr>)"
proof -
  note mono = part_mono(1) [OF _ sub] part_mono(3) [OF _ sub] part_mono(4) [OF _ sub order_refl]
    part_mono(5) [OF _ sub order_refl] part_mono(6) [OF _ sub] extras_mono [OF _ sub]
  from assms(1,2) show ?thesis unfolding tables_ok_def by (simp add: mono)
qed

lemma insert_user_ok: "tables_ok t \<Longrightarrow> tables_ok (snd (insert_user u t))"
  by (auto simp: insert_user_def user_exists_def users_ok_def tables_ok_def [of t] intro!: users_changed)

lemma update_user_ok:
  assumes "\<And>u. u_id (f u) = u_id u" "\<And>u. u_username (f u) = u_username u" "\<And>u. u_phone_number (f u) = u_phone_number u"
    and "tables_ok t"
  shows "tables_ok (snd (update_user f i t))"
proof -
  have "users_ok (update_where (\<lambda>u. u_id u = i) f (t_users t))"
    using assms by (simp add: tables_ok_def users_ok_def map_update_where)
  with assms show ?thesis by (simp add: update_user_def users_changed image_update_where)
qed

lemma rename_names:
  "u_username ` set (update_where (\<lambda>u. u_id u = i) (\<lambda>u. u\<lparr>u_username := n\<rparr>) us) \<subseteq>
    insert n (u_username ` {u \<in> set us. u_id u \<noteq> i})"
  by (auto simp: update_where_def)

lemma rename_other:
  "i \<notin> u_id ` set us \<Longrightarrow> update_where (\<lambda>u. u_id u = i) f us = us"
  by (induction us) (auto simp: update_where_def)

lemma rename_distinct:
  assumes "distinct (map u_id us)" and "distinct (map u_username us)"
    and "\<forall>u \<in> set us. u_id u \<noteq> i \<longrightarrow> u_username u \<noteq> n"
  shows "distinct (map u_username (update_where (\<lambda>u. u_id u = i) (\<lambda>u. u\<lparr>u_username := n\<rparr>) us))"
  using assms
proof (induction us)
  case (Cons u us)
  let ?f = "\<lambda>u. u\<lparr>u_username := n\<rparr>"
  show ?case
  proof (cases "u_id u = i")
    case True
    with Cons.prems(1) have "i \<notin> u_id ` set us" by auto
    then have same: "update_where (\<lambda>u. u_id u = i) ?f us = us" by (rule rename_other)
    have "update_where (\<lambda>u. u_id u = i) ?f (u # us) = ?f u # us"
      using same True by (simp add: update_where_def)
    moreover have "u_username x \<noteq> n" if "x \<in> set us" for x
      using that Cons.prems(3) \<open>i \<notin> u_id ` set us\<close> by (metis image_eqI list.set_intros(2))
    then have "n \<notin> u_username ` set us" by blast
    ultimately show ?thesis using Cons.prems(2) by simp
  next
    case False
    have "update_where (\<lambda>u. u_id u = i) ?f (u # us) = u # update_where (\<lambda>u. u_id u = i) ?f us"
      using False by (simp add: update_where_def)
    moreover have "u_username u \<notin> u_username ` set (update_where (\<lambda>u. u_id u = i) ?f us)"
      using rename_names [of i n us] Cons.prems False by auto
    ultimately show ?thesis using Cons by simp
  qed
qed (simp add: update_where_def)

lemma update_username_ok:
  assumes "tables_ok t"
  shows "tables_ok (snd (update_username i n t))"
proof (cases "\<exists>u \<in> set (t_users t). u_id u \<noteq> i \<and> u_username u = n")
  case True
  then have "snd (update_username i n t) = t" by (simp add: update_username_def)
  with assms show ?thesis by simp
next
  case False
  let ?us = "update_where (\<lambda>u. u_id u = i) (\<lambda>u. u\<lparr>u_username := n\<rparr>) (t_users t)"
  have us: "users_ok (t_users t)" using assms by (simp add: tables_ok_def)
  have "distinct (map u_username ?us)"
    using us False by (intro rename_distinct) (auto simp: users_ok_def)
  with us have "users_ok ?us" by (simp add: users_ok_def map_update_where)
  then have "tables_ok (t\<lparr>t_users := ?us\<rparr>)"
    by (intro users_changed [OF assms]) (simp_all add: image_update_where)
  moreover have "snd (update_username i n t) = t \<or> snd (update_username i n t) = t\<lparr>t_users := ?us\<rparr>"
    by (simp add: update_username_def update_user_def)
  ultimately show ?thesis using assms by (elim disjE) simp_all
qed

lemma devices_changed:
  assumes "tables_ok t" and "devices_ok (u_id ` set (t_users t)) ds" and "d_id ` set (t_devices t) \<subseteq> d_id ` set ds"
  shows "tables_ok (t\<lparr>t_devices := ds\<rparr>)"
  using assms(1,2) part_mono(2) [OF _ assms(3) order_refl] by (simp add: tables_ok_def)

lemma insert_device_ok: "tables_ok t \<Longrightarrow> tables_ok (snd (insert_device d t))"
  by (auto simp: insert_device_def user_exists_def device_exists_def devices_ok_def tables_ok_def [of t]
      intro!: devices_changed)

lemma update_device_ok:
  assumes "\<And>d. d_id (f d) = d_id d" "\<And>d. d_user_id (f d) = d_user_id d" and "tables_ok t"
  shows "tables_ok (snd (update_device f i t))"
proof -
  have "devices_ok (u_id ` set (t_users t)) (update_where (\<lambda>d. d_id d = i) f (t_devices t))"
    using assms by (simp add: tables_ok_def devices_ok_def map_update_where image_update_where)
  with assms show ?thesis by (simp add: update_device_def devices_changed image_update_where)
qed

lemma drop_device_ok:
  assumes "tables_ok t"
  shows "tables_ok (snd (drop_device i u t))"
proof -
  let ?gone = "\<lambda>d. d_id d = i \<and> d_user_id d = u"
  let ?ds = "filter (\<lambda>d. \<not> ?gone d) (t_devices t)"
  let ?ks = "filter (\<lambda>k. pk_device_id k \<notin> d_id ` set (filter ?gone (t_devices t))) (t_pre_keys t)"
  have "devices_ok (u_id ` set (t_users t)) ?ds"
    using assms by (auto simp: tables_ok_def devices_ok_def distinct_map_filter_key)
  moreover have "pk_device_id ` set ?ks \<subseteq> d_id ` set ?ds"
    using assms by (force simp: tables_ok_def pre_keys_ok_def)
  then have "pre_keys_ok (d_id ` set ?ds) (t_next_pre_key t) ?ks"
    using assms by (auto simp: tables_ok_def pre_keys_ok_def distinct_map_filter_key)
  ultimately show ?thesis using assms by (simp add: drop_device_def Let_def tables_ok_def)
qed

lemma pre_keys_changed:
  assumes "tables_ok t" and "pre_keys_ok (d_id ` set (t_devices t)) n ks"
  shows "tables_ok (t\<lparr>t_pre_keys := ks, t_next_pre_key := n\<rparr>)"
  using assms by (simp add: tables_ok_def)

lemma insert_pre_key_ok: "tables_ok t \<Longrightarrow> tables_ok (snd (insert_pre_key now d k t))"
  by (force simp: insert_pre_key_def Let_def device_exists_def pre_keys_ok_def tables_ok_def less_SucI)

lemma claim_pre_key_ok:
  assumes "tables_ok t"
  shows "tables_ok (snd (claim_pre_key d t))"
proof (cases "sort_key pk_id (filter (unused_of d) (t_pre_keys t))")
  case (Cons k ks)
  have "pre_keys_ok (d_id ` set (t_devices t)) (t_next_pre_key t)
      (update_where (\<lambda>r. pk_id r = pk_id k) (\<lambda>r. r\<lparr>pk_is_used := True\<rparr>) (t_pre_keys t))"
    using assms by (simp add: tables_ok_def pre_keys_ok_def map_update_where image_update_where)
  with assms Cons show ?thesis by (simp add: claim_pre_key_def tables_ok_def)
qed (use assms in \<open>simp add: claim_pre_key_def\<close>)

lemma insert_attempt_ok:
  assumes "tables_ok t"
  shows "tables_ok (snd (insert_attempt a t))"
  using assms by (auto simp: insert_attempt_def user_exists_def tables_ok_def attempts_ok_def split: option.split)

lemma groups_changed:
  assumes "tables_ok t" and "groups_ok (u_id ` set (t_users t)) gs" and "g_id ` set (t_groups t) \<subseteq> g_id ` set gs"
  shows "tables_ok (t\<lparr>t_groups := gs\<rparr>)"
  using assms(1,2) part_mono(4) [OF _ order_refl assms(3)] part_mono(5) [OF _ order_refl assms(3)]
  by (simp add: tables_ok_def)

lemma insert_group_ok: "tables_ok t \<Longrightarrow> tables_ok (snd (insert_group g t))"
  by (auto simp: insert_group_def user_exists_def group_exists_def groups_ok_def tables_ok_def [of t]
      intro!: groups_changed)

lemma rename_group_ok:
  assumes "tables_ok t"
  shows "tables_ok (snd (rename_group i n t))"
proof -
  have "groups_ok (u_id ` set (t_users t)) (update_where (\<lambda>g. g_id g = i) (\<lambda>g. g\<lparr>g_name := n\<rparr>) (t_groups t))"
    using assms by (simp add: tables_ok_def groups_ok_def map_update_where image_update_where)
  with assms show ?thesis by (simp add: rename_group_def groups_changed image_update_where)
qed

lemma insert_member_ok:
  assumes "tables_ok t"
  shows "tables_ok (snd (insert_member m t))"
proof (cases "snd (insert_member m t) = t")
  case False
  then have "snd (insert_member m t) = t\<lparr>t_members := t_members t @ [m]\<rparr>"
    and new: "\<not> list_ex (in_group (gm_group_id m) (gm_user_id m)) (t_members t)" "group_exists t (gm_group_id m)"
      "user_exists t (gm_user_id m)"
    by (auto simp: insert_member_def split: if_splits)
  moreover have "members_ok (u_id ` set (t_users t)) (g_id ` set (t_groups t)) (t_members t @ [m])"
    using assms new by (auto simp: tables_ok_def members_ok_def list_ex_iff in_group_def group_exists_def user_exists_def)
  ultimately show ?thesis using assms by (simp add: tables_ok_def)
qed (use assms in simp)

lemma insert_pin_ok:
  assumes "tables_ok t"
  shows "tables_ok (snd (insert_pin p t))"
proof (cases "snd (insert_pin p t) = t")
  case False
  then have "snd (insert_pin p t) = t\<lparr>t_pins := t_pins t @ [p]\<rparr>"
    and new: "\<not> list_ex (\<lambda>q. pm_group_id q = pm_group_id p \<and> pm_message_id q = pm_message_id p) (t_pins t)"
      "group_exists t (pm_group_id p)" "user_exists t (pm_pinned_by p)"
    by (auto simp: insert_pin_def split: if_splits)
  moreover have "pins_ok (u_id ` set (t_users t)) (g_id ` set (t_groups t)) (t_pins t @ [p])"
    using assms new by (auto simp: tables_ok_def pins_ok_def list_ex_iff group_exists_def user_exists_def)
  ultimately show ?thesis using assms by (simp add: tables_ok_def)
qed (use assms in simp)

lemma members_fewer: "members_ok U G ms \<Longrightarrow> members_ok U G (filter p ms)"
  by (auto simp: members_ok_def distinct_map_filter_key)

lemma pins_fewer: "pins_ok U G ps \<Longrightarrow> pins_ok U G (filter p ps)"
  by (auto simp: pins_ok_def distinct_map_filter_key)

lemma drop_group_ok:
  assumes "tables_ok t"
  shows "tables_ok (snd (drop_group i t))"
proof -
  let ?G = "g_id ` set (filter (\<lambda>g. g_id g \<noteq> i) (t_groups t))"
  have "groups_ok (u_id ` set (t_users t)) (filter (\<lambda>g. g_id g \<noteq> i) (t_groups t))"
    using assms by (auto simp: tables_ok_def groups_ok_def distinct_map_filter_key)
  moreover have "members_ok (u_id ` set (t_users t)) ?G (filter (\<lambda>m. gm_group_id m \<noteq> i) (t_members t))"
    using assms by (auto simp: tables_ok_def members_ok_def distinct_map_filter_key)
  moreover have "pins_ok (u_id ` set (t_users t)) ?G (filter (\<lambda>p. pm_group_id p \<noteq> i) (t_pins t))"
    using assms by (auto simp: tables_ok_def pins_ok_def distinct_map_filter_key)
  ultimately show ?thesis using assms by (simp add: drop_group_def tables_ok_def)
qed

section \<open>Statements on contacts, settings, sessions and emojis\<close>

lemma extras_changed:
  assumes "tables_ok t" and "extras_ok (u_id ` set (t_users t)) t'"
    and "t_users t' = t_users t" "t_devices t' = t_devices t" "t_pre_keys t' = t_pre_keys t"
    "t_next_pre_key t' = t_next_pre_key t" "t_login_attempts t' = t_login_attempts t" "t_groups t' = t_groups t"
    "t_members t' = t_members t" "t_pins t' = t_pins t"
  shows "tables_ok t'"
  using assms by (simp add: tables_ok_def)

lemma tables_extras: "tables_ok t \<Longrightarrow> extras_ok (u_id ` set (t_users t)) t"
  by (simp add: tables_ok_def)

lemma insert_contact_ok:
  assumes "tables_ok t"
  shows "tables_ok (snd (insert_contact c t))"
  by (rule extras_changed [OF assms]; use tables_extras [OF assms] in
    \<open>auto simp: insert_contact_def list_ex_iff is_contact_def user_exists_def extras_ok_def contacts_ok_def\<close>)

lemma update_contact_ok:
  assumes "\<And>c. co_user_id (f c) = co_user_id c" "\<And>c. co_contact_user_id (f c) = co_contact_user_id c" and "tables_ok t"
  shows "tables_ok (snd (update_contact f i j t))"
  by (rule extras_changed [OF assms(3)]; use tables_extras [OF assms(3)] in
    \<open>simp add: update_contact_def extras_ok_def contacts_ok_def map_update_where
      image_update_where assms(1,2)\<close>)

lemma snd_bind_ret: "snd (bind_a m (\<lambda>_. ret y) s) = snd (m s)"
  by (simp add: bind_a_split split: prod.split outcome.split)

lemma upsert_blocked_ok: "tables_ok t \<Longrightarrow> tables_ok (snd (upsert_blocked now i j t))"
  by (simp add: upsert_blocked_def snd_bind_ret insert_contact_ok update_contact_ok)

lemma drop_contact_ok:
  assumes "tables_ok t"
  shows "tables_ok (snd (drop_contact i j t))"
  by (rule extras_changed [OF assms]; use tables_extras [OF assms] in
    \<open>auto simp: drop_contact_def extras_ok_def contacts_ok_def distinct_map_filter_key\<close>)

lemma insert_request_ok:
  assumes "tables_ok t"
  shows "tables_ok (snd (insert_request r t))"
  by (rule extras_changed [OF assms]; use tables_extras [OF assms] in
    \<open>auto simp: insert_request_def list_ex_iff user_exists_def extras_ok_def requests_ok_def\<close>)

lemma drop_request_ok:
  assumes "tables_ok t"
  shows "tables_ok (snd (drop_request i j t))"
  by (rule extras_changed [OF assms]; use tables_extras [OF assms] in
    \<open>auto simp: drop_request_def extras_ok_def requests_ok_def distinct_map_filter_key\<close>)

lemma ensure_settings_ok:
  assumes "tables_ok t"
  shows "tables_ok (snd (ensure_settings i t))"
  by (rule extras_changed [OF assms]; use tables_extras [OF assms] in
    \<open>auto simp: ensure_settings_def user_exists_def extras_ok_def settings_ok_def\<close>)

lemma update_settings_ok:
  assumes "\<And>s. us_user_id (f s) = us_user_id s" and "tables_ok t"
  shows "tables_ok (t\<lparr>t_settings := update_where p f (t_settings t)\<rparr>)"
  by (rule extras_changed [OF assms(2)]; use tables_extras [OF assms(2)] in
    \<open>simp add: extras_ok_def settings_ok_def map_update_where image_update_where assms(1)\<close>)

lemma insert_muted_ok:
  assumes "tables_ok t"
  shows "tables_ok (snd (insert_muted m t))"
  by (rule extras_changed [OF assms]; use tables_extras [OF assms] in
    \<open>auto simp: insert_muted_def list_ex_iff is_muted_def user_exists_def extras_ok_def muted_ok_def\<close>)

lemma fewer_muted_ok:
  assumes "tables_ok t"
  shows "tables_ok (t\<lparr>t_muted := filter p (t_muted t)\<rparr>)"
  by (rule extras_changed [OF assms]; use tables_extras [OF assms] in
    \<open>auto simp: extras_ok_def muted_ok_def distinct_map_filter_key\<close>)

lemma insert_session_ok:
  assumes "tables_ok t"
  shows "tables_ok (snd (insert_session s t))"
  by (rule extras_changed [OF assms]; use tables_extras [OF assms] in
    \<open>auto simp: insert_session_def user_exists_def extras_ok_def sessions_ok_def\<close>)

lemma close_session_ok:
  assumes "tables_ok t"
  shows "tables_ok (snd (close_session now i t))"
  by (rule extras_changed [OF assms]; use tables_extras [OF assms] in
    \<open>simp add: close_session_def Let_def extras_ok_def sessions_ok_def
      map_update_where image_update_where\<close>)

lemma update_connections_ok:
  assumes "tables_ok t"
  shows "tables_ok (snd (update_connections f ids t))"
  by (rule extras_changed [OF assms]; use tables_extras [OF assms] in
    \<open>simp add: update_connections_def extras_ok_def image_update_where\<close>)

lemma upsert_vpn_key_ok:
  assumes "tables_ok t"
  shows "tables_ok (snd (upsert_vpn_key k t))"
proof -
  let ?ks = "update_where (\<lambda>j. vk_user_id j = vk_user_id k) (\<lambda>_. k) (t_vpn_keys t)"
  have same: "map vk_user_id ?ks = map vk_user_id (t_vpn_keys t)" by (simp add: update_where_def)
  then have "vk_user_id ` set ?ks = vk_user_id ` set (t_vpn_keys t)" by (metis set_map)
  with same show ?thesis
    by (intro extras_changed [OF assms]; use tables_extras [OF assms] in
      \<open>auto simp: upsert_vpn_key_def user_exists_def extras_ok_def vpn_keys_ok_def\<close>)
qed

lemma insert_pack_ok:
  assumes "tables_ok t"
  shows "tables_ok (snd (insert_pack p t))"
  by (rule extras_changed [OF assms]; use tables_extras [OF assms] in
    \<open>auto simp: insert_pack_def pack_exists_def user_exists_def extras_ok_def packs_ok_def
      emojis_ok_def user_packs_ok_def split: option.splits\<close>)

lemma insert_emoji_ok:
  assumes "tables_ok t"
  shows "tables_ok (snd (insert_emoji e t))"
  by (rule extras_changed [OF assms]; use tables_extras [OF assms] in
    \<open>auto simp: insert_emoji_def list_ex_iff pack_exists_def extras_ok_def emojis_ok_def\<close>)

lemma insert_user_pack_ok:
  assumes "tables_ok t"
  shows "tables_ok (snd (insert_user_pack p t))"
  by (rule extras_changed [OF assms]; use tables_extras [OF assms] in
    \<open>auto simp: insert_user_pack_def list_ex_iff owns_pack_def pack_exists_def user_exists_def extras_ok_def user_packs_ok_def\<close>)

section \<open>Deleting a user\<close>

text \<open>Rows that refer to a user or to a row of a user go with it; rows that refer to nothing of the user stay.\<close>

lemma without_user_rows:
  "u_id ` set (t_users (without_user i t)) = u_id ` set (t_users t) - {i}"
  "d_id ` set (t_devices t) - d_id ` {d \<in> set (t_devices t). d_user_id d = i} \<subseteq> d_id ` set (t_devices (without_user i t))"
  "g_id ` set (t_groups t) - g_id ` {g \<in> set (t_groups t). g_creator_id g = i} \<subseteq> g_id ` set (t_groups (without_user i t))"
  by (auto simp: without_user_def Let_def)

lemma without_user_extras:
  "t_contacts (without_user i t) = filter (\<lambda>c. co_user_id c \<noteq> i \<and> co_contact_user_id c \<noteq> i) (t_contacts t)"
  "t_requests (without_user i t) = filter (\<lambda>r. ctr_from_user_id r \<noteq> i \<and> ctr_to_user_id r \<noteq> i) (t_requests t)"
  "t_settings (without_user i t) = filter (\<lambda>s. us_user_id s \<noteq> i) (t_settings t)"
  "t_muted (without_user i t) = filter (\<lambda>m. mc_user_id m \<noteq> i) (t_muted t)"
  "t_vpn_keys (without_user i t) = filter (\<lambda>k. vk_user_id k \<noteq> i) (t_vpn_keys t)"
  "t_vpn_sessions (without_user i t) = filter (\<lambda>s. vn_user_id s \<noteq> i) (t_vpn_sessions t)"
  "t_vpn_servers (without_user i t) = t_vpn_servers t" "t_packs (without_user i t) = t_packs t"
  "t_emojis (without_user i t) = t_emojis t"
  "t_user_packs (without_user i t) = filter (\<lambda>p. up_user_id p \<noteq> i) (t_user_packs t)"
  by (simp_all add: without_user_def Let_def)

text \<open>Deleting a user that created no pack: the creators that are left are still users.\<close>

lemma packs_without_creator:
  assumes "packs_ok U ps" and "Some i \<notin> ep_creator_id ` set ps"
  shows "packs_ok (U - {i}) ps"
proof -
  have "ep_creator_id ` set ps \<subseteq> insert None (Some ` U) - {Some i}" "insert None (Some ` U) - {Some i} \<subseteq> insert None (Some ` (U - {i}))"
    using assms by (simp add: packs_ok_def subset_Diff_insert) auto
  then have "ep_creator_id ` set ps \<subseteq> insert None (Some ` (U - {i}))" by (rule subset_trans)
  with assms(1) show ?thesis by (simp add: packs_ok_def)
qed

lemma without_user_extras_ok:
  assumes "extras_ok U t" and "Some i \<notin> ep_creator_id ` set (t_packs t)"
  shows "extras_ok (U - {i}) (without_user i t)"
proof -
  let ?t = "without_user i t"
  note x = assms(1) [unfolded extras_ok_def]
  have "contacts_ok (U - {i}) (t_contacts ?t)" "requests_ok (U - {i}) (t_requests ?t)" "settings_ok (U - {i}) (t_settings ?t)"
    "muted_ok (U - {i}) (t_muted ?t)" "vpn_keys_ok (U - {i}) (t_vpn_keys ?t)"
    "sessions_ok (U - {i}) (vs_id ` set (t_vpn_servers ?t)) (t_vpn_sessions ?t)"
    "user_packs_ok (U - {i}) (ep_id ` set (t_packs ?t)) (t_user_packs ?t)"
    using x unfolding without_user_extras extras_defs by (auto simp: distinct_map_filter_key)
  moreover have "packs_ok (U - {i}) (t_packs ?t)" "emojis_ok (ep_id ` set (t_packs ?t)) (t_emojis ?t)"
    using x packs_without_creator [OF _ assms(2)] unfolding without_user_extras by simp_all
  ultimately show ?thesis by (simp add: extras_ok_def)
qed

lemma without_user_ok:
  assumes ok: "tables_ok t" and packs: "Some i \<notin> ep_creator_id ` set (t_packs t)"
  shows "tables_ok (without_user i t)"
proof -
  let ?t = "without_user i t" and ?U = "u_id ` set (t_users t)"
  note parts = ok [unfolded tables_ok_def] and rows = without_user_rows [where i = i and t = t]
  have "users_ok (t_users ?t)"
    using parts by (auto simp: users_ok_def without_user_def Let_def distinct_map_filter_key)
  moreover have "devices_ok (?U - {i}) (t_devices ?t)"
    using parts by (auto simp: devices_ok_def without_user_def Let_def distinct_map_filter_key)
  moreover have "pre_keys_ok (d_id ` set (t_devices ?t)) (t_next_pre_key ?t) (t_pre_keys ?t)"
  proof -
    have "pk_device_id ` set (t_pre_keys ?t) \<subseteq> d_id ` set (t_devices t) - d_id ` {d \<in> set (t_devices t). d_user_id d = i}"
      using parts by (auto simp: pre_keys_ok_def without_user_def Let_def)
    from subset_trans [OF this rows(2)] parts show ?thesis
      by (auto simp: pre_keys_ok_def without_user_def Let_def distinct_map_filter_key)
  qed
  moreover have "groups_ok (?U - {i}) (t_groups ?t)"
    using parts by (auto simp: groups_ok_def without_user_def Let_def distinct_map_filter_key)
  moreover have "members_ok (?U - {i}) (g_id ` set (t_groups ?t)) (t_members ?t)"
  proof -
    have "gm_group_id ` set (t_members ?t) \<subseteq> g_id ` set (t_groups t) - g_id ` {g \<in> set (t_groups t). g_creator_id g = i}"
      using parts by (auto simp: members_ok_def without_user_def Let_def)
    from subset_trans [OF this rows(3)] parts show ?thesis
      by (auto simp: members_ok_def without_user_def Let_def distinct_map_filter_key)
  qed
  moreover have "pins_ok (?U - {i}) (g_id ` set (t_groups ?t)) (t_pins ?t)"
  proof -
    have "pm_group_id ` set (t_pins ?t) \<subseteq> g_id ` set (t_groups t) - g_id ` {g \<in> set (t_groups t). g_creator_id g = i}"
      using parts by (auto simp: pins_ok_def without_user_def Let_def)
    from subset_trans [OF this rows(3)] parts show ?thesis
      by (auto simp: pins_ok_def without_user_def Let_def distinct_map_filter_key)
  qed
  moreover have "attempts_ok (?U - {i}) (t_login_attempts ?t)"
    using parts by (auto simp: attempts_ok_def without_user_def Let_def update_where_def)
  moreover have "extras_ok (?U - {i}) ?t"
    using parts by (intro without_user_extras_ok packs) simp
  ultimately show ?thesis unfolding tables_ok_def rows(1) by simp
qed

lemma drop_user_ok: "tables_ok t \<Longrightarrow> tables_ok (snd (drop_user i t))"
  by (simp add: drop_user_def without_user_ok)

section \<open>Queries\<close>

definition on_tables :: "(tables \<Rightarrow> bool) \<Rightarrow> database \<Rightarrow> bool" where
  "on_tables T d \<longleftrightarrow> T (db_tables d)"

lemma keeps_sql_tables:
  assumes "\<And>t. T t \<Longrightarrow> T (snd (q t))"
  shows "keeps (on_tables T) (sql q)"
proof (rule keepsI)
  fix d assume "on_tables T d"
  then have t: "T (db_tables d)" "T (snd (q (db_tables d)))"
    using assms by (simp_all add: on_tables_def)
  then show "on_tables T (snd (sql q d))"
    by (auto simp: sql_def Let_def on_tables_def case_prod_beta split: sql_fault.split list.split)
qed

text \<open>
  What a predicate on the tables has to promise of the statements, so that every query keeps it, whatever
  statements fail.
\<close>

locale table_invariant =
  fixes T :: "tables \<Rightarrow> bool"
  assumes insert_user: "u_status u = ''online'' \<Longrightarrow> T t \<Longrightarrow> T (snd (insert_user u t))"
    and update_user: "(\<And>u. u_id (f u) = u_id u) \<Longrightarrow> (\<And>u. u_username (f u) = u_username u) \<Longrightarrow>
      (\<And>u. u_phone_number (f u) = u_phone_number u) \<Longrightarrow> (\<And>u. u_status (f u) = u_status u) \<Longrightarrow>
      T t \<Longrightarrow> T (snd (update_user f i t))"
    and update_username: "T t \<Longrightarrow> T (snd (update_username i n t))"
    and update_status: "T t \<Longrightarrow> T (snd (update_status i st t))"
    and insert_device: "T t \<Longrightarrow> T (snd (insert_device d t))"
    and update_device: "(\<And>d. d_id (g d) = d_id d) \<Longrightarrow> (\<And>d. d_user_id (g d) = d_user_id d) \<Longrightarrow>
      (\<And>d. d_device_name (g d) = d_device_name d) \<Longrightarrow> T t \<Longrightarrow> T (snd (update_device g i t))"
    and drop_device: "T t \<Longrightarrow> T (snd (drop_device i w t))"
    and insert_pre_key: "T t \<Longrightarrow> T (snd (insert_pre_key now i k t))"
    and claim_pre_key: "T t \<Longrightarrow> T (snd (claim_pre_key i t))"
    and insert_attempt: "T t \<Longrightarrow> T (snd (insert_attempt a t))"
    and insert_group: "T t \<Longrightarrow> T (snd (insert_group gr t))"
    and rename_group: "T t \<Longrightarrow> T (snd (rename_group i n t))"
    and drop_group: "T t \<Longrightarrow> T (snd (drop_group i t))"
    and insert_member: "T t \<Longrightarrow> T (snd (insert_member m t))"
    and fewer_members: "T t \<Longrightarrow> T (t\<lparr>t_members := filter p (t_members t)\<rparr>)"
    and insert_pin: "T t \<Longrightarrow> T (snd (insert_pin q t))"
    and fewer_pins: "T t \<Longrightarrow> T (t\<lparr>t_pins := filter r (t_pins t)\<rparr>)"
begin

lemma keeps_update_user:
  assumes "\<And>u. u_id (f u) = u_id u" "\<And>u. u_username (f u) = u_username u"
    "\<And>u. u_phone_number (f u) = u_phone_number u" "\<And>u. u_status (f u) = u_status u"
  shows "keeps (on_tables T) (bind_a (sql (update_user f i)) rows_or_not_found)"
  using assms by (intro keeps_bind keeps_sql_tables update_user keeps_found) simp_all

lemma user_queries_keep:
  "keeps (on_tables T) (create_user i now n ph h sa pk dpk)" "keeps (on_tables T) (update_last_seen now i)"
  "keeps (on_tables T) (enable_2fa i b)" "keeps (on_tables T) (db_disable_2fa i)" "keeps (on_tables T) (db_set_username i n)"
  "keeps (on_tables T) (db_set_display_name i n)" "keeps (on_tables T) (db_set_avatar i av)" "keeps (on_tables T) (db_set_status i st)"
  unfolding create_user_def db_set_username_def db_set_status_def
    update_last_seen_def enable_2fa_def db_disable_2fa_def db_set_display_name_def db_set_avatar_def
  by ((rule keeps_update_user; simp) |
    (intro keeps_bind keeps_sql_tables insert_user update_username update_status keeps_found; simp))+

lemma keeps_store_loop: "keeps (on_tables T) (store_pre_keys_loop now d ks n)"
proof (induction ks arbitrary: n)
  case (Cons k ks)
  have "keeps (on_tables T) (sql (insert_pre_key now d k))" by (intro keeps_sql_tables insert_pre_key)
  with Cons.IH show ?case by auto
qed simp

lemma device_queries_keep:
  "keeps (on_tables T) (register_device i now u n a b c)" "keeps (on_tables T) (db_delete_device i u)"
  "keeps (on_tables T) (set_online now i on)" "keeps (on_tables T) (update_push_token i tok)"
  "keeps (on_tables T) (store_pre_keys now i ks)" "keeps (on_tables T) (claim_one_time_pre_key i)"
  "keeps (on_tables T) (record_attempt now ip w ok)"
  unfolding register_device_def db_delete_device_def set_online_def update_push_token_def store_pre_keys_def
    claim_one_time_pre_key_def record_attempt_def
  by (rule keeps_store_loop |
    (intro keeps_bind keeps_sql_tables insert_device drop_device update_device claim_pre_key insert_attempt keeps_pure; simp))+

lemma keeps_read: "(\<And>t. snd (q t) = t) \<Longrightarrow> keeps (on_tables T) (sql q)"
  by (rule keeps_sql_tables) simp

lemma reads_keep:
  "keeps (on_tables T) (find_user_by_id i)" "keeps (on_tables T) (find_by_username n)"
  "keeps (on_tables T) (find_by_phone_number n)" "keeps (on_tables T) (is_username_available n)"
  "keeps (on_tables T) (find_device_by_id i)" "keeps (on_tables T) (list_by_user i)"
  "keeps (on_tables T) (list_by_users is)" "keeps (on_tables T) (find_one_device_for_user i)"
  "keeps (on_tables T) (count_available_pre_keys i)" "keeps (on_tables T) (is_locked_out now ip mx w)"
  "keeps (on_tables T) (find_group_by_id i)" "keeps (on_tables T) (list_groups_for_user i)"
  "keeps (on_tables T) (list_groups_for_user_paginated i l off)" "keeps (on_tables T) (get_members i)"
  "keeps (on_tables T) (get_member_role i j)" "keeps (on_tables T) (is_member i j)" "keeps (on_tables T) (get_pinned i)"
  unfolding find_user_by_id_def find_by_username_def find_by_phone_number_def is_username_available_def
    find_device_by_id_def list_by_user_def list_by_users_def find_one_device_for_user_def count_available_pre_keys_def
    is_locked_out_def count_recent_failures_def find_group_by_id_def list_groups_for_user_def
    list_groups_for_user_paginated_def get_members_def get_member_role_def is_member_def get_pinned_def Let_def
  by (intro keeps_bind keeps_read keeps_pure; simp)+

lemma bundle_keeps: "keeps (on_tables T) (get_pre_key_bundle u)"
proof -
  have "keeps (on_tables T) (sql (\<lambda>t. fetch_one (f t) t))" for f :: "tables \<Rightarrow> (bytes \<times> bytes) list"
    by (rule keeps_read) simp
  then show ?thesis
    unfolding get_pre_key_bundle_def by (intro keeps_bind keeps_pure device_queries_keep reads_keep) simp_all
qed

lemma group_queries_keep:
  "keeps (on_tables T) (db_create_group i now n c anon)" "keeps (on_tables T) (db_add_member now g u r)"
  "keeps (on_tables T) (db_remove_member g u)" "keeps (on_tables T) (db_delete_group g)"
  "keeps (on_tables T) (update_group_name g n)" "keeps (on_tables T) (pin now g m u)" "keeps (on_tables T) (unpin g m)"
  unfolding db_create_group_def db_add_member_def db_remove_member_def db_delete_group_def update_group_name_def
    pin_def unpin_def
  by (intro keeps_bind keeps_sql_tables insert_group insert_member drop_group rename_group insert_pin keeps_pure keeps_found;
    simp add: fewer_members fewer_pins)+

lemmas queries_keep = user_queries_keep device_queries_keep bundle_keeps group_queries_keep

end

lemma fewer_ok:
  "tables_ok t \<Longrightarrow> tables_ok (t\<lparr>t_members := filter p (t_members t)\<rparr>)"
  "tables_ok t \<Longrightarrow> tables_ok (t\<lparr>t_pins := filter q (t_pins t)\<rparr>)"
  by (simp_all add: tables_ok_def members_fewer pins_fewer)

lemma update_status_ok: "tables_ok t \<Longrightarrow> tables_ok (snd (update_status i st t))"
  by (simp add: update_status_def update_user_ok)

interpretation ok: table_invariant tables_ok
  by unfold_locales (rule insert_user_ok update_user_ok update_username_ok update_status_ok insert_device_ok
    update_device_ok drop_device_ok insert_pre_key_ok claim_pre_key_ok insert_attempt_ok insert_group_ok
    rename_group_ok drop_group_ok insert_member_ok insert_pin_ok fewer_ok; assumption)+

lemma on_tables_ok: "on_tables tables_ok = db_ok"
  by (simp add: fun_eq_iff on_tables_def db_ok_def)

lemmas db_queries_keep = ok.queries_keep [unfolded on_tables_ok]

section \<open>Column types\<close>

text \<open>Every text is within the VARCHAR length its column is declared with.\<close>

definition rows_fit :: "tables \<Rightarrow> bool" where
  "rows_fit t \<longleftrightarrow>
     (\<forall>u \<in> set (t_users t). char_count (u_username u) \<le> 32 \<and> char_count (u_phone_number u) \<le> 20 \<and>
        char_count (u_status u) \<le> 16) \<and>
     (\<forall>d \<in> set (t_devices t). char_count (d_device_name d) \<le> 64) \<and>
     (\<forall>a \<in> set (t_login_attempts t). char_count (la_ip_address a) \<le> 45) \<and>
     (\<forall>g \<in> set (t_groups t). char_count (g_name g) \<le> 64) \<and>
     (\<forall>m \<in> set (t_members t). char_count (gm_role m) \<le> 16)"

lemma rows_fitD:
  assumes "rows_fit t"
  shows "u \<in> set (t_users t) \<Longrightarrow> char_count (u_username u) \<le> 32 \<and> char_count (u_phone_number u) \<le> 20 \<and>
      char_count (u_status u) \<le> 16"
    and "d \<in> set (t_devices t) \<Longrightarrow> char_count (d_device_name d) \<le> 64"
    and "a \<in> set (t_login_attempts t) \<Longrightarrow> char_count (la_ip_address a) \<le> 45"
    and "g \<in> set (t_groups t) \<Longrightarrow> char_count (g_name g) \<le> 64"
    and "m \<in> set (t_members t) \<Longrightarrow> char_count (gm_role m) \<le> 16"
  using assms unfolding rows_fit_def by blast+

lemma rows_fit_insert:
  assumes "rows_fit t"
  shows "char_count (u_status u) \<le> 16 \<Longrightarrow> rows_fit (snd (insert_user u t))"
    and "rows_fit (snd (insert_device d t))" and "rows_fit (snd (insert_attempt a t))"
    and "rows_fit (snd (insert_group g t))" and "rows_fit (snd (insert_member m t))"
  using assms unfolding rows_fit_def insert_user_def insert_device_def insert_attempt_def insert_group_def insert_member_def
  by (auto split: option.split)

lemma rows_fit_update:
  assumes "rows_fit t"
  shows "(\<And>u. u_username (f u) = u_username u) \<Longrightarrow> (\<And>u. u_phone_number (f u) = u_phone_number u) \<Longrightarrow>
      (\<And>u. u_status (f u) = u_status u) \<Longrightarrow> rows_fit (snd (update_user f i t))"
    and "(\<And>d. d_device_name (g d) = d_device_name d) \<Longrightarrow> rows_fit (snd (update_device g i t))"
    and "rows_fit (snd (update_username i n t))" and "rows_fit (snd (update_status i st t))"
    and "rows_fit (snd (rename_group i n t))"
  using assms unfolding rows_fit_def update_user_def update_device_def update_username_def update_status_def
    rename_group_def update_where_def affected_def group_exists_def
  by (auto simp: filter_empty_conv)

lemma rows_fit_fewer:
  assumes "rows_fit t"
  shows "rows_fit (snd (drop_device i w t))" "rows_fit (snd (drop_group i t))"
    "rows_fit (t\<lparr>t_members := filter p (t_members t)\<rparr>)" "rows_fit (t\<lparr>t_pins := filter q (t_pins t)\<rparr>)"
    "rows_fit (snd (insert_pre_key now i k t))" "rows_fit (snd (claim_pre_key i t))" "rows_fit (snd (insert_pin r t))"
  using assms unfolding rows_fit_def drop_device_def drop_group_def insert_pre_key_def claim_pre_key_def insert_pin_def
  by (auto simp: Let_def split: list.split)

lemma rows_fit_empty [simp]: "rows_fit no_tables"
  by (simp add: rows_fit_def no_tables_def)

lemma char_count_short: "length s \<le> n \<Longrightarrow> (n < char_count s) = False"
proof -
  have "char_count s \<le> length s" by (metis char_count_def length_filter_le length_map str_bytes_def)
  then show "length s \<le> n \<Longrightarrow> (n < char_count s) = False" by simp
qed

lemma online_fits [simp]: "char_count ''online'' \<le> 16"
  using char_count_short [of "''online''" 16] by simp

interpretation fit: table_invariant rows_fit
proof unfold_locales
  fix u i d g m t now k a n st w p q r and f :: "user \<Rightarrow> user" and h :: "device \<Rightarrow> device"
  assume t: "rows_fit t"
  note rules = rows_fit_insert [OF t] rows_fit_update [OF t] rows_fit_fewer [OF t]
  show "u_status u = ''online'' \<Longrightarrow> rows_fit (snd (insert_user u t))" by (rule rules) simp
  show "(\<And>u. u_id (f u) = u_id u) \<Longrightarrow> (\<And>u. u_username (f u) = u_username u) \<Longrightarrow>
      (\<And>u. u_phone_number (f u) = u_phone_number u) \<Longrightarrow> (\<And>u. u_status (f u) = u_status u) \<Longrightarrow>
      rows_fit (snd (update_user f i t))" by (rule rules)
  show "(\<And>d. d_id (h d) = d_id d) \<Longrightarrow> (\<And>d. d_user_id (h d) = d_user_id d) \<Longrightarrow>
      (\<And>d. d_device_name (h d) = d_device_name d) \<Longrightarrow> rows_fit (snd (update_device h i t))" by (rule rules)
  show "rows_fit (snd (update_username i n t))" "rows_fit (snd (update_status i st t))" "rows_fit (snd (insert_device d t))"
    "rows_fit (snd (drop_device i w t))" "rows_fit (snd (insert_pre_key now i k t))" "rows_fit (snd (claim_pre_key i t))"
    "rows_fit (snd (insert_attempt a t))" "rows_fit (snd (insert_group g t))" "rows_fit (snd (rename_group i n t))"
    "rows_fit (snd (drop_group i t))" "rows_fit (snd (insert_member m t))" "rows_fit (t\<lparr>t_members := filter p (t_members t)\<rparr>)"
    "rows_fit (snd (insert_pin r t))" "rows_fit (t\<lparr>t_pins := filter q (t_pins t)\<rparr>)" by (rule rules)+
qed

section \<open>The remaining tables\<close>

locale full_invariant = table_invariant +
  assumes insert_contact: "T t \<Longrightarrow> T (snd (insert_contact c t))"
    and update_contact: "(\<And>c. co_user_id (cf c) = co_user_id c) \<Longrightarrow>
      (\<And>c. co_contact_user_id (cf c) = co_contact_user_id c) \<Longrightarrow> T t \<Longrightarrow> T (snd (update_contact cf i j t))"
    and drop_contact: "T t \<Longrightarrow> T (snd (drop_contact i j t))"
    and insert_request: "T t \<Longrightarrow> T (snd (insert_request rq t))"
    and drop_request: "T t \<Longrightarrow> T (snd (drop_request i j t))"
    and ensure_settings: "T t \<Longrightarrow> T (snd (ensure_settings i t))"
    and update_settings: "(\<And>s. us_user_id (sf s) = us_user_id s) \<Longrightarrow> T t \<Longrightarrow>
      T (t\<lparr>t_settings := update_where sp sf (t_settings t)\<rparr>)"
    and insert_muted: "T t \<Longrightarrow> T (snd (insert_muted mu t))"
    and fewer_muted: "T t \<Longrightarrow> T (t\<lparr>t_muted := filter mp (t_muted t)\<rparr>)"
    and insert_session: "T t \<Longrightarrow> T (snd (insert_session vs t))"
    and close_session: "T t \<Longrightarrow> T (snd (close_session now i t))"
    and update_connections: "T t \<Longrightarrow> T (snd (update_connections nf ids t))"
    and upsert_vpn_key: "T t \<Longrightarrow> T (snd (upsert_vpn_key vk t))"
    and insert_pack: "T t \<Longrightarrow> T (snd (insert_pack ep t))"
    and insert_emoji: "T t \<Longrightarrow> T (snd (insert_emoji em t))"
    and insert_user_pack: "T t \<Longrightarrow> T (snd (insert_user_pack up t))"
    and drop_user: "T t \<Longrightarrow> T (snd (drop_user i t))"
begin

lemma upsert_blocked: "T t \<Longrightarrow> T (snd (upsert_blocked now i j t))"
  by (simp add: upsert_blocked_def snd_bind_ret insert_contact update_contact)

lemma contact_queries_keep:
  "keeps (on_tables T) (db_add_contact now i j)" "keeps (on_tables T) (db_set_nickname i j n)"
  "keeps (on_tables T) (db_block_contact now i j)" "keeps (on_tables T) (db_unblock_contact i j)"
  "keeps (on_tables T) (db_remove_contact i j)" "keeps (on_tables T) (db_send_request r now i j)"
  "keeps (on_tables T) (db_accept r i)" "keeps (on_tables T) (db_reject r i)"
proof -
  show "keeps (on_tables T) (db_accept r i)" unfolding db_accept_def
  proof (rule keeps_sql_tables)
    fix t assume "T t"
    then have "T (snd (drop_request r i t))" by (rule drop_request)
    then show "T (snd (bind_a (drop_request r i) fetch_one t))" by (simp add: drop_request_def bind_a_split)
  qed
  show "keeps (on_tables T) (db_set_nickname i j n)" "keeps (on_tables T) (db_unblock_contact i j)"
    "keeps (on_tables T) (db_remove_contact i j)" "keeps (on_tables T) (db_reject r i)"
    unfolding db_set_nickname_def db_unblock_contact_def db_remove_contact_def db_reject_def
    by (intro keeps_bind keeps_found keeps_sql_tables update_contact drop_contact drop_request; simp)+
qed (unfold db_add_contact_def db_block_contact_def db_send_request_def,
  (intro keeps_sql_tables insert_contact upsert_blocked insert_request; assumption)+)

lemma settings_queries_keep:
  "keeps (on_tables T) (get_or_create i)" "keeps (on_tables T) (db_update_settings i a b c)"
  "keeps (on_tables T) (db_mute_chat now i j)" "keeps (on_tables T) (db_unmute_chat i j)"
proof -
  have set_keeps: "keeps (on_tables T) (set_setting i f v)" if "\<And>b s. us_user_id (f b s) = us_user_id s" for f v
    using that by (cases v) (auto simp: set_setting_def intro!: keeps_sql_tables update_settings)
  show "keeps (on_tables T) (db_update_settings i a b c)"
    unfolding db_update_settings_def
    by (intro keeps_bind set_keeps keeps_read keeps_sql_tables ensure_settings; simp)
qed (unfold get_or_create_def db_mute_chat_def db_unmute_chat_def,
  (intro keeps_sql_tables insert_muted; simp add: fewer_muted)+)

lemma vpn_queries_keep:
  "keeps (on_tables T) (create_session n now i j p ip)" "keeps (on_tables T) (end_session now i)"
  "keeps (on_tables T) (store_vpn_keys now i p e)"
  unfolding create_session_def end_session_def store_vpn_keys_def leave_server_def
  by (intro keeps_bind keeps_found keeps_pure keeps_sql_tables insert_session close_session upsert_vpn_key; simp add: update_connections)+

lemma emoji_queries_keep:
  "keeps (on_tables T) (db_create_pack n now nm ds c pr ce)" "keeps (on_tables T) (db_add_emoji n now i sc im an)"
  "keeps (on_tables T) (db_purchase_pack now i j)" "keeps (on_tables T) (delete_user i)"
  unfolding db_create_pack_def db_add_emoji_def db_purchase_pack_def delete_user_def
  by (intro keeps_bind keeps_found keeps_sql_tables insert_pack insert_emoji insert_user_pack drop_user; assumption)+

lemma more_reads_keep:
  "keeps (on_tables T) (get_contacts i)" "keeps (on_tables T) (get_contacts_paginated i l off)"
  "keeps (on_tables T) (get_contact i j)" "keeps (on_tables T) (get_pending i)" "keeps (on_tables T) (get_pending_paginated i l off)"
  "keeps (on_tables T) (get_sent i)" "keeps (on_tables T) (get_muted_chats i)" "keeps (on_tables T) (get_muted_chats_paginated i l off)"
  "keeps (on_tables T) db_list_servers" "keeps (on_tables T) (get_active_session i)" "keeps (on_tables T) (count_sessions i)"
  "keeps (on_tables T) (get_vpn_keys i)" "keeps (on_tables T) db_list_packs" "keeps (on_tables T) (db_get_pack i)"
  "keeps (on_tables T) (get_pack_emojis i)" "keeps (on_tables T) (get_user_packs i)" "keeps (on_tables T) (has_pack i j)"
  "keeps (on_tables T) list_active_nodes"
  unfolding get_contacts_def get_contacts_paginated_def get_contact_def get_pending_def get_pending_paginated_def get_sent_def
    get_muted_chats_def get_muted_chats_paginated_def db_list_servers_def get_active_session_def count_sessions_def
    get_vpn_keys_def db_list_packs_def db_get_pack_def get_pack_emojis_def get_user_packs_def has_pack_def list_active_nodes_def
  by (intro keeps_bind keeps_read keeps_pure; simp)+

lemmas all_queries_keep = queries_keep reads_keep contact_queries_keep settings_queries_keep vpn_queries_keep
  emoji_queries_keep more_reads_keep

end

interpretation ok: full_invariant tables_ok
  by unfold_locales (rule insert_contact_ok update_contact_ok drop_contact_ok insert_request_ok drop_request_ok
    ensure_settings_ok update_settings_ok insert_muted_ok fewer_muted_ok insert_session_ok close_session_ok
    update_connections_ok upsert_vpn_key_ok insert_pack_ok insert_emoji_ok insert_user_pack_ok drop_user_ok; assumption)+

lemmas db_all_keep = ok.all_queries_keep [unfolded on_tables_ok]

lemma rows_fit_extras:
  assumes "rows_fit t"
  shows "rows_fit (snd (insert_contact c t))" "rows_fit (snd (update_contact cf i j t))" "rows_fit (snd (drop_contact i j t))"
    "rows_fit (snd (insert_request rq t))" "rows_fit (snd (drop_request i j t))" "rows_fit (snd (ensure_settings i t))"
    "rows_fit (t\<lparr>t_settings := ss\<rparr>)" "rows_fit (snd (insert_muted mu t))" "rows_fit (t\<lparr>t_muted := ms\<rparr>)"
    "rows_fit (snd (insert_session vs t))" "rows_fit (snd (close_session now i t))"
    "rows_fit (snd (update_connections nf ids t))" "rows_fit (snd (upsert_vpn_key vk t))" "rows_fit (snd (insert_pack ep t))"
    "rows_fit (snd (insert_emoji em t))" "rows_fit (snd (insert_user_pack up t))"
  using assms unfolding rows_fit_def
  by (simp_all add: insert_contact_def update_contact_def drop_contact_def insert_request_def drop_request_def ensure_settings_def
      insert_muted_def insert_session_def close_session_def update_connections_def upsert_vpn_key_def insert_pack_def
      insert_emoji_def insert_user_pack_def Let_def)

lemma rows_fit_drop_user:
  assumes "rows_fit t"
  shows "rows_fit (snd (drop_user i t))"
  using assms unfolding rows_fit_def drop_user_def without_user_def Let_def update_where_def by auto

interpretation fit: full_invariant rows_fit
  by unfold_locales (rule rows_fit_extras rows_fit_drop_user; assumption)+

end
