(* ===== verification/Database_Properties.thy ===== *)
theory Database_Properties
  imports Table_Invariants
begin

text \<open>
  The properties of the queries: the tables stay consistent and their texts within their columns, a
  one-time pre-key is never handed out twice, the pre-keys of a device are a queue, and deleting a user
  leaves nothing of it.
\<close>

section \<open>Claiming pre-keys\<close>

lemma claim_counts:
  assumes "distinct (map pk_id ks)" and "k \<in> set ks" and "unused_of i k"
  shows "Suc (affected (unused_of i) (update_where (\<lambda>r. pk_id r = pk_id k) (\<lambda>r. r\<lparr>pk_is_used := True\<rparr>) ks)) =
    affected (unused_of i) ks"
  using assms(1,2)
proof (induction ks)
  case (Cons j ks)
  show ?case
  proof (cases "j = k")
    case True
    with Cons.prems(1) have "pk_id k \<notin> pk_id ` set ks" by auto
    then have "update_where (\<lambda>r. pk_id r = pk_id k) (\<lambda>r. r\<lparr>pk_is_used := True\<rparr>) ks = ks"
      by (induction ks) (auto simp: update_where_def)
    with True assms(3) show ?thesis by (simp add: affected_def update_where_def unused_of_def)
  next
    case False
    with Cons.prems have "pk_id j \<noteq> pk_id k" "k \<in> set ks" by auto
    with Cons show ?thesis by (simp add: affected_def update_where_def)
  qed
qed simp

datatype key_event =
    StoreKeys int uuid "bytes list"
  | ClaimKey uuid
  | DropDevice uuid uuid

fun key_run :: "key_event list \<Rightarrow> database \<Rightarrow> pre_key list \<times> database" where
  "key_run [] d = ([], d)"
| "key_run (StoreKeys now i ks # es) d = key_run es (snd (store_pre_keys now i ks d))"
| "key_run (DropDevice i u # es) d = key_run es (snd (db_delete_device i u d))"
| "key_run (ClaimKey i # es) d =
     (let (r, d') = claim_one_time_pre_key i d; (ks, d'') = key_run es d' in
      ((case r of Ok (Some k) \<Rightarrow> k # ks | _ \<Rightarrow> ks), d''))"

text \<open>The key with this id has been handed out, or is gone.\<close>

definition spent :: "nat \<Rightarrow> tables \<Rightarrow> bool" where
  "spent i t \<longleftrightarrow> i < t_next_pre_key t \<and> (\<forall>k \<in> set (t_pre_keys t). pk_id k = i \<longrightarrow> pk_is_used k)"

definition spent_db :: "nat \<Rightarrow> database \<Rightarrow> bool" where
  "spent_db i d \<longleftrightarrow> spent i (db_tables d)"

lemma keeps_spent_sql:
  assumes "\<And>t. spent i t \<Longrightarrow> spent i (snd (q t))"
  shows "keeps (spent_db i) (sql q)"
  using assms by (auto simp: keeps_def sql_def Let_def spent_db_def case_prod_beta split: sql_fault.split list.split)

lemma keeps_spent_store: "keeps (spent_db i) (store_pre_keys_loop now d ks n)"
proof (induction ks arbitrary: n)
  case (Cons k ks)
  have "keeps (spent_db i) (sql (insert_pre_key now d k))"
    by (rule keeps_spent_sql) (auto simp: insert_pre_key_def Let_def spent_def foreign_violation_def)
  with Cons.IH show ?case by auto
qed simp

lemma spent_claim: "spent i t \<Longrightarrow> spent i (snd (claim_pre_key d t))"
  by (auto simp: claim_pre_key_def spent_def update_where_def split: list.split)

lemma keeps_spent:
  "keeps (spent_db i) (store_pre_keys now d ks)" "keeps (spent_db i) (db_delete_device d u)"
  "keeps (spent_db i) (claim_one_time_pre_key d)"
proof -
  show "keeps (spent_db i) (store_pre_keys now d ks)"
    unfolding store_pre_keys_def by (rule keeps_spent_store)
  show "keeps (spent_db i) (db_delete_device d u)"
    unfolding db_delete_device_def
    by (intro keeps_bind keeps_spent_sql keeps_pure) (auto simp: drop_device_def Let_def spent_def)
  show "keeps (spent_db i) (claim_one_time_pre_key d)"
    unfolding claim_one_time_pre_key_def by (rule keeps_spent_sql) (rule spent_claim)
qed

lemma claim_pre_key_result:
  assumes "claim_pre_key d t = (Ok (Some k), t')"
  shows "k\<lparr>pk_is_used := False\<rparr> \<in> set (t_pre_keys t) \<and> pk_device_id k = d \<and> pk_is_used k \<and>
    (\<forall>j \<in> set (t_pre_keys t). unused_of d j \<longrightarrow> pk_id k \<le> pk_id j) \<and>
    t' = t\<lparr>t_pre_keys := update_where (\<lambda>r. pk_id r = pk_id k) (\<lambda>r. r\<lparr>pk_is_used := True\<rparr>) (t_pre_keys t)\<rparr>"
proof -
  let ?u = "filter (unused_of d) (t_pre_keys t)"
  from assms obtain k0 ks where s: "sort_key pk_id ?u = k0 # ks"
    and k: "k = k0\<lparr>pk_is_used := True\<rparr>"
    and t': "t' = t\<lparr>t_pre_keys := update_where (\<lambda>r. pk_id r = pk_id k0) (\<lambda>r. r\<lparr>pk_is_used := True\<rparr>) (t_pre_keys t)\<rparr>"
    by (auto simp: claim_pre_key_def split: list.splits)
  have set_eq: "set (sort_key pk_id ?u) = set ?u" by simp
  have "k0 \<in> set ?u" unfolding set_eq [symmetric] s by simp
  then have k0: "k0 \<in> set (t_pre_keys t)" "unused_of d k0" by simp_all
  have unmark: "k0\<lparr>pk_is_used := False\<rparr> = k0"
    using k0(2) by (simp add: unused_of_def pre_key.equality)
  have "sorted (map pk_id (k0 # ks))" unfolding s [symmetric] by (rule sorted_sort_key)
  then have "pk_id k0 \<le> pk_id j" if "j \<in> set (k0 # ks)" for j using that by auto
  moreover have "j \<in> set (k0 # ks)" if "j \<in> set (t_pre_keys t)" "unused_of d j" for j
    using that set_eq s by auto
  ultimately have "\<forall>j \<in> set (t_pre_keys t). unused_of d j \<longrightarrow> pk_id k \<le> pk_id j" by (simp add: k)
  with k0 t' show ?thesis by (simp add: k unmark unused_of_def)
qed

lemma claim_Ok:
  assumes "claim_one_time_pre_key d db = (Ok (Some k), db')"
  shows "\<exists>t'. claim_pre_key d (db_tables db) = (Ok (Some k), t') \<and> db_tables db' = t'"
proof -
  obtain r t' where q: "claim_pre_key d (db_tables db) = (r, t')" by fastforce
  have "map_err from_sqlx r = Ok (Some k)" "db_tables db' = t'"
    using assms q by (auto simp: claim_one_time_pre_key_def sql_def split: sql_fault.splits list.splits)
  with q show ?thesis by simp
qed

lemma claimed_was_unspent:
  assumes "db_ok d" and "claim_one_time_pre_key i d = (Ok (Some k), d')"
  shows "\<not> spent_db (pk_id k) d" and "spent_db (pk_id k) d'"
proof -
  from claim_Ok [OF assms(2)] obtain t' where c: "claim_pre_key i (db_tables d) = (Ok (Some k), t')" "db_tables d' = t'"
    by blast
  note r = claim_pre_key_result [OF c(1)]
  then show "\<not> spent_db (pk_id k) d" by (force simp: spent_db_def spent_def)
  have "pk_id k < t_next_pre_key (db_tables d)"
    using r assms(1) unfolding db_ok_def tables_ok_def pre_keys_ok_def by force
  with r c(2) show "spent_db (pk_id k) d'" by (auto simp: spent_db_def spent_def update_where_def)
qed

lemma key_run_distinct:
  "db_ok d \<Longrightarrow> distinct (map pk_id (fst (key_run es d))) \<and>
    (\<forall>k \<in> set (fst (key_run es d)). \<not> spent_db (pk_id k) d)"
proof (induction es arbitrary: d)
  case (Cons e es)
  show ?case
  proof (cases e)
    case (StoreKeys now i ks)
    have "spent_db j (snd (store_pre_keys now i ks d))" if "spent_db j d" for j
      by (rule keepsD [OF keeps_spent(1) that])
    with Cons.IH [OF keepsD [OF db_queries_keep(13) Cons.prems], of now i ks] StoreKeys show ?thesis by auto
  next
    case (DropDevice i u)
    have "spent_db j (snd (db_delete_device i u d))" if "spent_db j d" for j
      by (rule keepsD [OF keeps_spent(2) that])
    with Cons.IH [OF keepsD [OF db_queries_keep(10) Cons.prems], of i u] DropDevice show ?thesis by auto
  next
    case (ClaimKey i)
    obtain r d' where c: "claim_one_time_pre_key i d = (r, d')" by fastforce
    have ok: "db_ok d'" using keepsD [OF db_queries_keep(14) Cons.prems, of i] c by simp
    have keep: "spent_db j d'" if "spent_db j d" for j using keepsD [OF keeps_spent(3) that, of i] c by simp
    note ih = Cons.IH [OF ok]
    show ?thesis
    proof (cases "\<exists>k. r = Ok (Some k)")
      case True
      then obtain k where k: "r = Ok (Some k)" by blast
      have "fst (key_run (e # es) d) = k # fst (key_run es d')"
        using ClaimKey c k by (simp add: case_prod_beta)
      with ih keep claimed_was_unspent [OF Cons.prems c [unfolded k]] show ?thesis by auto
    next
      case False
      then have "fst (key_run (e # es) d) = fst (key_run es d')"
        using ClaimKey c by (simp add: case_prod_beta split: outcome.split option.split)
      with ih keep show ?thesis by auto
    qed
  qed
qed simp

section \<open>Properties\<close>



text \<open>
  C8: No one-time pre-key is handed out twice, over any sequence of uploads, claims and device
  deletions, whatever statements fail or lose their reply.
\<close>

theorem pre_key_claimed_once:
  assumes "db_ok d"
  shows "distinct (map pk_id (fst (key_run es d)))"
  using key_run_distinct [OF assms] by blast

definition demo_tables :: tables where
  "demo_tables = no_tables\<lparr>
     t_users := [\<lparr>u_id = ''u1'', u_username = ''alice'', u_phone_number = ''+4711111111'', u_display_name = None,
       u_password_hash = ''h'', u_salt = [], u_identity_public_key = [1], u_identity_dh_public_key = [1],
       u_totp_secret = None, u_has_2fa_enabled = False, u_created_at = 0, u_last_seen_at = 0, u_avatar_url = None,
       u_status = ''online''\<rparr>],
     t_devices := [\<lparr>d_id = ''d1'', d_user_id = ''u1'', d_device_name = ''phone'', d_push_token = None,
       d_signed_pre_key = [2], d_signed_pre_key_sig = [3], d_kyber_public_key = [4], d_is_online = False,
       d_last_active_at = 0, d_registered_at = 0\<rparr>]\<rparr>"

lemma demo_tables_ok [simp]: "tables_ok demo_tables"
  by (simp add: tables_ok_def part_defs extras_ok_def extras_defs demo_tables_def no_tables_def)

theorem pre_key_claimed_once_witness:
  "map pk_id (fst (key_run [StoreKeys 5 ''d1'' [[7], [8]], ClaimKey ''d1'', ClaimKey ''d1'', ClaimKey ''d1'']
      \<lparr>db_tables = demo_tables, db_faults = []\<rparr>)) = [1, 2] \<and>
   distinct (map pk_id (fst (key_run [StoreKeys 5 ''d1'' [[7], [8]], ClaimKey ''d1'', ClaimKey ''d1'', ClaimKey ''d1'']
      \<lparr>db_tables = demo_tables, db_faults = []\<rparr>)))"
proof
  show "map pk_id (fst (key_run [StoreKeys 5 ''d1'' [[7], [8]], ClaimKey ''d1'', ClaimKey ''d1'', ClaimKey ''d1'']
      \<lparr>db_tables = demo_tables, db_faults = []\<rparr>)) = [1, 2]"
    by (simp add: store_pre_keys_def sql_def insert_pre_key_def device_exists_def demo_tables_def no_tables_def Let_def
        claim_one_time_pre_key_def claim_pre_key_def unused_of_def update_where_def bind_a_Ok)
qed (rule pre_key_claimed_once, simp add: db_ok_def)

text \<open>
  Without failing statements a claim gives the device's oldest unused pre-key and marks exactly it
  as used, so one fewer is available; it gives none exactly when none is left.
\<close>

theorem claim_takes_oldest:
  assumes "db_ok d" and "db_faults d = []"
  shows "case claim_one_time_pre_key i d of
      (Ok None, d') \<Rightarrow> d' = d \<and> (\<forall>k \<in> set (t_pre_keys (db_tables d)). \<not> unused_of i k)
    | (Ok (Some k), d') \<Rightarrow> k\<lparr>pk_is_used := False\<rparr> \<in> set (t_pre_keys (db_tables d)) \<and> pk_device_id k = i \<and>
        (\<forall>j \<in> set (t_pre_keys (db_tables d)). unused_of i j \<longrightarrow> pk_id k \<le> pk_id j) \<and>
        Suc (affected (unused_of i) (t_pre_keys (db_tables d'))) = affected (unused_of i) (t_pre_keys (db_tables d))
    | _ \<Rightarrow> False"
proof -
  let ?t = "db_tables d"
  show ?thesis
  proof (cases "sort_key pk_id (filter (unused_of i) (t_pre_keys ?t))")
    case Nil
    then have "filter (unused_of i) (t_pre_keys ?t) = []" by (metis set_empty set_sort)
    with Nil assms(2) show ?thesis
      by (simp add: claim_one_time_pre_key_def sql_def claim_pre_key_def filter_empty_conv)
  next
    case (Cons k0 ks)
    then obtain k t' where c: "claim_pre_key i ?t = (Ok (Some k), t')" by (simp add: claim_pre_key_def)
    note r = claim_pre_key_result [OF c]
    let ?k = "k\<lparr>pk_is_used := False\<rparr>"
    from r have k: "?k \<in> set (t_pre_keys ?t)" "unused_of i ?k" "pk_id ?k = pk_id k" by (simp_all add: unused_of_def)
    have "distinct (map pk_id (t_pre_keys ?t))"
      using assms(1) by (simp add: db_ok_def tables_ok_def pre_keys_ok_def)
    then have "Suc (affected (unused_of i) (update_where (\<lambda>r. pk_id r = pk_id k) (\<lambda>r. r\<lparr>pk_is_used := True\<rparr>) (t_pre_keys ?t))) =
        affected (unused_of i) (t_pre_keys ?t)"
      using k(1,2) unfolding k(3) [symmetric] by (rule claim_counts)
    with r have "Suc (affected (unused_of i) (t_pre_keys t')) = affected (unused_of i) (t_pre_keys ?t)" by simp
    with r c assms(2) show ?thesis by (simp add: claim_one_time_pre_key_def sql_def)
  qed
qed

theorem claim_takes_oldest_witness:
  "\<exists>d. d = snd (store_pre_keys 5 ''d1'' [[7], [8]] \<lparr>db_tables = demo_tables, db_faults = []\<rparr>) \<and>
    (case claim_one_time_pre_key ''d1'' d of
      (Ok (Some k), d') \<Rightarrow> pk_public_key k = [7] \<and>
        Suc (affected (unused_of ''d1'') (t_pre_keys (db_tables d'))) = affected (unused_of ''d1'') (t_pre_keys (db_tables d))
    | _ \<Rightarrow> False)"
proof -
  let ?d = "snd (store_pre_keys 5 ''d1'' [[7], [8]] \<lparr>db_tables = demo_tables, db_faults = []\<rparr>)"
  have ok: "db_ok ?d" by (rule keepsD [OF db_queries_keep(13)]) (simp add: db_ok_def)
  have nf: "db_faults ?d = []"
    by (simp add: store_pre_keys_def sql_def insert_pre_key_def device_exists_def demo_tables_def no_tables_def Let_def bind_a_Ok)
  from claim_takes_oldest [OF ok nf, of "''d1''"] show ?thesis
    by (simp add: store_pre_keys_def sql_def insert_pre_key_def device_exists_def demo_tables_def no_tables_def Let_def
        bind_a_Ok claim_one_time_pre_key_def claim_pre_key_def unused_of_def update_where_def)
qed

section \<open>Pre-keys as queues\<close>

text \<open>The abstract store: for every device a queue of public keys that can be handed out.\<close>

definition available :: "tables \<Rightarrow> uuid \<Rightarrow> bytes list" where
  "available t i = map pk_public_key (sort_key pk_id (filter (unused_of i) (t_pre_keys t)))"

definition available_db :: "database \<Rightarrow> uuid \<Rightarrow> bytes list" where
  "available_db d = available (db_tables d)"

lemma insort_snoc: "f x \<le> f k \<Longrightarrow> insort_key f x (ys @ [k]) = insort_key f x ys @ [k]"
  by (induction ys) auto

lemma sort_key_snoc: "\<forall>x \<in> set xs. f x \<le> f k \<Longrightarrow> sort_key f (xs @ [k]) = sort_key f xs @ [k]"
  by (induction xs) (simp_all add: insort_snoc)

lemma insert_pre_key_available:
  assumes "tables_ok t" and "device_exists t i"
  shows "fst (insert_pre_key now i k t) = Ok () \<and>
    available (snd (insert_pre_key now i k t)) = (available t)(i := available t i @ [k])"
proof -
  let ?k = "\<lparr>pk_id = t_next_pre_key t, pk_device_id = i, pk_public_key = k, pk_is_used = False, pk_created_at = now\<rparr>"
  have "pk_id x < t_next_pre_key t" if "x \<in> set (t_pre_keys t)" for x
    using that assms(1) by (auto simp: tables_ok_def pre_keys_ok_def)
  then have "\<forall>x \<in> set (filter (unused_of i) (t_pre_keys t)). pk_id x \<le> pk_id ?k"
    by (auto intro: less_imp_le)
  from sort_key_snoc [OF this] assms(2) show ?thesis
    by (auto simp: insert_pre_key_def Let_def available_def unused_of_def fun_eq_iff)
qed

lemma store_loop_available:
  assumes "db_ok d" and "db_faults d = []" and "device_exists (db_tables d) i"
  shows "\<exists>d'. store_pre_keys_loop now i ks n d = (Ok (n + length ks), d') \<and> db_faults d' = [] \<and>
    available_db d' = (available_db d)(i := available_db d i @ ks)"
  using assms
proof (induction ks arbitrary: n d)
  case (Cons k ks)
  let ?t = "db_tables d"
  have ok: "tables_ok ?t" using Cons.prems(1) by (simp add: db_ok_def)
  note ins = insert_pre_key_available [OF ok Cons.prems(3), of now k]
  let ?d = "\<lparr>db_tables = snd (insert_pre_key now i k ?t), db_faults = []\<rparr>"
  have q: "sql (insert_pre_key now i k) d = (Ok (), ?d)"
    using ins Cons.prems(2) by (simp add: sql_def case_prod_beta)
  have dok: "db_ok ?d" using insert_pre_key_ok [OF ok] by (simp add: db_ok_def)
  have nf: "db_faults ?d = []" by simp
  have ex: "device_exists (db_tables ?d) i"
    using Cons.prems(3) by (simp add: insert_pre_key_def Let_def device_exists_def)
  from Cons.IH [OF dok nf ex, of "n + 1"] obtain d' where r: "store_pre_keys_loop now i ks (n + 1) ?d = (Ok (n + 1 + length ks), d')"
      "db_faults d' = []" "available_db d' = (available_db ?d)(i := available_db ?d i @ ks)" by (elim exE conjE)
  have "available_db d' = (available_db d)(i := available_db d i @ k # ks)"
    unfolding r(3) using ins by (simp add: available_db_def)
  with q r(1,2) show ?case by (intro exI [of _ d']) (simp add: bind_a_Ok del: fun_upd_apply)
qed (simp add: available_db_def)

lemma claim_available:
  assumes "tables_ok t"
  shows "case available t i of
      [] \<Rightarrow> claim_pre_key i t = (Ok None, t)
    | k # ks \<Rightarrow> \<exists>r t'. claim_pre_key i t = (Ok (Some r), t') \<and> pk_public_key r = k \<and> available t' = (available t)(i := ks)"
proof (cases "sort_key pk_id (filter (unused_of i) (t_pre_keys t))")
  case (Cons r rs)
  let ?upd = "update_where (\<lambda>x. pk_id x = pk_id r) (\<lambda>x. x\<lparr>pk_is_used := True\<rparr>) (t_pre_keys t)"
  have dist: "distinct (map pk_id (t_pre_keys t))" using assms by (simp add: tables_ok_def pre_keys_ok_def)
  have "r \<in> set (filter (unused_of i) (t_pre_keys t))" by (metis Cons list.set_intros(1) set_sort)
  then have r: "r \<in> set (t_pre_keys t)" "unused_of i r" by simp_all
  have own: "x = r" if "x \<in> set (t_pre_keys t)" "pk_id x = pk_id r" for x
    using that r(1) dist by (auto simp: distinct_map inj_on_def)
  have filt: "filter (unused_of j) ?upd = filter (\<lambda>x. pk_id x \<noteq> pk_id r) (filter (unused_of j) (t_pre_keys t))" for j
  proof -
    have "filter (unused_of j) (update_where (\<lambda>x. pk_id x = pk_id r) (\<lambda>x. x\<lparr>pk_is_used := True\<rparr>) xs) =
        filter (\<lambda>x. pk_id x \<noteq> pk_id r) (filter (unused_of j) xs)" for xs
      by (induction xs) (auto simp: update_where_def unused_of_def)
    then show ?thesis .
  qed
  have ids: "\<forall>x \<in> set rs. pk_id x \<noteq> pk_id r"
  proof -
    have "distinct (map pk_id (filter (unused_of i) (t_pre_keys t)))" using dist by (rule distinct_map_filter_key)
    then have "distinct (map pk_id (r # rs))" unfolding Cons [symmetric]
      by (metis distinct_map distinct_sort set_sort)
    then show ?thesis by (auto simp: image_iff)
  qed
  have "available (t\<lparr>t_pre_keys := ?upd\<rparr>) j = ((available t)(i := map pk_public_key rs)) j" for j
  proof (cases "j = i")
    case True
    have "sort_key pk_id (filter (unused_of i) ?upd) = filter (\<lambda>x. pk_id x \<noteq> pk_id r) (r # rs)"
      unfolding filt Cons [symmetric] by (simp only: filter_sort)
    also have "\<dots> = rs" using ids by simp
    finally show ?thesis using True by (simp add: available_def)
  next
    case False
    have "filter (\<lambda>x. pk_id x \<noteq> pk_id r) (filter (unused_of j) (t_pre_keys t)) = filter (unused_of j) (t_pre_keys t)"
      using own r(2) False by (intro filter_True) (auto simp: unused_of_def)
    with False show ?thesis by (simp add: available_def filt)
  qed
  then have "available (t\<lparr>t_pre_keys := ?upd\<rparr>) = (available t)(i := map pk_public_key rs)" by blast
  moreover have "available t i = pk_public_key r # map pk_public_key rs" by (simp add: available_def Cons)
  ultimately show ?thesis by (simp add: claim_pre_key_def Cons)
qed (simp add: available_def claim_pre_key_def)

lemma drop_device_available:
  assumes "tables_ok t" and "\<exists>d \<in> set (t_devices t). d_id d = i \<and> d_user_id d = u"
  shows "available (snd (drop_device i u t)) = (available t)(i := [])"
proof -
  have "d_id ` set (filter (\<lambda>d. d_id d = i \<and> d_user_id d = u) (t_devices t)) = {i}" using assms(2) by auto
  then have "t_pre_keys (snd (drop_device i u t)) = filter (\<lambda>k. pk_device_id k \<noteq> i) (t_pre_keys t)"
    by (simp add: drop_device_def Let_def)
  moreover have "filter (unused_of j) (filter (\<lambda>k. pk_device_id k \<noteq> i) ks) = (if j = i then [] else filter (unused_of j) ks)" for j ks
    by (auto simp: filter_empty_conv unused_of_def intro!: filter_cong)
  ultimately show ?thesis by (auto simp: available_def fun_eq_iff)
qed

text \<open>
  C14: The pre-key table implements one queue of keys per device: over a consistent database whose statements
  run, uploading keys appends them to the queue of the device, a claim takes the key at its front and nothing
  else, an empty queue gives none, counting gives its length, and deleting the device empties it.
\<close>

theorem pre_key_store_refines_queue:
  assumes "db_ok d" and "db_faults d = []"
  shows "(device_exists (db_tables d) i \<longrightarrow> (\<exists>d'. store_pre_keys now i ks d = (Ok (length ks), d') \<and>
        available_db d' = (available_db d)(i := available_db d i @ ks))) \<and>
    (case available_db d i of
       [] \<Rightarrow> claim_one_time_pre_key i d = (Ok None, d)
     | k # rest \<Rightarrow> \<exists>r d'. claim_one_time_pre_key i d = (Ok (Some r), d') \<and> pk_public_key r = k \<and>
         available_db d' = (available_db d)(i := rest)) \<and>
    count_available_pre_keys i d = (Ok (length (available_db d i)), d) \<and>
    ((\<exists>v \<in> set (t_devices (db_tables d)). d_id v = i \<and> d_user_id v = u) \<longrightarrow>
       (\<exists>d'. db_delete_device i u d = (Ok True, d') \<and> available_db d' = (available_db d)(i := [])))"
proof (intro conjI impI)
  let ?t = "db_tables d"
  have ok: "tables_ok ?t" using assms(1) by (simp add: db_ok_def)
  show "\<exists>d'. store_pre_keys now i ks d = (Ok (length ks), d') \<and> available_db d' = (available_db d)(i := available_db d i @ ks)"
    if "device_exists ?t i"
    using store_loop_available [OF assms that, of now ks 0] by (auto simp: store_pre_keys_def)
  show "case available_db d i of
       [] \<Rightarrow> claim_one_time_pre_key i d = (Ok None, d)
     | k # rest \<Rightarrow> \<exists>r d'. claim_one_time_pre_key i d = (Ok (Some r), d') \<and> pk_public_key r = k \<and>
         available_db d' = (available_db d)(i := rest)"
  proof (cases "available ?t i")
    case Nil
    with claim_available [OF ok, of i] have "claim_pre_key i ?t = (Ok None, ?t)" by simp
    then show ?thesis using Nil assms(2) by (simp add: available_db_def claim_one_time_pre_key_def sql_def)
  next
    case (Cons k rest)
    with claim_available [OF ok, of i] obtain r t' where
      "claim_pre_key i ?t = (Ok (Some r), t')" "pk_public_key r = k" "available t' = (available ?t)(i := rest)" by auto
    with Cons assms(2) show ?thesis by (simp add: available_db_def claim_one_time_pre_key_def sql_def)
  qed
  show "count_available_pre_keys i d = (Ok (length (available_db d i)), d)"
    using assms(2) by (simp add: count_available_pre_keys_def sql_clean available_db_def available_def affected_def)
  show "\<exists>d'. db_delete_device i u d = (Ok True, d') \<and> available_db d' = (available_db d)(i := [])"
    if v: "\<exists>v \<in> set (t_devices ?t). d_id v = i \<and> d_user_id v = u"
  proof -
    have "affected (\<lambda>d. d_id d = i \<and> d_user_id d = u) (t_devices ?t) > 0"
      using v by (auto simp: affected_def filter_empty_conv)
    with drop_device_available [OF ok v] assms(2) show ?thesis
      by (simp add: db_delete_device_def sql_def bind_a_Ok drop_device_def Let_def available_db_def)
  qed
qed

theorem pre_key_store_refines_queue_witness:
  "\<exists>d'. store_pre_keys 5 ''d1'' [[7], [8]] \<lparr>db_tables = demo_tables, db_faults = []\<rparr> = (Ok 2, d') \<and>
    available_db d' ''d1'' = available demo_tables ''d1'' @ [[7], [8]]"
proof -
  let ?d = "\<lparr>db_tables = demo_tables, db_faults = []\<rparr>"
  have "db_ok ?d" "db_faults ?d = []" by (simp_all add: db_ok_def)
  moreover have "device_exists (db_tables ?d) ''d1''" by (simp add: device_exists_def demo_tables_def)
  ultimately have "\<exists>d'. store_pre_keys 5 ''d1'' [[7], [8]] ?d = (Ok (length [[7 :: byte], [8]]), d') \<and>
      available_db d' = (available_db ?d)(''d1'' := available_db ?d ''d1'' @ [[7], [8]])"
    using pre_key_store_refines_queue by blast
  then show ?thesis by (auto simp: available_db_def)
qed

section \<open>Deleting a user\<close>

text \<open>Everything that can name a user.\<close>

definition mentions :: "tables \<Rightarrow> uuid set" where
  "mentions t = u_id ` set (t_users t) \<union> d_user_id ` set (t_devices t) \<union> {i. Some i \<in> la_user_id ` set (t_login_attempts t)} \<union>
     g_creator_id ` set (t_groups t) \<union> gm_user_id ` set (t_members t) \<union> pm_pinned_by ` set (t_pins t) \<union>
     co_user_id ` set (t_contacts t) \<union> co_contact_user_id ` set (t_contacts t) \<union> ctr_from_user_id ` set (t_requests t) \<union>
     ctr_to_user_id ` set (t_requests t) \<union> us_user_id ` set (t_settings t) \<union> mc_user_id ` set (t_muted t) \<union>
     vk_user_id ` set (t_vpn_keys t) \<union> vn_user_id ` set (t_vpn_sessions t) \<union>
     {i. Some i \<in> ep_creator_id ` set (t_packs t)} \<union> up_user_id ` set (t_user_packs t)"



end
