(* ===== verification/Api_State.thy ===== *)
theory Api_State
  imports Auth_Tokens Ephemeral_Store Database_Extras Rate_Limiter Native_Api
begin

text \<open>
  What the handlers of crates/hysj-api share: the errors of hysj-shared and their HTTP answers
  (error.rs), the messages of the WebSocket protocol (dto/messages.rs, dto/wipe.rs), the server state
  (state.rs, config.rs), authentication of a request (middleware/auth.rs), and sending to connected
  devices (ws/connection\_tracker.rs). A handler is an \<open>act\<close> on the server state \<open>'s app\<close>, where \<open>'s\<close>
  is the state of the Redis server; the awaits inside a handler are not interleaved with others.
\<close>

section \<open>Errors: hysj-shared/error.rs and error.rs\<close>

datatype hysj_error =
    AuthFailed string
  | InvalidCredentials
  | UserNotFound uuid
  | DeviceNotFound uuid
  | GroupNotFound uuid
  | PreKeyExhausted uuid
  | RateLimited
  | TwoFactorRequired
  | InvalidTwoFactorCode
  | TokenExpired
  | InvalidToken
  | WipeFailed string
  | CryptoFailure string
  | DatabaseError string
  | RedisFailure string
  | ValidationError string
  | Forbidden string
  | ResourceNotFound string
  | InternalError string
  | Internal

text \<open>\<open>into_response\<close>: the HTTP status and the text of the \<open>error\<close> field.\<close>

fun into_response :: "hysj_error \<Rightarrow> nat \<times> string" where
  "into_response (AuthFailed msg) = (401, msg)"
| "into_response InvalidCredentials = (401, ''Invalid credentials'')"
| "into_response (UserNotFound i) = (404, ''User not found: '' @ i)"
| "into_response (DeviceNotFound i) = (404, ''Device not found: '' @ i)"
| "into_response (GroupNotFound i) = (404, ''Group not found: '' @ i)"
| "into_response (PreKeyExhausted i) = (410, ''Pre-keys exhausted for device: '' @ i)"
| "into_response RateLimited = (429, ''Rate limit exceeded'')"
| "into_response TwoFactorRequired = (403, ''2FA required'')"
| "into_response InvalidTwoFactorCode = (401, ''Invalid 2FA code'')"
| "into_response TokenExpired = (401, ''Token expired'')"
| "into_response InvalidToken = (401, ''Invalid token'')"
| "into_response (WipeFailed msg) = (500, msg)"
| "into_response (CryptoFailure msg) = (500, msg)"
| "into_response (DatabaseError msg) = (500, ''Internal server error'')"
| "into_response (RedisFailure msg) = (500, ''Internal server error'')"
| "into_response (ValidationError msg) = (400, msg)"
| "into_response (Forbidden msg) = (403, msg)"
| "into_response (ResourceNotFound msg) = (404, msg)"
| "into_response (InternalError msg) = (500, ''Internal server error'')"
| "into_response Internal = (500, ''Internal server error'')"

fun from_db_error :: "db_error \<Rightarrow> hysj_error" where
  "from_db_error DbNotFound = Internal"
| "from_db_error (Conflict msg) = ValidationError msg"
| "from_db_error (QueryFailed msg) = DatabaseError msg"

fun from_auth_error :: "auth_error \<Rightarrow> hysj_error" where
  "from_auth_error AuthExpired = TokenExpired"
| "from_auth_error AuthInvalidToken = InvalidToken"
| "from_auth_error (TokenValidationFailed msg) = AuthFailed msg"
| "from_auth_error other = AuthFailed (auth_error_str other)"

definition from_messaging_error :: "messaging_error \<Rightarrow> hysj_error" where
  "from_messaging_error e = RedisFailure (messaging_error_str e)"

section \<open>Messages: dto/messages.rs and dto/wipe.rs\<close>

record encrypted_envelope =
  en_recipient_device_id :: uuid
  en_message_id :: string
  en_sealed_blob :: string
  en_ttl_seconds :: "u32 option"
  en_self_destruct_seconds :: "u32 option"
  en_reply_to_message_id :: "string option"
  en_is_forwarded :: bool

record delivery_ack =
  da_device_id :: uuid
  da_message_id :: string

record typing_indicator =
  ti_recipient_id :: uuid

record read_receipt =
  rr_sender_id :: uuid
  rr_message_id :: string

record reaction =
  re_recipient_id :: uuid
  re_message_id :: string
  re_emoji :: string
  re_add :: bool

datatype call_signal_type = Offer | Answer | IceCandidate | Hangup | Busy

record call_signal =
  cs_peer_id :: uuid
  cs_call_id :: string
  cs_signal_type :: call_signal_type
  cs_payload :: string

record save_in_chat =
  si_recipient_id :: uuid
  si_message_id :: string
  si_saved :: bool

record pin_message =
  pi_group_id :: uuid
  pi_message_id :: string
  pi_pin :: bool

record wipe_ack =
  wa_wipe_id :: string
  wa_device_id :: uuid

datatype ws_message =
    SendMessage encrypted_envelope
  | Delivered delivery_ack
  | Typing typing_indicator
  | ReadMsg read_receipt
  | ReactionMsg reaction
  | SaveInChat save_in_chat
  | CallSignal call_signal
  | PinMessage pin_message
  | SendGroupMessage uuid encrypted_envelope
  | WipeCommand wipe_request
  | WipeAck wipe_ack
  | WsError string

section \<open>pagination.rs\<close>

record pagination_params =
  pp_limit :: int
  pp_offset :: int

definition default_limit :: int where
  "default_limit = 50"

text \<open>The query string's parameters, or their defaults.\<close>

definition pagination_of :: "int option \<Rightarrow> int option \<Rightarrow> pagination_params" where
  "pagination_of limit offset =
     \<lparr>pp_limit = (case limit of Some l \<Rightarrow> l | None \<Rightarrow> default_limit),
      pp_offset = (case offset of Some n \<Rightarrow> n | None \<Rightarrow> 0)\<rparr>"

section \<open>Configuration and libraries\<close>

record twilio_config =
  tw_account_sid :: string
  tw_auth_token :: string
  tw_from_number :: string

record app_config =
  cf_database_url :: string
  cf_redis_url :: string
  cf_jwt_secret :: string
  cf_cert_signing_seed :: bytes
  cf_server_address :: string
  cf_twilio :: "twilio_config option"
  cf_fcm_server_key :: "string option"
  cf_cors_origins :: "string list"

text \<open>A POST the server sends: address, and the form or JSON body as its fields.\<close>

record http_post =
  hp_url :: string
  hp_auth :: string
  hp_fields :: "(string \<times> string) list"

text \<open>
  The libraries and services a handler uses, all parameters: Redis with the fuel of SCAN loops, the
  authentication crates, parsing of UUIDs, JSON of the message types, base64, and outgoing HTTP (a
  failed request, or the status it was answered with).
\<close>

record ('s, 't) env =
  e_redis :: "'s redis"
  e_fuel :: nat
  e_config :: app_config
  e_jwt :: jwt_lib
  e_argon2 :: argon2_lib
  e_totp :: "'t totp_lib"
  e_prims :: prims
  e_b64 :: b64
  e_parse_uuid :: "string \<Rightarrow> uuid option"
  e_ws_json :: "ws_message codec"
  e_envelope_json :: "encrypted_envelope codec"
  e_wipe_json :: "pending_wipe codec"
  e_meta_json :: "media_meta text_codec"
  e_cert_json :: "sender_certificate \<Rightarrow> string + string"
  e_http :: "http_post \<Rightarrow> string + nat"

text \<open>What one request draws: the clocks, fresh ids and random values.\<close>

record inputs =
  in_now :: int
  in_instant :: int
  in_uuid :: "nat \<Rightarrow> uuid"
  in_digit :: "nat \<Rightarrow> nat"
  in_salt :: string
  in_secret :: bytes
  in_random :: "nat \<Rightarrow> bytes"

section \<open>state.rs\<close>

text \<open>
  An unbounded channel to the task that writes a socket: whether its receiver is still there, the
  texts sent through it, and the flag the two tasks of a socket share for pings and pongs.
\<close>

record channel =
  ch_receiving :: bool
  ch_frames :: "string list"
  ch_pong :: bool

record 's app =
  ap_db :: database
  ap_redis :: 's
  ap_connections :: "(uuid \<times> nat) list"
  ap_channels :: "nat \<Rightarrow> channel"
  ap_limiter :: limiter

definition app_new :: "database \<Rightarrow> 's \<Rightarrow> 's app" where
  "app_new db redis =
     \<lparr>ap_db = db, ap_redis = redis, ap_connections = [],
      ap_channels = (\<lambda>_. \<lparr>ch_receiving = False, ch_frames = [], ch_pong = True\<rparr>), ap_limiter = limiter_new\<rparr>"

type_synonym ('s, 'a) handler = "('s app, hysj_error, 'a) act"

definition on_db :: "(database, 'e, 'a) act \<Rightarrow> ('s app, 'e, 'a) act" where
  "on_db q = (\<lambda>a. case q (ap_db a) of (r, d) \<Rightarrow> (r, a\<lparr>ap_db := d\<rparr>))"

definition on_redis :: "('s, 'e, 'a) act \<Rightarrow> ('s app, 'e, 'a) act" where
  "on_redis q = (\<lambda>a. case q (ap_redis a) of (r, s) \<Rightarrow> (r, a\<lparr>ap_redis := s\<rparr>))"

text \<open>\<open>?\<close> on a database or messaging call.\<close>

definition db :: "'a query \<Rightarrow> ('s, 'a) handler" where
  "db q = map_err_a from_db_error (on_db q)"

definition messaging :: "('s, 'a) messaging \<Rightarrow> ('s, 'a) handler" where
  "messaging q = map_err_a from_messaging_error (on_redis q)"

text \<open>\<open>map_err(|e| AppError(HysjError::InternalError(e.to_string())))?\<close>\<close>

definition or_internal :: "('s, 'a) messaging \<Rightarrow> ('s, 'a) handler" where
  "or_internal q = map_err_a (\<lambda>e. InternalError (messaging_error_str e)) (on_redis q)"

text \<open>A loop that has run out of fuel: the call does not return.\<close>

definition returned :: "'a option \<Rightarrow> ('s, 'e, 'a) act" where
  "returned r = (case r of Some x \<Rightarrow> ret x | None \<Rightarrow> lift_o (Panic ''the scan did not end''))"

definition limit_ok :: "inputs \<Rightarrow> string \<Rightarrow> nat \<Rightarrow> nat \<Rightarrow> ('s app, 'e, bool) act" where
  "limit_ok I key max_requests window_seconds = (\<lambda>a.
     case check_rate_limit (in_instant I) key max_requests (int window_seconds) (ap_limiter a) of
       (ok, l) \<Rightarrow> (Ok ok, a\<lparr>ap_limiter := l\<rparr>))"

definition require :: "bool \<Rightarrow> 'e \<Rightarrow> ('s, 'e, unit) act" where
  "require c e = (if c then ret () else throw e)"

text \<open>\<open>map_err(|_| e)?\<close> on a query.\<close>

definition db_else :: "hysj_error \<Rightarrow> 'a query \<Rightarrow> ('s, 'a) handler" where
  "db_else e q = map_err_a (\<lambda>_. e) (on_db q)"

definition or_none :: "hysj_error \<Rightarrow> 'a option \<Rightarrow> ('s, 'a) handler" where
  "or_none e v = (case v of Some x \<Rightarrow> ret x | None \<Rightarrow> throw e)"

text \<open>A \<open>json!\<close> object.\<close>

datatype json = JText string | JNum nat | JBool bool | JObject "(string \<times> json) list"

type_synonym json_object = "(string \<times> json) list"

section \<open>middleware/auth.rs\<close>

record auth_user =
  au_user_id :: uuid
  au_device_id :: uuid
  au_username :: string

text \<open>Request headers: name and, where the value is text, the text.\<close>

type_synonym headers = "(string \<times> string option) list"

definition header :: "headers \<Rightarrow> string \<Rightarrow> string option" where
  "header hs name = Option.bind (map_of hs name) id"

definition ids_of_claims :: "('s, 't) env \<Rightarrow> claims \<Rightarrow> (hysj_error, uuid \<times> uuid) outcome" where
  "ids_of_claims E c =
     (case e_parse_uuid E (cl_sub c) of
        None \<Rightarrow> Err InvalidToken
      | Some user_id \<Rightarrow>
          (case e_parse_uuid E (cl_device_id c) of
             None \<Rightarrow> Err InvalidToken
           | Some device_id \<Rightarrow> Ok (user_id, device_id)))"

definition from_request_parts :: "('s, 't) env \<Rightarrow> inputs \<Rightarrow> headers \<Rightarrow> (hysj_error, auth_user) outcome" where
  "from_request_parts E I hs =
     (case header hs ''authorization'' of
        None \<Rightarrow> Err (AuthFailed ''Missing Authorization header'')
      | Some auth_header \<Rightarrow>
          if \<not> prefix ''Bearer '' auth_header then Err (AuthFailed ''Invalid Authorization format'')
          else
            bind_o (map_err from_auth_error
              (validate_token (e_jwt E) (in_now I) (drop 7 auth_header) (cf_jwt_secret (e_config E)))) (\<lambda>claims.
            bind_o (ids_of_claims E claims) (\<lambda>(user_id, device_id).
            Ok \<lparr>au_user_id = user_id, au_device_id = device_id, au_username = cl_username claims\<rparr>)))"

section \<open>ws/connection\_tracker.rs\<close>

definition push_frame :: "nat \<Rightarrow> string \<Rightarrow> 's app \<Rightarrow> 's app" where
  "push_frame c text a =
     a\<lparr>ap_channels := (ap_channels a)(c := (ap_channels a c)\<lparr>ch_frames := ch_frames (ap_channels a c) @ [text]\<rparr>)\<rparr>"

definition drop_connection :: "uuid \<Rightarrow> 's app \<Rightarrow> 's app" where
  "drop_connection device_id a = a\<lparr>ap_connections := AList.delete device_id (ap_connections a)\<rparr>"

definition send_to_device :: "('s, 't) env \<Rightarrow> uuid \<Rightarrow> ws_message \<Rightarrow> ('s app, unit, unit) act" where
  "send_to_device E device_id message = (\<lambda>a.
     case map_of (ap_connections a) device_id of
       Some sender \<Rightarrow>
         (case to_json (e_ws_json E) message of
            Inl e \<Rightarrow> (Err (), a)
          | Inr json \<Rightarrow>
              if ch_receiving (ap_channels a sender) then (Ok (), push_frame sender (bytes_str json) a)
              else (Err (), drop_connection device_id a))
     | None \<Rightarrow> (Err (), a))"

text \<open>\<open>let _ = send_to_device(..)\<close>\<close>

definition try_send :: "('s, 't) env \<Rightarrow> uuid \<Rightarrow> ws_message \<Rightarrow> ('s app, 'e, unit) act" where
  "try_send E device_id message = catch_a (send_to_device E device_id message) ()"

definition send_to_user_devices :: "('s, 't) env \<Rightarrow> uuid \<Rightarrow> ws_message \<Rightarrow> ('s app, 'e, unit) act" where
  "send_to_user_devices E user_id message =
     bind_a (catch_a (bind_a (on_db (list_by_user user_id)) (\<lambda>ds. ret (Some ds))) None) (\<lambda>devices.
     case devices of
       None \<Rightarrow> ret ()
     | Some ds \<Rightarrow> for_a ds (\<lambda>device. try_send E (d_id device) message))"

end
