(* ===== verification/Push_Routes.thy ===== *)
theory Push_Routes
  imports Api_State
begin

text \<open>
  crates/hysj-api/src/routes/push.rs: registering the push token of a device, and the notification
  sent for an offline device.
\<close>

record register_push_token_request =
  rp_push_token :: string
  rp_platform :: string

record push_token_response =
  pt_message :: string

definition push_key :: "uuid \<Rightarrow> string \<Rightarrow> string" where
  "push_key device_id platform = ''push:'' @ device_id @ '':'' @ platform"

definition register_push_token ::
    "('s, 't) env \<Rightarrow> auth_user \<Rightarrow> register_push_token_request \<Rightarrow> ('s, push_token_response) handler" where
  "register_push_token E auth req =
     (if rp_push_token req = '''' then throw (ValidationError ''Push token cannot be empty'')
      else if rp_platform req \<noteq> ''fcm'' \<and> rp_platform req \<noteq> ''apns'' then
        throw (ValidationError (''Platform must be '' @ [CHR 0x27] @ ''fcm'' @ [CHR 0x27] @ '' or '' @ [CHR 0x27] @ ''apns'' @ [CHR 0x27]))
      else
        bind_a (map_err_a InternalError (on_redis
          (r_set (e_redis E) (push_key (au_device_id auth) (rp_platform req)) (str_bytes (rp_push_token req))))) (\<lambda>_.
        ret \<lparr>pt_message = ''Push token registered''\<rparr>))"

definition unregister_push_token :: "('s, 't) env \<Rightarrow> auth_user \<Rightarrow> ('s, push_token_response) handler" where
  "unregister_push_token E auth =
     bind_a (for_a [''fcm'', ''apns''] (\<lambda>platform.
       bind_a (map_err_a InternalError (on_redis (r_del (e_redis E) [push_key (au_device_id auth) platform])))
         (\<lambda>_. ret ()))) (\<lambda>_.
     ret \<lparr>pt_message = ''Push tokens removed''\<rparr>)"

definition push_payload :: "string \<Rightarrow> string \<Rightarrow> string \<Rightarrow> (string \<times> string) list" where
  "push_payload token title body =
     [(''to'', token), (''notification.title'', title), (''notification.body'', body),
      (''data.type'', ''message''), (''priority'', ''high'')]"

definition send_push_notification ::
    "('s, 't) env \<Rightarrow> string \<Rightarrow> uuid \<Rightarrow> string \<Rightarrow> string \<Rightarrow> ('s app, string, unit) act" where
  "send_push_notification E fcm_server_key device_id title body =
     bind_a (on_redis (get_string (e_redis E) (push_key device_id ''fcm''))) (\<lambda>token.
     case token of
       None \<Rightarrow> ret ()
     | Some t \<Rightarrow>
         (case e_http E \<lparr>hp_url = ''https://fcm.googleapis.com/fcm/send'', hp_auth = ''key='' @ fcm_server_key,
             hp_fields = push_payload t title body\<rparr> of
            Inl e \<Rightarrow> throw (''FCM request failed: '' @ e)
          | Inr status \<Rightarrow> ret ()))"

end
