(* ===== verification/Ws_Handler.thy ===== *)
theory Ws_Handler
  imports Push_Routes
begin

text \<open>
  crates/hysj-api/src/ws/handler.rs: the upgrade of a request, every branch of \<open>handle_ws_message\<close>,
  what a device is sent when it connects, and the tasks of a socket: the reader's loop, the writer
  with its pings, and the cleanup. The steps of sockets are interleaved in \<open>Socket_Steps\<close>.
\<close>

definition MESSAGE_TTL_SECONDS :: nat where
  "MESSAGE_TTL_SECONDS = 72 * 60 * 60"

section \<open>ws\_upgrade\<close>

definition ws_upgrade ::
    "('s, 't) env \<Rightarrow> inputs \<Rightarrow> (string \<times> string) list \<Rightarrow> (hysj_error, uuid \<times> uuid \<times> string) outcome" where
  "ws_upgrade E I params =
     (case map_of params ''token'' of
        None \<Rightarrow> Err (AuthFailed ''Missing token query parameter'')
      | Some token \<Rightarrow>
          bind_o (map_err from_auth_error (validate_token (e_jwt E) (in_now I) token (cf_jwt_secret (e_config E)))) (\<lambda>claims.
          bind_o (ids_of_claims E claims) (\<lambda>(user_id, device_id).
          Ok (user_id, device_id, cl_username claims))))"

section \<open>handle\_ws\_message\<close>

text \<open>Calls whose error becomes a text, and calls followed by \<open>unwrap_or_default\<close>.\<close>

type_synonym ('s, 'a) ws_call = "('s app, string, 'a) act"

definition db_text :: "'a query \<Rightarrow> ('s, 'a) ws_call" where
  "db_text q = map_err_a db_error_str (on_db q)"

definition messaging_text :: "('s, 'a) messaging \<Rightarrow> ('s, 'a) ws_call" where
  "messaging_text q = map_err_a messaging_error_str (on_redis q)"

definition db_or :: "'a \<Rightarrow> 'a query \<Rightarrow> ('s app, 'e, 'a) act" where
  "db_or d q = catch_a (on_db q) d"

definition delivered_to :: "('s, 't) env \<Rightarrow> uuid \<Rightarrow> ws_message \<Rightarrow> ('s app, 'e, bool) act" where
  "delivered_to E device_id message =
     catch_a (bind_a (send_to_device E device_id message) (\<lambda>_. ret True)) False"

definition message_ttl :: "encrypted_envelope \<Rightarrow> nat" where
  "message_ttl envelope = (case en_ttl_seconds envelope of Some t \<Rightarrow> unat t | None \<Rightarrow> MESSAGE_TTL_SECONDS)"

text \<open>The push notification to an offline device; its failure is ignored.\<close>

definition notify_offline :: "('s, 't) env \<Rightarrow> uuid \<Rightarrow> ('s, unit) ws_call" where
  "notify_offline E device_id =
     (case cf_fcm_server_key (e_config E) of
        Some fcm_key \<Rightarrow> catch_a (send_push_notification E fcm_key device_id ''Hysj'' ''New message'') ()
      | None \<Rightarrow> ret ())"

definition on_send_message :: "('s, 't) env \<Rightarrow> encrypted_envelope \<Rightarrow> ('s, unit) ws_call" where
  "on_send_message E envelope =
     (let recipient_device_id = en_recipient_device_id envelope;
          message_id = en_message_id envelope;
          ttl = message_ttl envelope in
      bind_a (delivered_to E recipient_device_id (SendMessage envelope)) (\<lambda>delivered.
      if delivered then ret ()
      else
        bind_a (lift_o (of_sum id (to_json (e_envelope_json E) envelope))) (\<lambda>blob.
        bind_a (messaging_text (enqueue (e_redis E) recipient_device_id message_id blob ttl)) (\<lambda>_.
        notify_offline E recipient_device_id))))"

text \<open>The loop over the devices of the group's other members.\<close>

definition send_or_queue :: "('s, 't) env \<Rightarrow> ws_message \<Rightarrow> string \<Rightarrow> bytes \<Rightarrow> nat \<Rightarrow> device \<Rightarrow> ('s, unit) ws_call" where
  "send_or_queue E msg message_id blob ttl device =
     bind_a (delivered_to E (d_id device) msg) (\<lambda>delivered.
     if delivered then ret ()
     else catch_a (on_redis (enqueue (e_redis E) (d_id device) message_id blob ttl)) ())"

definition other_members :: "uuid \<Rightarrow> group_member list \<Rightarrow> uuid list" where
  "other_members user_id members = map gm_user_id (filter (\<lambda>m. gm_user_id m \<noteq> user_id) members)"

definition on_send_group_message :: "('s, 't) env \<Rightarrow> uuid \<Rightarrow> uuid \<Rightarrow> encrypted_envelope \<Rightarrow> ('s, unit) ws_call" where
  "on_send_group_message E user_id group_id envelope =
     bind_a (db_text (get_members group_id)) (\<lambda>members.
     (let ttl = message_ttl envelope; member_ids = other_members user_id members in
      bind_a (db_or [] (list_by_users member_ids)) (\<lambda>devices.
      bind_a (lift_o (of_sum id (to_json (e_envelope_json E) envelope))) (\<lambda>blob.
      for_a devices (send_or_queue E (SendGroupMessage group_id envelope) (en_message_id envelope) blob ttl)))))"

definition device_ids :: "uuid \<Rightarrow> ('s app, 'e, uuid list) act" where
  "device_ids user_id = bind_a (db_or [] (list_by_user user_id)) (\<lambda>devices. ret (map d_id devices))"

definition ws_wipe_targets :: "uuid \<Rightarrow> wipe_request \<Rightarrow> ('s, uuid list) ws_call" where
  "ws_wipe_targets user_id wipe_req =
     (case wr_wipe_type wipe_req of
        WipeAll \<Rightarrow> device_ids user_id
      | WipeDevice \<Rightarrow> ret (case wr_target_device_id wipe_req of Some i \<Rightarrow> [i] | None \<Rightarrow> [])
      | WipeConversation \<Rightarrow>
          bind_a (case wr_conversation_partner_id wipe_req of Some p \<Rightarrow> device_ids p | None \<Rightarrow> ret []) (\<lambda>ids.
          bind_a (device_ids user_id) (\<lambda>own. ret (ids @ own))))"

definition on_wipe_command :: "('s, 't) env \<Rightarrow> inputs \<Rightarrow> uuid \<Rightarrow> uuid \<Rightarrow> wipe_request \<Rightarrow> ('s, unit) ws_call" where
  "on_wipe_command E I user_id sender_device_id wipe_req =
     bind_a (ws_wipe_targets user_id wipe_req) (\<lambda>target_devices.
     bind_a (messaging_text (issue_wipe (e_redis E) (e_wipe_json E) (in_uuid I 0) (in_now I) target_devices wipe_req)) (\<lambda>wipe_id.
     for_a target_devices (\<lambda>did.
       if did \<noteq> sender_device_id then try_send E did (WipeCommand wipe_req) else ret ())))"

definition on_pin_message :: "('s, 't) env \<Rightarrow> inputs \<Rightarrow> uuid \<Rightarrow> pin_message \<Rightarrow> ('s, unit) ws_call" where
  "on_pin_message E I user_id p =
     bind_a (db_or False (is_member (pi_group_id p) user_id)) (\<lambda>member.
     if \<not> member then throw ''Not a member of this group''
     else
       bind_a (if pi_pin p
         then bind_a (db_text (pin (in_now I) (pi_group_id p) (pi_message_id p) user_id)) (\<lambda>_. ret ())
         else db_text (unpin (pi_group_id p) (pi_message_id p))) (\<lambda>_.
       bind_a (db_or [] (get_members (pi_group_id p))) (\<lambda>members.
       bind_a (db_or [] (list_by_users (other_members user_id members))) (\<lambda>devices.
       for_a devices (\<lambda>device. try_send E (d_id device) (PinMessage p))))))"

fun handle_ws_message :: "('s, 't) env \<Rightarrow> inputs \<Rightarrow> uuid \<Rightarrow> uuid \<Rightarrow> ws_message \<Rightarrow> ('s, unit) ws_call" where
  "handle_ws_message E I user_id sender_device_id (SendMessage envelope) = on_send_message E envelope"
| "handle_ws_message E I user_id sender_device_id (SendGroupMessage group_id envelope) =
     on_send_group_message E user_id group_id envelope"
| "handle_ws_message E I user_id sender_device_id (Delivered ack) =
     bind_a (messaging_text (delete_message (e_redis E) (da_device_id ack) (da_message_id ack))) (\<lambda>_. ret ())"
| "handle_ws_message E I user_id sender_device_id (Typing indicator) =
     send_to_user_devices E (ti_recipient_id indicator) (Typing indicator)"
| "handle_ws_message E I user_id sender_device_id (ReadMsg receipt) =
     send_to_user_devices E (rr_sender_id receipt) (ReadMsg receipt)"
| "handle_ws_message E I user_id sender_device_id (WipeCommand wipe_req) =
     on_wipe_command E I user_id sender_device_id wipe_req"
| "handle_ws_message E I user_id sender_device_id (WipeAck ack) =
     bind_a (messaging_text (confirm_wipe (e_redis E) (wa_device_id ack) (wa_wipe_id ack))) (\<lambda>_. ret ())"
| "handle_ws_message E I user_id sender_device_id (SaveInChat save) =
     send_to_user_devices E (si_recipient_id save) (SaveInChat save)"
| "handle_ws_message E I user_id sender_device_id (ReactionMsg r) =
     send_to_user_devices E (re_recipient_id r) (ReactionMsg r)"
| "handle_ws_message E I user_id sender_device_id (CallSignal signal) =
     send_to_user_devices E (cs_peer_id signal) (CallSignal signal)"
| "handle_ws_message E I user_id sender_device_id (PinMessage p) = on_pin_message E I user_id p"
| "handle_ws_message E I user_id sender_device_id (WsError m) = ret ()"

section \<open>What a connecting device is sent\<close>

text \<open>A queued blob that is no envelope is sent as it is; a closed channel is not noticed here.\<close>

definition send_raw :: "uuid \<Rightarrow> bytes \<Rightarrow> ('s app, 'e, unit) act" where
  "send_raw device_id blob = (\<lambda>a.
     case map_of (ap_connections a) device_id of
       Some sender \<Rightarrow>
         (Ok (), if ch_receiving (ap_channels a sender) then push_frame sender (bytes_str (utf8_lossy blob)) a else a)
     | None \<Rightarrow> (Ok (), a))"

definition deliver_queued :: "('s, 't) env \<Rightarrow> uuid \<Rightarrow> queued_message \<Rightarrow> ('s app, 'e, unit) act" where
  "deliver_queued E device_id queued =
     (case from_json (e_envelope_json E) (qm_encrypted_blob queued) of
        Inr envelope \<Rightarrow> try_send E device_id (SendMessage envelope)
      | Inl e \<Rightarrow> send_raw device_id (qm_encrypted_blob queued))"

definition deliver_pending_messages :: "('s, 't) env \<Rightarrow> uuid \<Rightarrow> ('s app, 'e, unit) act" where
  "deliver_pending_messages E device_id =
     bind_a (catch_a (bind_a (on_redis (dequeue_all (e_fuel E) (e_redis E) device_id)) (\<lambda>r.
       bind_a (returned r) (\<lambda>messages. ret (Some messages)))) None) (\<lambda>result.
     case result of
       Some messages \<Rightarrow> for_a messages (deliver_queued E device_id)
     | None \<Rightarrow> ret ())"

definition deliver_wipe :: "('s, 't) env \<Rightarrow> uuid \<Rightarrow> pending_wipe \<Rightarrow> ('s app, 'e, unit) act" where
  "deliver_wipe E device_id wipe = try_send E device_id (WipeCommand (pw_command wipe))"

definition deliver_pending_wipes :: "('s, 't) env \<Rightarrow> uuid \<Rightarrow> ('s app, 'e, unit) act" where
  "deliver_pending_wipes E device_id =
     bind_a (catch_a (bind_a (on_redis (get_pending_wipes (e_fuel E) (e_redis E) (e_wipe_json E) device_id)) (\<lambda>r.
       bind_a (returned r) (\<lambda>wipes. ret (Some wipes)))) None) (\<lambda>result.
     case result of
       Some wipes \<Rightarrow> for_a wipes (deliver_wipe E device_id)
     | None \<Rightarrow> ret ())"

definition send_to_self :: "('s, 't) env \<Rightarrow> uuid \<Rightarrow> ws_message \<Rightarrow> ('s app, 'e, unit) act" where
  "send_to_self E device_id msg = try_send E device_id msg"

section \<open>handle\_socket\<close>

definition set_channel :: "nat \<Rightarrow> (channel \<Rightarrow> channel) \<Rightarrow> 's app \<Rightarrow> 's app" where
  "set_channel c f a = a\<lparr>ap_channels := (ap_channels a)(c := f (ap_channels a c))\<rparr>"

text \<open>Up to the reader's loop: a new channel \<open>c\<close> is registered, the device marked online and served.\<close>

definition open_socket :: "('s, 't) env \<Rightarrow> inputs \<Rightarrow> uuid \<Rightarrow> nat \<Rightarrow> ('s app, 'e, unit) act" where
  "open_socket E I device_id c =
     bind_a (mod_s (set_channel c (\<lambda>_. \<lparr>ch_receiving = True, ch_frames = [], ch_pong = True\<rparr>))) (\<lambda>_.
     bind_a (mod_s (\<lambda>a. a\<lparr>ap_connections := AList.update device_id c (ap_connections a)\<rparr>)) (\<lambda>_.
     bind_a (db_or () (set_online (in_now I) device_id True)) (\<lambda>_.
     bind_a (deliver_pending_messages E device_id) (\<lambda>_.
     deliver_pending_wipes E device_id))))"

datatype incoming = InText string | InPong | InClose | InOther | InError

text \<open>One round of the reader's loop; whether it goes on.\<close>

definition on_frame :: "('s, 't) env \<Rightarrow> inputs \<Rightarrow> uuid \<Rightarrow> uuid \<Rightarrow> nat \<Rightarrow> incoming \<Rightarrow> ('s app, 'e, bool) act" where
  "on_frame E I user_id device_id c frame =
     (case frame of
        InText text \<Rightarrow>
          (case from_json (e_ws_json E) (str_bytes text) of
             Inl e \<Rightarrow> bind_a (send_to_self E device_id (WsError (''Invalid message format: '' @ e))) (\<lambda>_. ret True)
           | Inr ws_msg \<Rightarrow> (\<lambda>a.
               case handle_ws_message E I user_id device_id ws_msg a of
                 (Ok _, a') \<Rightarrow> (Ok True, a')
               | (Err e, a') \<Rightarrow> bind_a (send_to_self E device_id (WsError e)) (\<lambda>_. ret True) a'
               | (Panic p, a') \<Rightarrow> (Panic p, a')))
      | InPong \<Rightarrow> bind_a (mod_s (set_channel c (\<lambda>ch. ch\<lparr>ch_pong := True\<rparr>))) (\<lambda>_. ret True)
      | InClose \<Rightarrow> ret False
      | InOther \<Rightarrow> ret True
      | InError \<Rightarrow> ret False)"

text \<open>After the loop: the entry of the device is removed, the writer stopped.\<close>

definition close_socket :: "inputs \<Rightarrow> uuid \<Rightarrow> nat \<Rightarrow> ('s app, 'e, unit) act" where
  "close_socket I device_id c =
     bind_a (mod_s (drop_connection device_id)) (\<lambda>_.
     bind_a (mod_s (set_channel c (\<lambda>ch. ch\<lparr>ch_receiving := False\<rparr>))) (\<lambda>_.
     db_or () (set_online (in_now I) device_id False)))"

text \<open>
  The writer: sending a frame or a ping that fails ends it, and so does a ping that is due while the
  last one was not answered; its receiver is gone then.
\<close>

datatype sink_event = FrameSent bool | PingDue bool

fun sink_step :: "nat \<Rightarrow> sink_event \<Rightarrow> ('s app, 'e, unit) act" where
  "sink_step c (FrameSent ok) =
     (if ok then ret () else mod_s (set_channel c (\<lambda>ch. ch\<lparr>ch_receiving := False\<rparr>)))"
| "sink_step c (PingDue ok) =
     bind_a (get_s (\<lambda>a. ch_pong (ap_channels a c))) (\<lambda>pong_received.
     if \<not> pong_received then mod_s (set_channel c (\<lambda>ch. ch\<lparr>ch_receiving := False\<rparr>))
     else mod_s (set_channel c (\<lambda>ch. ch\<lparr>ch_pong := False, ch_receiving := ch_receiving ch \<and> ok\<rparr>)))"

end
