(* ===== verification/Api_Reference.thy ===== *)
theory Api_Reference
  imports Ws_Handler Box_Properties
begin

text \<open>
  What is relied on of the libraries of an \<open>env\<close> (\<open>env_ok\<close>), and an executable environment that
  meets it: Redis in memory, self-delimiting encodings for the messages, and the stand-ins of
  Auth_Tokens. The witnesses of the API properties run on it.
\<close>

definition codec_total :: "'a codec \<Rightarrow> bool" where
  "codec_total J \<longleftrightarrow> (\<forall>x. \<exists>b. to_json J x = Inr b)"

definition env_ok :: "('s, 't) env \<Rightarrow> bool" where
  "env_ok E \<longleftrightarrow> redis_good (e_fuel E) (e_redis E) \<and>
     codec_total (e_ws_json E) \<and> codec_laws (e_ws_json E) \<and>
     codec_total (e_envelope_json E) \<and> codec_laws (e_envelope_json E) \<and>
     codec_total (e_wipe_json E) \<and> codec_laws (e_wipe_json E) \<and>
     text_codec_laws (e_meta_json E) \<and> (\<forall>d. uuid_text d \<longrightarrow> e_parse_uuid E d = Some d)"

text \<open>The JSON of a value whose serialization does not fail.\<close>

definition json_of :: "'a codec \<Rightarrow> 'a \<Rightarrow> bytes" where
  "json_of J x = (case to_json J x of Inr b \<Rightarrow> b | Inl e \<Rightarrow> [])"

lemma json_of_total: "codec_total J \<Longrightarrow> to_json J x = Inr (json_of J x)"
  unfolding codec_total_def json_of_def by (metis sum.simps(6))

lemma json_of_read: "codec_total J \<Longrightarrow> codec_laws J \<Longrightarrow> from_json J (json_of J x) = Inr x"
  using json_of_total codec_lawsD by metis

lemma json_of_inj: "codec_total J \<Longrightarrow> codec_laws J \<Longrightarrow> json_of J x = json_of J y \<longleftrightarrow> x = y"
  using json_of_read by (metis sum.inject(2))

section \<open>Encodings of the messages\<close>

definition pc_sum :: "'a pcode \<Rightarrow> 'b pcode \<Rightarrow> ('a + 'b) pcode" where
  "pc_sum C D = \<lparr>p_enc = (\<lambda>x. case x of Inl a \<Rightarrow> 0 # p_enc C a | Inr b \<Rightarrow> 1 # p_enc D b),
     p_dec = (\<lambda>bs. case bs of [] \<Rightarrow> None
       | b # r \<Rightarrow> if b = 0 then map_option (map_prod Inl id) (p_dec C r) else map_option (map_prod Inr id) (p_dec D r))\<rparr>"

lemma pc_sum_law [simp]: "pc_law C \<Longrightarrow> pc_law D \<Longrightarrow> pc_law (pc_sum C D)"
  by (simp add: pc_law_def pc_sum_def split: sum.split)

definition pc_envelope :: "encrypted_envelope pcode" where
  "pc_envelope = pc_map
     (\<lambda>e. ((en_recipient_device_id e, en_message_id e, en_sealed_blob e),
           (en_ttl_seconds e, en_self_destruct_seconds e), (en_reply_to_message_id e, en_is_forwarded e)))
     (\<lambda>((d, m, b), (t, s), (r, f)). \<lparr>en_recipient_device_id = d, en_message_id = m, en_sealed_blob = b,
        en_ttl_seconds = t, en_self_destruct_seconds = s, en_reply_to_message_id = r, en_is_forwarded = f\<rparr>)
     (pc_pair (pc_pair pc_string (pc_pair pc_string pc_string))
       (pc_pair (pc_pair (pc_option pc_u32) (pc_option pc_u32)) (pc_pair (pc_option pc_string) pc_bool)))"

definition pc_wipe_request :: "wipe_request pcode" where
  "pc_wipe_request = pc_map
     (\<lambda>r. ((case wr_wipe_type r of WipeAll \<Rightarrow> 0 | WipeDevice \<Rightarrow> 1 | WipeConversation \<Rightarrow> (2 :: nat)),
           wr_target_device_id r, wr_conversation_partner_id r))
     (\<lambda>(t, d, c). \<lparr>wr_wipe_type = (if t = 0 then WipeAll else if t = 1 then WipeDevice else WipeConversation),
          wr_target_device_id = d, wr_conversation_partner_id = c\<rparr>)
     (pc_pair pc_nat (pc_pair (pc_option pc_string) (pc_option pc_string)))"

fun signal_code :: "call_signal_type \<Rightarrow> nat" where
  "signal_code Offer = 0" | "signal_code Answer = 1" | "signal_code IceCandidate = 2"
| "signal_code Hangup = 3" | "signal_code Busy = 4"

definition code_signal :: "nat \<Rightarrow> call_signal_type" where
  "code_signal n = (if n = 0 then Offer else if n = 1 then Answer else if n = 2 then IceCandidate
     else if n = 3 then Hangup else Busy)"

lemma code_signal_code [simp]: "code_signal (signal_code t) = t"
  by (cases t) (simp_all add: code_signal_def)

text \<open>
  Five shapes of payload: an envelope with an optional group, texts with an optional flag, and a
  wipe request; the tag says which constructor it was.
\<close>

fun ws_parts :: "ws_message \<Rightarrow> nat \<times> ((encrypted_envelope \<times> uuid) + ((string list \<times> bool) \<times> nat) + wipe_request)" where
  "ws_parts (SendMessage e) = (0, Inl (e, []))"
| "ws_parts (SendGroupMessage g e) = (1, Inl (e, g))"
| "ws_parts (WipeCommand w) = (2, Inr (Inr w))"
| "ws_parts (Delivered a) = (3, Inr (Inl (([da_device_id a, da_message_id a], False), 0)))"
| "ws_parts (Typing i) = (4, Inr (Inl (([ti_recipient_id i], False), 0)))"
| "ws_parts (ReadMsg r) = (5, Inr (Inl (([rr_sender_id r, rr_message_id r], False), 0)))"
| "ws_parts (ReactionMsg r) = (6, Inr (Inl (([re_recipient_id r, re_message_id r, re_emoji r], re_add r), 0)))"
| "ws_parts (SaveInChat s) = (7, Inr (Inl (([si_recipient_id s, si_message_id s], si_saved s), 0)))"
| "ws_parts (CallSignal s) = (8, Inr (Inl (([cs_peer_id s, cs_call_id s, cs_payload s], False), signal_code (cs_signal_type s))))"
| "ws_parts (PinMessage p) = (9, Inr (Inl (([pi_group_id p, pi_message_id p], pi_pin p), 0)))"
| "ws_parts (WipeAck a) = (10, Inr (Inl (([wa_wipe_id a, wa_device_id a], False), 0)))"
| "ws_parts (WsError m) = (11, Inr (Inl (([m], False), 0)))"

definition parts_ws :: "nat \<times> ((encrypted_envelope \<times> uuid) + ((string list \<times> bool) \<times> nat) + wipe_request) \<Rightarrow> ws_message" where
  "parts_ws p = (case p of
       (n, Inl (e, g)) \<Rightarrow> if n = 0 then SendMessage e else SendGroupMessage g e
     | (n, Inr (Inr w)) \<Rightarrow> WipeCommand w
     | (n, Inr (Inl ((ts, b), k))) \<Rightarrow>
         if n = 3 then Delivered \<lparr>da_device_id = ts ! 0, da_message_id = ts ! 1\<rparr>
         else if n = 4 then Typing \<lparr>ti_recipient_id = ts ! 0\<rparr>
         else if n = 5 then ReadMsg \<lparr>rr_sender_id = ts ! 0, rr_message_id = ts ! 1\<rparr>
         else if n = 6 then ReactionMsg \<lparr>re_recipient_id = ts ! 0, re_message_id = ts ! 1, re_emoji = ts ! 2, re_add = b\<rparr>
         else if n = 7 then SaveInChat \<lparr>si_recipient_id = ts ! 0, si_message_id = ts ! 1, si_saved = b\<rparr>
         else if n = 8 then CallSignal \<lparr>cs_peer_id = ts ! 0, cs_call_id = ts ! 1, cs_signal_type = code_signal k,
           cs_payload = ts ! 2\<rparr>
         else if n = 9 then PinMessage \<lparr>pi_group_id = ts ! 0, pi_message_id = ts ! 1, pi_pin = b\<rparr>
         else if n = 10 then WipeAck \<lparr>wa_wipe_id = ts ! 0, wa_device_id = ts ! 1\<rparr>
         else WsError (ts ! 0))"

lemma parts_ws_parts [simp]: "parts_ws (ws_parts m) = m"
  by (cases m) (simp_all add: parts_ws_def)

definition pc_ws :: "ws_message pcode" where
  "pc_ws = pc_map ws_parts parts_ws
     (pc_pair pc_nat (pc_sum (pc_pair pc_envelope pc_string)
       (pc_sum (pc_pair (pc_pair (pc_list pc_string) pc_bool) pc_nat) pc_wipe_request)))"

lemma pc_message_laws [simp]: "pc_law pc_envelope" "pc_law pc_wipe_request" "pc_law pc_ws"
proof -
  show e: "pc_law pc_envelope" unfolding pc_envelope_def by (intro pc_laws pc_more_laws pc_string_law) simp_all
  show w: "pc_law pc_wipe_request" unfolding pc_wipe_request_def
    by (intro pc_laws pc_more_laws pc_string_law) (simp_all split: wipe_type.split)
  show "pc_law pc_ws" unfolding pc_ws_def by (intro pc_laws pc_sum_law pc_more_laws pc_string_law e w) simp_all
qed

lemma codec_of_total [simp]: "codec_total (codec_of (\<lambda>_. False) C)"
  by (simp add: codec_total_def codec_of_def)

text \<open>Metadata as hexadecimal text.\<close>

definition hex_text :: "bytes \<Rightarrow> string" where
  "hex_text bs = concat (map hex_byte bs)"

fun text_hex :: "string \<Rightarrow> bytes" where
  "text_hex (a # b # r) =
     (let v = (\<lambda>c. (let n = of_char c :: nat in if n < 58 then n - 48 else n - 87)) in of_nat (16 * v a + v b) # text_hex r)"
| "text_hex r = []"

lemma text_hex_text [simp]: "text_hex (hex_text bs) = bs"
proof (induction bs)
  case (Cons b bs)
  have d: "(of_char (hex_digit k) :: nat) = (if k < 10 then 48 + k else 87 + k)" if "k < 16" for k :: nat
    using that by (simp add: hex_digit_def)
  have "unat b < 256" by (rule unat_lt_byte)
  then have q: "unat b div 16 < 16" "unat b mod 16 < 16" by (simp_all add: less_mult_imp_div_less)
  have v: "(let n = of_char (hex_digit k) :: nat in if n < 58 then n - 48 else n - 87) = k" if "k < 16" for k
    using that by (simp add: d Let_def)
  have "text_hex (hex_text (b # bs)) = of_nat (16 * (unat b div 16) + unat b mod 16) # text_hex (hex_text bs)"
    using v [OF q(1)] v [OF q(2)] by (simp add: hex_text_def hex_byte_def Let_def del: of_nat_add of_nat_mult)
  with Cons show ?case by simp
qed (simp add: hex_text_def)

lemma hex_text_rust: "rust_string (hex_text bs)"
proof -
  have "of_char (hex_digit k) < (128 :: nat)" if "k < 16" for k using that by (simp add: hex_digit_def)
  moreover have "unat b div 16 < 16" for b :: byte
    using unat_lt_byte [of b] by (simp add: less_mult_imp_div_less)
  ultimately have "\<forall>c \<in> set (hex_text bs). of_char c < (128 :: nat)"
    by (auto simp: hex_text_def hex_byte_def)
  then have "\<forall>b \<in> set (str_bytes (hex_text bs)). b < 128"
    by (auto simp: str_bytes_def word_less_nat_alt unat_of_nat)
  then show ?thesis unfolding rust_string_def by (rule utf8_ascii)
qed

definition toy_meta :: "media_meta text_codec" where
  "toy_meta = (let C = pc_map (\<lambda>m. (mm_recipient_device_id m, mm_duration_seconds m, unat (mm_blob_size m)))
       (\<lambda>(r, d, b). \<lparr>mm_recipient_device_id = r, mm_duration_seconds = d, mm_blob_size = of_nat b\<rparr>)
       (pc_pair pc_string (pc_pair pc_u32 pc_nat)) in
     \<lparr>to_text = (\<lambda>m. hex_text (p_enc C m)),
      of_text = (\<lambda>t. case p_dec C (text_hex t) of Some (m, []) \<Rightarrow> Inr m | _ \<Rightarrow> Inl ''parse error'')\<rparr>)"

lemma toy_meta_laws [simp]: "text_codec_laws toy_meta"
proof -
  let ?C = "pc_map (\<lambda>m. (mm_recipient_device_id m, mm_duration_seconds m, unat (mm_blob_size m)))
       (\<lambda>(r, d, b). \<lparr>mm_recipient_device_id = r, mm_duration_seconds = d, mm_blob_size = of_nat b\<rparr>)
       (pc_pair pc_string (pc_pair pc_u32 pc_nat)) :: media_meta pcode"
  have "pc_law ?C" by (intro pc_laws pc_more_laws pc_string_law) simp_all
  then have "p_dec ?C (p_enc ?C m) = Some (m, [])" for m using pc_lawD [of ?C m "[]"] by simp
  then show ?thesis by (simp add: text_codec_laws_def toy_meta_def Let_def hex_text_rust)
qed

section \<open>The environment\<close>

definition toy_env :: "(mem, bytes \<times> string) env" where
  "toy_env = \<lparr>e_redis = mem_redis, e_fuel = 2,
     e_config = \<lparr>cf_database_url = ''postgres://db'', cf_redis_url = ''redis://127.0.0.1:6379'', cf_jwt_secret = ''secret'',
       cf_cert_signing_seed = replicate 32 7, cf_server_address = ''0.0.0.0:8080'', cf_twilio = None, cf_fcm_server_key = None,
       cf_cors_origins = []\<rparr>,
     e_jwt = toy_jwt, e_argon2 = toy_argon2, e_totp = toy_totp, e_prims = toy_prims, e_b64 = toy_b64,
     e_parse_uuid = (\<lambda>s. if uuid_text s then Some s else None),
     e_ws_json = codec_of (\<lambda>_. False) pc_ws, e_envelope_json = codec_of (\<lambda>_. False) pc_envelope,
     e_wipe_json = toy_wipe_codec, e_meta_json = toy_meta, e_cert_json = (\<lambda>c. Inr (sc_username c)),
     e_http = (\<lambda>_. Inr 200)\<rparr>"

lemma toy_env_ok [simp]: "env_ok toy_env"
proof -
  have "codec_total toy_wipe_codec" by (simp add: toy_wipe_codec_def)
  then show ?thesis by (simp add: env_ok_def toy_env_def)
qed

definition toy_app :: "mem app" where
  "toy_app = app_new \<lparr>db_tables = no_tables, db_faults = []\<rparr> []"

definition toy_inputs :: "int \<Rightarrow> inputs" where
  "toy_inputs t = \<lparr>in_now = t, in_instant = t, in_uuid = (\<lambda>i. ''fresh-'' @ nat_str i), in_digit = (\<lambda>i. i mod 10),
     in_salt = ''salt'', in_secret = [1, 2, 3], in_random = (\<lambda>i. replicate (if i = 0 then 32 else 24) (of_nat i))\<rparr>"

end
