(* ===== verification/Ws_Properties.thy ===== *)
theory Ws_Properties
  imports Api_Reference
begin

text \<open>
  The properties of the WebSocket handler: a message is handed to the device's open socket or queued,
  what is queued while a device is offline is sent when it connects, and what single messages do.
\<close>

section \<open>Sending\<close>

definition ws_text :: "('s, 't) env \<Rightarrow> ws_message \<Rightarrow> string" where
  "ws_text E m = bytes_str (json_of (e_ws_json E) m)"

text \<open>The device has a socket that takes frames.\<close>

definition live :: "'s app \<Rightarrow> uuid \<Rightarrow> nat \<Rightarrow> bool" where
  "live a d c \<longleftrightarrow> map_of (ap_connections a) d = Some c \<and> ch_receiving (ap_channels a c)"

definition look_of :: "('s, 't) env \<Rightarrow> 's app \<Rightarrow> keyspace" where
  "look_of E a = r_look (e_redis E) (ap_redis a)"

lemma env_okD:
  assumes "env_ok E"
  shows "redis_good (e_fuel E) (e_redis E)" "to_json (e_ws_json E) m = Inr (json_of (e_ws_json E) m)"
    "to_json (e_envelope_json E) e = Inr (json_of (e_envelope_json E) e)"
    "from_json (e_envelope_json E) (json_of (e_envelope_json E) e) = Inr e"
    "to_json (e_wipe_json E) w = Inr (json_of (e_wipe_json E) w)"
    "from_json (e_wipe_json E) (json_of (e_wipe_json E) w) = Inr w"
    "from_json (e_ws_json E) (json_of (e_ws_json E) m) = Inr m"
  using assms by (simp_all add: env_ok_def json_of_total json_of_read)

lemma send_live:
  assumes "env_ok E" and "live a d c"
  shows "send_to_device E d m a = (Ok (), push_frame c (ws_text E m) a)"
    and "try_send E d m a = (Ok (), push_frame c (ws_text E m) a)"
    and "delivered_to E d m a = (Ok True, push_frame c (ws_text E m) a)"
proof -
  show s: "send_to_device E d m a = (Ok (), push_frame c (ws_text E m) a)"
    using assms by (simp add: send_to_device_def live_def env_okD ws_text_def)
  then show "try_send E d m a = (Ok (), push_frame c (ws_text E m) a)"
    "delivered_to E d m a = (Ok True, push_frame c (ws_text E m) a)"
    by (simp_all add: try_send_def delivered_to_def catch_a_def bind_a_Ok)
qed

definition offline_drop :: "uuid \<Rightarrow> 's app \<Rightarrow> 's app" where
  "offline_drop d a = (if map_of (ap_connections a) d = None then a else drop_connection d a)"

lemma send_not_live:
  assumes "env_ok E" and "\<nexists>c. live a d c"
  shows "send_to_device E d m a = (Err (), offline_drop d a)"
    and "try_send E d m a = (Ok (), offline_drop d a)"
    and "delivered_to E d m a = (Ok False, offline_drop d a)"
proof -
  show s: "send_to_device E d m a = (Err (), offline_drop d a)"
    using assms by (auto simp: send_to_device_def live_def env_okD offline_drop_def split: option.split)
  then show "try_send E d m a = (Ok (), offline_drop d a)" "delivered_to E d m a = (Ok False, offline_drop d a)"
    by (simp_all add: try_send_def delivered_to_def catch_a_def bind_a_Err)
qed

lemma bind_delivered:
  assumes "env_ok E"
  shows "live a d c \<Longrightarrow> bind_a (delivered_to E d m) f a = f True (push_frame c (ws_text E m) a)"
    and "\<nexists>c. live a d c \<Longrightarrow> bind_a (delivered_to E d m) f a = f False (offline_drop d a)"
  by (rule bind_a_Ok, erule send_live(3) [OF assms], rule bind_a_Ok, erule send_not_live(3) [OF assms])

lemma push_frame_parts [simp]:
  "ap_db (push_frame c t a) = ap_db a" "ap_redis (push_frame c t a) = ap_redis a"
  "ap_connections (push_frame c t a) = ap_connections a" "ap_limiter (push_frame c t a) = ap_limiter a"
  "ap_channels (push_frame c t a) c' = (if c' = c then (ap_channels a c)\<lparr>ch_frames := ch_frames (ap_channels a c) @ [t]\<rparr> else ap_channels a c')"
  "live (push_frame c t a) d c' = live a d c'"
  by (auto simp: push_frame_def live_def)

lemma offline_drop_parts [simp]:
  "ap_db (offline_drop d a) = ap_db a" "ap_redis (offline_drop d a) = ap_redis a"
  "ap_channels (offline_drop d a) = ap_channels a" "ap_limiter (offline_drop d a) = ap_limiter a"
  "map_of (ap_connections (offline_drop d a)) d' = (if d' = d then None else map_of (ap_connections a) d')"
  by (auto simp: offline_drop_def drop_connection_def delete_conv')

lemma on_redis_Ok [simp]:
  "q (ap_redis a) = (r, s) \<Longrightarrow> on_redis q a = (r, a\<lparr>ap_redis := s\<rparr>)"
  by (simp add: on_redis_def)

lemma on_db_Ok [simp]:
  "q (ap_db a) = (r, s) \<Longrightarrow> on_db q a = (r, a\<lparr>ap_db := s\<rparr>)"
  by (simp add: on_db_def)

lemma get_string_look:
  assumes "redis_good N R"
  shows "\<exists>r s'. get_string R k s = (r, s') \<and> r_look R s' = r_look R s \<and> (\<forall>p. r \<noteq> Panic p)"
proof -
  obtain s' where "r_get R k s = (Ok (map_option fst (r_look R s k)), s')" "r_look R s' = r_look R s"
    by (rule redis_get [OF assms])
  then show ?thesis by (auto simp: get_string_def bind_a_Ok split: option.split)
qed

text \<open>The notification changes nothing of the keyspace and its failure is ignored.\<close>

lemma push_ignored:
  assumes "env_ok E"
  shows "\<exists>a'. notify_offline E d a = (Ok (), a') \<and> look_of E a' = look_of E a \<and>
    ap_connections a' = ap_connections a \<and> ap_channels a' = ap_channels a \<and> ap_db a' = ap_db a"
proof (cases "cf_fcm_server_key (e_config E)")
  case (Some k)
  from get_string_look [OF env_okD(1) [OF assms], of "push_key d ''fcm''" "ap_redis a"] obtain r s' where
    g: "get_string (e_redis E) (push_key d ''fcm'') (ap_redis a) = (r, s')"
      "r_look (e_redis E) s' = r_look (e_redis E) (ap_redis a)" "\<forall>p. r \<noteq> Panic p" by blast
  have "notify_offline E d a = (Ok (), a\<lparr>ap_redis := s'\<rparr>)"
    using g Some by (cases r) (auto simp: notify_offline_def send_push_notification_def catch_a_def bind_a_split
        throw_def ret_def split: option.split sum.split)
  with g(2) show ?thesis by (simp add: look_of_def)
qed (simp add: look_of_def notify_offline_def)

lemma enqueue_app:
  assumes "env_ok E" and "0 < ttl"
  shows "\<exists>s'. enqueue (e_redis E) d i b ttl (ap_redis a) = (Ok (), s') \<and>
    r_look (e_redis E) s' = (if has (look_of E a) (msg_key d i) then look_of E a
       else (look_of E a)(msg_key d i \<mapsto> (b, Some ttl)))"
  unfolding look_of_def by (rule enqueue_run [OF env_okD(1) [OF assms(1)] assms(2)])

lemma send_message_live:
  assumes "env_ok E" and "live a (en_recipient_device_id e) c"
  shows "handle_ws_message E I u s (SendMessage e) a = (Ok (), push_frame c (ws_text E (SendMessage e)) a)"
  by (simp add: on_send_message_def Let_def bind_a_Ok send_live(3) [OF assms])

lemma send_message_offline:
  assumes "env_ok E" and "\<nexists>c. live a (en_recipient_device_id e) c" and "0 < message_ttl e"
  defines "k \<equiv> msg_key (en_recipient_device_id e) (en_message_id e)"
  shows "\<exists>a'. handle_ws_message E I u s (SendMessage e) a = (Ok (), a') \<and>
    look_of E a' = (if has (look_of E a) k then look_of E a
      else (look_of E a)(k \<mapsto> (json_of (e_envelope_json E) e, Some (message_ttl e)))) \<and>
    ap_channels a' = ap_channels a \<and> ap_db a' = ap_db a \<and>
    map_of (ap_connections a') = (map_of (ap_connections a))(en_recipient_device_id e := None)"
proof -
  let ?d = "en_recipient_device_id e" and ?a1 = "offline_drop (en_recipient_device_id e) a"
  from enqueue_app [OF assms(1,3), of ?d "en_message_id e" "json_of (e_envelope_json E) e" ?a1] obtain s' where
    q: "enqueue (e_redis E) ?d (en_message_id e) (json_of (e_envelope_json E) e) (message_ttl e) (ap_redis ?a1) = (Ok (), s')"
      "r_look (e_redis E) s' = (if has (look_of E a) k then look_of E a
        else (look_of E a)(k \<mapsto> (json_of (e_envelope_json E) e, Some (message_ttl e))))"
    by (auto simp: k_def look_of_def)
  let ?a2 = "?a1\<lparr>ap_redis := s'\<rparr>"
  from push_ignored [OF assms(1), of ?d ?a2] obtain a' where
    p: "notify_offline E ?d ?a2 = (Ok (), a')" "look_of E a' = look_of E ?a2" "ap_connections a' = ap_connections ?a2" "ap_channels a' = ap_channels ?a2"
      "ap_db a' = ap_db ?a2" by blast
  have "messaging_text (enqueue (e_redis E) ?d (en_message_id e) (json_of (e_envelope_json E) e) (message_ttl e)) ?a1 = (Ok (), ?a2)"
    using q(1) by (simp add: messaging_text_def map_err_a_def)
  then have "handle_ws_message E I u s (SendMessage e) a = (Ok (), a')"
    using p(1)
    by (simp add: on_send_message_def Let_def bind_a_Ok bind_delivered(2) [OF assms(1,2)] env_okD(3) [OF assms(1)])
  moreover have "map_of (ap_connections a') = (map_of (ap_connections a))(?d := None)"
    using p(3) by (auto simp: fun_eq_iff)
  ultimately show ?thesis using p q(2) by (simp add: look_of_def)
qed

section \<open>Connecting\<close>

text \<open>Sending to the device whose socket is live appends the texts in order.\<close>

fun push_frames :: "nat \<Rightarrow> string list \<Rightarrow> 's app \<Rightarrow> 's app" where
  "push_frames c [] a = a"
| "push_frames c (t # ts) a = push_frames c ts (push_frame c t a)"

lemma push_frames_parts [simp]:
  "ap_db (push_frames c ts a) = ap_db a" "ap_redis (push_frames c ts a) = ap_redis a"
  "ap_connections (push_frames c ts a) = ap_connections a"
  "live (push_frames c ts a) d c' = live a d c'"
  "ch_frames (ap_channels (push_frames c ts a) c) = ch_frames (ap_channels a c) @ ts"
  "c' \<noteq> c \<Longrightarrow> ap_channels (push_frames c ts a) c' = ap_channels a c'"
  by (induction ts arbitrary: a) simp_all

lemma for_try_send:
  assumes "\<And>x b. x \<in> set xs \<Longrightarrow> live b d c \<Longrightarrow> f x b = (Ok (), push_frame c (t x) b)" and "live a d c"
  shows "for_a xs f a = (Ok (), push_frames c (map t xs) a)"
  using assms
proof (induction xs arbitrary: a)
  case (Cons x xs)
  have "live (push_frame c (t x) a) d c" using Cons.prems(2) by simp
  with Cons have "for_a xs f (push_frame c (t x) a) = (Ok (), push_frames c (map t xs) (push_frame c (t x) a))"
    by simp
  moreover have "f x a = (Ok (), push_frame c (t x) a)" using Cons.prems by simp
  ultimately show ?case by (simp add: bind_a_Ok)
qed simp

lemma live_parts [simp]:
  "live (a\<lparr>ap_redis := s\<rparr>) d c = live a d c"
  "live (a\<lparr>ap_db := q\<rparr>) d c = live a d c"
  by (simp_all add: live_def)

lemma set_channel_parts [simp]:
  "ap_db (set_channel c f a) = ap_db a"
  "ap_redis (set_channel c f a) = ap_redis a"
  "ap_connections (set_channel c f a) = ap_connections a"
  "ap_limiter (set_channel c f a) = ap_limiter a"
  "ap_channels (set_channel c f a) c' = (if c' = c then f (ap_channels a c) else ap_channels a c')"
  by (simp_all add: set_channel_def)

text \<open>Every blob waiting for the device is the JSON of an envelope.\<close>

definition queue_reads :: "('s, 't) env \<Rightarrow> 's app \<Rightarrow> uuid \<Rightarrow> bool" where
  "queue_reads E a d \<longleftrightarrow> (\<forall>i b. items_of ''msg'' (look_of E a) d i = Some b \<longrightarrow>
     (\<exists>e. b = json_of (e_envelope_json E) e \<and> en_message_id e = i))"

definition queued_for :: "('s, 't) env \<Rightarrow> 's app \<Rightarrow> uuid \<Rightarrow> encrypted_envelope set" where
  "queued_for E a d = {e. items_of ''msg'' (look_of E a) d (en_message_id e) = Some (json_of (e_envelope_json E) e)}"

lemma deliver_pending_messages_run:
  fixes E :: "('s, 't) env"
  assumes E: "env_ok E" and d: "uuid_text d" and live: "live a d c" and reads: "queue_reads E a d"
  shows "\<exists>es s'. deliver_pending_messages E d a =
      (Ok (), push_frames c (map (\<lambda>e. ws_text E (SendMessage e)) es) (a\<lparr>ap_redis := s'\<rparr>)) \<and>
    distinct (map en_message_id es) \<and> set es = queued_for E a d \<and>
    r_look (e_redis E) s' = look_of E a |` {k. \<not> prefix (item_prefix ''msg'' d) k}"
proof -
  note J = env_okD [OF E]
  from dequeue_all_run [OF J(1) d order_refl, of "ap_redis a"] obtain ms s' where
    q: "dequeue_all (e_fuel E) (e_redis E) d (ap_redis a) = (Ok (Some ms), s')" "distinct (map qm_message_id ms)"
      "\<forall>i b. (\<exists>m \<in> set ms. qm_message_id m = i \<and> qm_encrypted_blob m = b) \<longleftrightarrow>
         items_of ''msg'' (look_of E a) d i = Some b"
      "r_look (e_redis E) s' = look_of E a |` {k. \<not> prefix (item_prefix ''msg'' d) k}"
    unfolding look_of_def by (elim exE conjE)
  define env where "env m = projr (from_json (e_envelope_json E) (qm_encrypted_blob m))" for m :: queued_message
  have env: "qm_encrypted_blob m = json_of (e_envelope_json E) (env m)" "en_message_id (env m) = qm_message_id m"
    if "m \<in> set ms" for m
  proof -
    from that q(3) have "items_of ''msg'' (look_of E a) d (qm_message_id m) = Some (qm_encrypted_blob m)" by blast
    with reads obtain e where "qm_encrypted_blob m = json_of (e_envelope_json E) e" "en_message_id e = qm_message_id m"
      unfolding queue_reads_def by blast
    then show "qm_encrypted_blob m = json_of (e_envelope_json E) (env m)" "en_message_id (env m) = qm_message_id m"
      by (simp_all add: env_def J(4))
  qed
  let ?es = "map env ms" and ?a = "a\<lparr>ap_redis := s'\<rparr>"
  have la: "live ?a d c" using live by (simp add: live_def)
  have "for_a ms (deliver_queued E d) ?a = (Ok (), push_frames c (map (\<lambda>m. ws_text E (SendMessage (env m))) ms) ?a)"
  proof (rule for_try_send [OF _ la])
    fix m and b :: "'s app" assume "m \<in> set ms" "live b d c"
    with env(1) J(4) send_live(2) [OF E] show "deliver_queued E d m b = (Ok (), push_frame c (ws_text E (SendMessage (env m))) b)"
      by (simp add: deliver_queued_def)
  qed
  moreover have "on_redis (dequeue_all (e_fuel E) (e_redis E) d) a = (Ok (Some ms), ?a)" using q(1) by simp
  ultimately have "deliver_pending_messages E d a =
      (Ok (), push_frames c (map (\<lambda>e. ws_text E (SendMessage e)) ?es) ?a)"
    by (simp add: deliver_pending_messages_def bind_a_def catch_a_def returned_def o_def)
  moreover have "map en_message_id ?es = map qm_message_id ms" using env(2) by simp
  then have "distinct (map en_message_id ?es)" using q(2) by metis
  moreover have "set ?es = queued_for E a d"
  proof (intro set_eqI iffI)
    fix e assume "e \<in> set ?es"
    then obtain m where "m \<in> set ms" "e = env m" by auto
    with env [of m] q(3) show "e \<in> queued_for E a d" by (simp add: queued_for_def) blast
  next
    fix e assume "e \<in> queued_for E a d"
    with q(3) obtain m where m: "m \<in> set ms" "qm_encrypted_blob m = json_of (e_envelope_json E) e"
      unfolding queued_for_def by blast
    then have "env m = e" by (simp add: env_def J(4))
    with m(1) show "e \<in> set ?es" by auto
  qed
  ultimately show ?thesis using q(4) by (intro exI [of _ ?es] exI [of _ s']) simp
qed

definition pending_for :: "('s, 't) env \<Rightarrow> 's app \<Rightarrow> uuid \<Rightarrow> pending_wipe set" where
  "pending_for E a d = {w. \<exists>i b. items_of ''wipe'' (look_of E a) d i = Some b \<and> from_json (e_wipe_json E) b = Inr w}"

lemma deliver_pending_wipes_run:
  fixes E :: "('s, 't) env"
  assumes E: "env_ok E" and d: "uuid_text d" and live: "live a d c"
  shows "\<exists>ws s'. deliver_pending_wipes E d a =
      (Ok (), push_frames c (map (\<lambda>w. ws_text E (WipeCommand (pw_command w))) ws) (a\<lparr>ap_redis := s'\<rparr>)) \<and>
    set ws = pending_for E a d \<and> r_look (e_redis E) s' = look_of E a"
proof -
  note J = env_okD [OF E]
  from get_pending_wipes_run [OF J(1) d order_refl, of "e_wipe_json E" "ap_redis a"] obtain ws s' where
    q: "get_pending_wipes (e_fuel E) (e_redis E) (e_wipe_json E) d (ap_redis a) = (Ok (Some ws), s')"
      "r_look (e_redis E) s' = look_of E a" "set ws = pending_for E a d"
    unfolding look_of_def pending_for_def by (elim exE conjE)
  let ?a = "a\<lparr>ap_redis := s'\<rparr>"
  have la: "live ?a d c" using live by (simp add: live_def)
  have "for_a ws (deliver_wipe E d) ?a = (Ok (), push_frames c (map (\<lambda>w. ws_text E (WipeCommand (pw_command w))) ws) ?a)"
  proof (rule for_try_send [OF _ la])
    fix w and b :: "'s app" assume "live b d c"
    with send_live(2) [OF E] show "deliver_wipe E d w b = (Ok (), push_frame c (ws_text E (WipeCommand (pw_command w))) b)"
      by (simp add: deliver_wipe_def)
  qed
  moreover have "on_redis (get_pending_wipes (e_fuel E) (e_redis E) (e_wipe_json E) d) a = (Ok (Some ws), ?a)" using q(1) by simp
  ultimately have "deliver_pending_wipes E d a =
      (Ok (), push_frames c (map (\<lambda>w. ws_text E (WipeCommand (pw_command w))) ws) ?a)"
    by (simp add: deliver_pending_wipes_def bind_a_def catch_a_def returned_def o_def)
  with q(2,3) show ?thesis by blast
qed

lemma set_online_ignored: "\<exists>d'. db_or () (set_online now d on) a = (Ok (), a\<lparr>ap_db := d'\<rparr>)"
proof -
  have "\<exists>r d'. set_online now d on (ap_db a) = (r, d') \<and> (\<forall>p. r \<noteq> Panic p)"
    by (auto simp: set_online_def sql_def update_device_def Let_def split: sql_fault.split list.split)
  then obtain r d' where "set_online now d on (ap_db a) = (r, d')" "\<forall>p. r \<noteq> Panic p" by blast
  then show ?thesis by (cases r) (auto simp: db_or_def catch_a_def)
qed

lemma open_socket_run:
  fixes E :: "('s, 't) env"
  assumes E: "env_ok E" and d: "uuid_text d" and reads: "queue_reads E a d"
  shows "\<exists>a' es ws. open_socket E I d c a = (Ok () :: ('e, unit) outcome, a') \<and> live a' d c \<and>
    ch_frames (ap_channels a' c) =
      map (\<lambda>e. ws_text E (SendMessage e)) es @ map (\<lambda>w. ws_text E (WipeCommand (pw_command w))) ws \<and>
    distinct (map en_message_id es) \<and> set es = queued_for E a d \<and> set ws = pending_for E a d \<and>
    look_of E a' = look_of E a |` {k. \<not> prefix (item_prefix ''msg'' d) k} \<and>
    (\<forall>d'. d' \<noteq> d \<longrightarrow> map_of (ap_connections a') d' = map_of (ap_connections a) d') \<and>
    (\<forall>c'. c' \<noteq> c \<longrightarrow> ap_channels a' c' = ap_channels a c')"
proof -
  let ?a1 = "set_channel c (\<lambda>_. \<lparr>ch_receiving = True, ch_frames = [], ch_pong = True\<rparr>) a"
  let ?a2 = "?a1\<lparr>ap_connections := AList.update d c (ap_connections ?a1)\<rparr>"
  from set_online_ignored [of "in_now I" d True ?a2] obtain db' where
    on: "db_or () (set_online (in_now I) d True) ?a2 = (Ok () :: ('e, unit) outcome, ?a2\<lparr>ap_db := db'\<rparr>)" by blast
  let ?a3 = "?a2\<lparr>ap_db := db'\<rparr>"
  have l3: "live ?a3 d c" by (simp add: live_def update_conv')
  have look3: "look_of E ?a3 = look_of E a" by (simp add: look_of_def)
  then have "queue_reads E ?a3 d" using reads by (simp add: queue_reads_def)
  from deliver_pending_messages_run [OF E d l3 this] obtain es s1 where
    m: "deliver_pending_messages E d ?a3 = (Ok () :: ('e, unit) outcome, push_frames c (map (\<lambda>e. ws_text E (SendMessage e)) es) (?a3\<lparr>ap_redis := s1\<rparr>))"
      "distinct (map en_message_id es)" "set es = queued_for E a d"
      "r_look (e_redis E) s1 = look_of E a |` {k. \<not> prefix (item_prefix ''msg'' d) k}"
    unfolding queued_for_def look3 by blast
  let ?a4 = "push_frames c (map (\<lambda>e. ws_text E (SendMessage e)) es) (?a3\<lparr>ap_redis := s1\<rparr>)"
  have l4: "live ?a4 d c" using l3 by (simp only: push_frames_parts live_parts)
  have wipe_look: "items_of ''wipe'' (L |` {k. \<not> prefix (item_prefix ''msg'' d) k}) d = items_of ''wipe'' L d" for L
    by (simp add: items_of_def item_prefix_def fun_eq_iff)
  have look4: "look_of E ?a4 = look_of E a |` {k. \<not> prefix (item_prefix ''msg'' d) k}" using m(4) by (simp add: look_of_def)
  from deliver_pending_wipes_run [OF E d l4] obtain ws s2 where
    w: "deliver_pending_wipes E d ?a4 = (Ok () :: ('e, unit) outcome, push_frames c (map (\<lambda>w. ws_text E (WipeCommand (pw_command w))) ws) (?a4\<lparr>ap_redis := s2\<rparr>))"
      "set ws = pending_for E a d" "r_look (e_redis E) s2 = look_of E ?a4"
    unfolding pending_for_def look4 wipe_look by blast
  let ?a5 = "push_frames c (map (\<lambda>w. ws_text E (WipeCommand (pw_command w))) ws) (?a4\<lparr>ap_redis := s2\<rparr>)"
  have "open_socket E I d c a = (Ok () :: ('e, unit) outcome, ?a5)"
    using on m(1) w(1) by (simp add: open_socket_def bind_a_Ok)
  moreover have "live ?a5 d c" using l4 by (simp only: push_frames_parts live_parts)
  moreover have "ch_frames (ap_channels ?a5 c) =
      map (\<lambda>e. ws_text E (SendMessage e)) es @ map (\<lambda>w. ws_text E (WipeCommand (pw_command w))) ws"
    by simp
  moreover have "look_of E ?a5 = look_of E a |` {k. \<not> prefix (item_prefix ''msg'' d) k}"
    using w(3) look4 by (simp add: look_of_def)
  moreover have "\<forall>d'. d' \<noteq> d \<longrightarrow> map_of (ap_connections ?a5) d' = map_of (ap_connections a) d'"
    by (simp add: update_conv')
  moreover have "\<forall>c'. c' \<noteq> c \<longrightarrow> ap_channels ?a5 c' = ap_channels a c'"
    by simp
  ultimately show ?thesis using m(2,3) w(2) by blast
qed

section \<open>Posting to an offline device\<close>

fun post_all :: "('s, 't) env \<Rightarrow> inputs \<Rightarrow> uuid \<Rightarrow> uuid \<Rightarrow> encrypted_envelope list \<Rightarrow> 's app \<Rightarrow> 's app" where
  "post_all E I u s [] a = a"
| "post_all E I u s (e # es) a = post_all E I u s es (snd (handle_ws_message E I u s (SendMessage e) a))"

lemma post_all_offline:
  assumes E: "env_ok E" and d: "uuid_text d"
    and "\<forall>e \<in> set es. en_recipient_device_id e = d \<and> 0 < message_ttl e"
    and "distinct (map en_message_id es)" and "\<nexists>c. live a d c"
    and "\<forall>e \<in> set es. items_of ''msg'' (look_of E a) d (en_message_id e) = None"
  shows "(\<nexists>c. live (post_all E I u s es a) d c) \<and>
    items_of ''msg'' (look_of E (post_all E I u s es a)) d =
      items_of ''msg'' (look_of E a) d ++ map_of (map (\<lambda>e. (en_message_id e, json_of (e_envelope_json E) e)) es)"
  using assms(3-6)
proof (induction es arbitrary: a)
  case (Cons e es)
  let ?k = "msg_key d (en_message_id e)"
  from Cons.prems(1) have e: "en_recipient_device_id e = d" "0 < message_ttl e" by simp_all
  have "\<nexists>c. live a (en_recipient_device_id e) c" using Cons.prems(3) e(1) by simp
  from send_message_offline [OF E this e(2), of I u s] obtain a' where
    h: "handle_ws_message E I u s (SendMessage e) a = (Ok (), a')"
      "look_of E a' = (if has (look_of E a) ?k then look_of E a
        else (look_of E a)(?k \<mapsto> (json_of (e_envelope_json E) e, Some (message_ttl e))))"
      "map_of (ap_connections a') = (map_of (ap_connections a))(d := None)"
    unfolding e(1) by blast
  have "\<not> has (look_of E a) ?k" using Cons.prems(4) by (simp add: item_keys has_items)
  with h(2) have items: "items_of ''msg'' (look_of E a') d =
      (items_of ''msg'' (look_of E a) d)(en_message_id e \<mapsto> json_of (e_envelope_json E) e)"
    using items_upd [OF d d, of "''msg''"] by (simp add: item_keys)
  have "\<nexists>c. live a' d c" using h(3) by (simp add: live_def)
  moreover have "\<forall>e' \<in> set es. items_of ''msg'' (look_of E a') d (en_message_id e') = None"
  proof
    fix e' assume "e' \<in> set es"
    with Cons.prems(2) have "en_message_id e' \<noteq> en_message_id e" by (auto simp: image_iff)
    with Cons.prems(4) \<open>e' \<in> set es\<close> show "items_of ''msg'' (look_of E a') d (en_message_id e') = None"
      by (simp add: items)
  qed
  ultimately have ih: "(\<nexists>c. live (post_all E I u s es a') d c) \<and>
    items_of ''msg'' (look_of E (post_all E I u s es a')) d =
      items_of ''msg'' (look_of E a') d ++ map_of (map (\<lambda>e. (en_message_id e, json_of (e_envelope_json E) e)) es)"
    using Cons.IH [of a'] Cons.prems(1,2) by simp
  have "en_message_id e \<notin> dom (map_of (map (\<lambda>e. (en_message_id e, json_of (e_envelope_json E) e)) es))"
    using Cons.prems(2) by (auto simp: dom_map_of_conv_image_fst image_image)
  with ih h(1) items show ?case by (simp add: map_add_upd_left del: fun_upd_apply)
qed simp

end
