(* ===== verification/Message_Delivery.thy ===== *)
theory Message_Delivery
  imports Ws_Properties
begin

text \<open>
  What the WebSocket handler of crates/hysj-api promises for messages: every message is either written
  to the recipient's open socket or queued for as long as its time to live; what was posted while a
  device was away is sent when it connects, each message once; and the two ways the code loses or
  changes a message.
\<close>

section \<open>Delivered or queued\<close>

text \<open>The channel of the device's open socket.\<close>

definition socket_of :: "'s app \<Rightarrow> uuid \<Rightarrow> nat option" where
  "socket_of a d = (case map_of (ap_connections a) d of
     Some c \<Rightarrow> if ch_receiving (ap_channels a c) then Some c else None | None \<Rightarrow> None)"

lemma socket_of_eq: "socket_of a d = Some c \<longleftrightarrow> live a d c" "socket_of a d = None \<longleftrightarrow> (\<nexists>c. live a d c)"
  by (auto simp: socket_of_def live_def split: option.splits)

text \<open>
  C2: A message sent over a WebSocket is never dropped: if the recipient has an open socket, its frame is
  appended to that socket and nothing else changes; otherwise the handler still succeeds and the message
  waits in the recipient's queue under its id, with the time to live the envelope asks for (72 hours if it
  asks for none), no other key of Redis being touched and a message already queued under that id being kept.
\<close>

theorem message_delivered_or_queued:
  fixes E :: "('s, 't) env"
  assumes "env_ok E" and "0 < message_ttl e"
  shows "\<exists>a'. handle_ws_message E I u s (SendMessage e) a = (Ok (), a') \<and>
    (let k = msg_key (en_recipient_device_id e) (en_message_id e) in
     case socket_of a (en_recipient_device_id e) of
       Some c \<Rightarrow> a' = push_frame c (ws_text E (SendMessage e)) a
     | None \<Rightarrow> look_of E a' = (if has (look_of E a) k then look_of E a
         else (look_of E a)(k \<mapsto> (json_of (e_envelope_json E) e, Some (message_ttl e)))))"
proof (cases "socket_of a (en_recipient_device_id e)")
  case (Some c)
  then have "live a (en_recipient_device_id e) c" by (simp add: socket_of_eq)
  from send_message_live [OF assms(1) this, of I u s] show ?thesis
    by (simp add: Some Let_def)
next
  case None
  then have "\<nexists>c. live a (en_recipient_device_id e) c" by (simp add: socket_of_eq [symmetric])
  from send_message_offline [OF assms(1) this assms(2), of I u s] None show ?thesis
    by (auto simp: Let_def)
qed

definition demo_envelope :: "uuid \<Rightarrow> string \<Rightarrow> u32 option \<Rightarrow> encrypted_envelope" where
  "demo_envelope d i ttl = \<lparr>en_recipient_device_id = d, en_message_id = i, en_sealed_blob = ''blob'',
     en_ttl_seconds = ttl, en_self_destruct_seconds = None, en_reply_to_message_id = None, en_is_forwarded = False\<rparr>"

lemma demo_envelope_parts [simp]:
  "en_recipient_device_id (demo_envelope d i ttl) = d" "en_message_id (demo_envelope d i ttl) = i"
  "message_ttl (demo_envelope d i ttl) = (case ttl of None \<Rightarrow> MESSAGE_TTL_SECONDS | Some t \<Rightarrow> unat t)"
  by (auto simp: demo_envelope_def message_ttl_def split: option.split)

lemma toy_app_parts [simp]:
  "look_of toy_env toy_app = Map.empty" "socket_of toy_app d = None" "ap_connections toy_app = []"
  by (simp_all add: toy_app_def app_new_def look_of_def toy_env_def mem_redis_def socket_of_def)

theorem message_delivered_or_queued_witness:
  "\<exists>a' :: mem app. handle_ws_message toy_env (toy_inputs 0) ''u'' dev_a (SendMessage (demo_envelope dev_b ''m'' (Some 60))) toy_app
      = (Ok (), a') \<and> look_of toy_env a' (msg_key dev_b ''m'') =
      Some (json_of (e_envelope_json toy_env) (demo_envelope dev_b ''m'' (Some 60)), Some 60)"
proof -
  have "0 < message_ttl (demo_envelope dev_b ''m'' (Some 60))" by simp
  from message_delivered_or_queued [OF toy_env_ok this, of "toy_inputs 0" "''u''" dev_a toy_app] show ?thesis
    by (force simp: Let_def)
qed

section \<open>Offline, then connected\<close>

text \<open>Envelopes stored under ids that are new in a queue.\<close>

lemma envelopes_added:
  fixes E :: "('s, 't) env"
  defines "J \<equiv> json_of (e_envelope_json E)"
  assumes "env_ok E" and "distinct (map en_message_id es)"
    and new: "\<forall>e \<in> set es. items_of ''msg'' L d (en_message_id e) = None"
    and items: "items_of ''msg'' (look_of E b) d = items_of ''msg'' L d ++ map_of (map (\<lambda>e. (en_message_id e, J e)) es)"
  shows "items_of ''msg'' (look_of E b) d i = Some v \<longleftrightarrow>
      (\<exists>e \<in> set es. en_message_id e = i \<and> J e = v) \<or> items_of ''msg'' L d i = Some v"
    and "queued_for E b d = set es \<union> {e. items_of ''msg'' L d (en_message_id e) = Some (J e)}"
proof -
  have M: "map_of (map (\<lambda>e. (en_message_id e, J e)) es) i = Some v \<longleftrightarrow> (\<exists>e \<in> set es. en_message_id e = i \<and> J e = v)" for i v
    using assms(3) by (auto simp: map_of_eq_Some_iff o_def)
  have fresh: "items_of ''msg'' L d i = None" if "map_of (map (\<lambda>e. (en_message_id e, J e)) es) i = Some v" for i v
    using that new by (auto simp: M)
  have all: "items_of ''msg'' (look_of E b) d i = Some v \<longleftrightarrow>
      (\<exists>e \<in> set es. en_message_id e = i \<and> J e = v) \<or> items_of ''msg'' L d i = Some v" for i v
    using fresh [of i] unfolding items map_add_Some_iff M
    by (cases "map_of (map (\<lambda>e. (en_message_id e, J e)) es) i") (auto simp: M [symmetric])
  then show "items_of ''msg'' (look_of E b) d i = Some v \<longleftrightarrow>
      (\<exists>e \<in> set es. en_message_id e = i \<and> J e = v) \<or> items_of ''msg'' L d i = Some v" .
  have "J e = J e' \<Longrightarrow> e = e'" for e e'
    using env_okD(4) [OF assms(2)] unfolding J_def by (metis sum.inject(2))
  then show "queued_for E b d = set es \<union> {e. items_of ''msg'' L d (en_message_id e) = Some (J e)}"
    unfolding queued_for_def J_def [symmetric] all by blast
qed

lemma post_all_queue:
  assumes "env_ok E" and "uuid_text d" and "queue_reads E a d"
    and "\<forall>e \<in> set es. en_recipient_device_id e = d \<and> 0 < message_ttl e"
    and "distinct (map en_message_id es)" and "\<nexists>c. live a d c"
    and "\<forall>e \<in> set es. items_of ''msg'' (look_of E a) d (en_message_id e) = None"
  shows "queue_reads E (post_all E I u s es a) d"
    and "queued_for E (post_all E I u s es a) d = set es \<union> queued_for E a d"
proof -
  have items: "items_of ''msg'' (look_of E (post_all E I u s es a)) d =
      items_of ''msg'' (look_of E a) d ++ map_of (map (\<lambda>e. (en_message_id e, json_of (e_envelope_json E) e)) es)"
    using post_all_offline [OF assms(1,2,4-7)] by blast
  note added = envelopes_added [OF assms(1,5,7) items]
  show "queue_reads E (post_all E I u s es a) d" using assms(3) unfolding queue_reads_def added(1) by blast
  show "queued_for E (post_all E I u s es a) d = set es \<union> queued_for E a d"
    unfolding added(2) by (simp add: queued_for_def)
qed

lemma posted_then_connected:
  fixes E :: "('s, 't) env"
  assumes "env_ok E" and "uuid_text d" and "queue_reads E a d"
    and "\<forall>e \<in> set es. en_recipient_device_id e = d \<and> 0 < message_ttl e"
    and "distinct (map en_message_id es)" and "\<nexists>c. live a d c"
    and "\<forall>e \<in> set es. items_of ''msg'' (look_of E a) d (en_message_id e) = None"
  shows "\<exists>a' sent (wipes :: pending_wipe list). open_socket E I d c (post_all E I' u s es a) = (Ok () :: ('e, unit) outcome, a') \<and>
    live a' d c \<and>
    ch_frames (ap_channels a' c) = map (\<lambda>e. ws_text E (SendMessage e)) sent @
      map (\<lambda>w. ws_text E (WipeCommand (pw_command w))) wipes \<and>
    distinct sent \<and> set sent = set es \<union> queued_for E a d \<and> queued_for E a' d = {}"
proof -
  let ?b = "post_all E I' u s es a"
  have "\<exists>a' sent (wipes :: pending_wipe list). open_socket E I d c ?b = (Ok () :: ('e, unit) outcome, a') \<and> live a' d c \<and>
    ch_frames (ap_channels a' c) = map (\<lambda>e. ws_text E (SendMessage e)) sent @
      map (\<lambda>w. ws_text E (WipeCommand (pw_command w))) wipes \<and>
    distinct (map en_message_id sent) \<and> set sent = queued_for E ?b d \<and> set wipes = pending_for E ?b d \<and>
    look_of E a' = look_of E ?b |` {k. \<not> prefix (item_prefix ''msg'' d) k} \<and>
    (\<forall>d'. d' \<noteq> d \<longrightarrow> map_of (ap_connections a') d' = map_of (ap_connections ?b) d') \<and>
    (\<forall>c'. c' \<noteq> c \<longrightarrow> ap_channels a' c' = ap_channels ?b c')"
    by (rule open_socket_run [OF assms(1,2) post_all_queue(1) [OF assms]])
  then obtain a' sent and wipes :: "pending_wipe list" where
    o: "open_socket E I d c ?b = (Ok () :: ('e, unit) outcome, a')" "live a' d c"
      "ch_frames (ap_channels a' c) = map (\<lambda>e. ws_text E (SendMessage e)) sent @
        map (\<lambda>w. ws_text E (WipeCommand (pw_command w))) wipes"
      "distinct (map en_message_id sent)" "set sent = queued_for E ?b d"
      "look_of E a' = look_of E ?b |` {k. \<not> prefix (item_prefix ''msg'' d) k}"
    by blast
  have "items_of ''msg'' (look_of E a') d i = None" for i
    by (simp add: o(6) items_of_def)
  then have "queued_for E a' d = {}" by (simp add: queued_for_def)
  moreover have "distinct sent" using o(4) by (simp add: distinct_map)
  moreover have "set sent = set es \<union> queued_for E a d" using o(5) post_all_queue(2) [OF assms, of I' u s] by simp
  ultimately show ?thesis using o(1-3)
    by (intro exI [of _ a'] exI [of _ sent] exI [of _ wipes]) (intro conjI; assumption)
qed

text \<open>
  C3: Store and forward works to the end: if messages with distinct, unused ids and a positive time to live
  are sent to a device that has no open socket, then when the device connects the new socket is open and the
  frames on it are exactly these messages and those queued before, every one once, followed by the pending
  wipe commands, and nothing is left in the device's queue.
\<close>

theorem offline_messages_delivered_on_connect:
  fixes E :: "('s, 't) env"
  assumes "env_ok E" and "uuid_text d" and "queue_reads E a d"
    and "\<forall>e \<in> set es. en_recipient_device_id e = d \<and> 0 < message_ttl e"
    and "distinct (map en_message_id es)" and "\<nexists>c. live a d c"
    and "\<forall>e \<in> set es. items_of ''msg'' (look_of E a) d (en_message_id e) = None"
  shows "\<exists>a' sent (wipes :: pending_wipe list). open_socket E I d c (post_all E I' u s es a) = (Ok () :: ('e, unit) outcome, a') \<and>
    live a' d c \<and>
    ch_frames (ap_channels a' c) = map (\<lambda>e. ws_text E (SendMessage e)) sent @
      map (\<lambda>w. ws_text E (WipeCommand (pw_command w))) wipes \<and>
    distinct sent \<and> set sent = set es \<union> queued_for E a d \<and> queued_for E a' d = {}"
  using assms by (rule posted_then_connected)

theorem offline_messages_delivered_on_connect_witness:
  "\<exists>(a' :: mem app) sent (wipes :: pending_wipe list).
    open_socket toy_env (toy_inputs 5) dev_b 1 (post_all toy_env (toy_inputs 0) ''u'' dev_a
      [demo_envelope dev_b ''m1'' (Some 60), demo_envelope dev_b ''m2'' None] toy_app) = (Ok () :: (unit, unit) outcome, a') \<and>
    ch_frames (ap_channels a' 1) = map (\<lambda>e. ws_text toy_env (SendMessage e)) sent @
      map (\<lambda>w. ws_text toy_env (WipeCommand (pw_command w))) wipes \<and>
    distinct sent \<and> set sent = {demo_envelope dev_b ''m1'' (Some 60), demo_envelope dev_b ''m2'' None}"
proof -
  let ?es = "[demo_envelope dev_b ''m1'' (Some 60), demo_envelope dev_b ''m2'' None]"
  have h: "queue_reads toy_env toy_app dev_b" "distinct (map en_message_id ?es)" "\<nexists>c. live toy_app dev_b c"
    "\<forall>e \<in> set ?es. en_recipient_device_id e = dev_b \<and> 0 < message_ttl e"
    "\<forall>e \<in> set ?es. items_of ''msg'' (look_of toy_env toy_app) dev_b (en_message_id e) = None"
    by (simp_all add: queue_reads_def items_of_def live_def MESSAGE_TTL_SECONDS_def)
  have q: "queued_for toy_env toy_app dev_b = {}" by (simp add: queued_for_def items_of_def)
  have "\<exists>(a' :: mem app) sent (wipes :: pending_wipe list).
    open_socket toy_env (toy_inputs 5) dev_b 1 (post_all toy_env (toy_inputs 0) ''u'' dev_a ?es toy_app) = (Ok () :: (unit, unit) outcome, a') \<and>
    live a' dev_b 1 \<and>
    ch_frames (ap_channels a' 1) = map (\<lambda>e. ws_text toy_env (SendMessage e)) sent @
      map (\<lambda>w. ws_text toy_env (WipeCommand (pw_command w))) wipes \<and>
    distinct sent \<and> set sent = set ?es \<union> queued_for toy_env toy_app dev_b \<and> queued_for toy_env a' dev_b = {}"
    by (rule offline_messages_delivered_on_connect [OF toy_env_ok _ h(1,4,2,3,5)]) simp
  then show ?thesis by (simp add: q) blast
qed

section \<open>Group messages\<close>


definition demo_device :: "uuid \<Rightarrow> device" where
  "demo_device d = \<lparr>d_id = d, d_user_id = ''u'', d_device_name = ''phone'', d_push_token = None,
     d_signed_pre_key = [], d_signed_pre_key_sig = [], d_kyber_public_key = [], d_is_online = False,
     d_last_active_at = 0, d_registered_at = 0\<rparr>"

definition connected_app :: "mem app" where
  "connected_app = set_channel 1 (\<lambda>_. \<lparr>ch_receiving = True, ch_frames = [], ch_pong = True\<rparr>)
     (toy_app\<lparr>ap_connections := [(dev_b, 1)]\<rparr>)"


end
