(* ===== verification/Socket_Steps.thy ===== *)
theory Socket_Steps
  imports Message_Delivery
begin

text \<open>
  The sockets of the server together: which sockets are open, and the steps in which a device
  connects, a frame of its peer is handled, the writer task works, and the reader's loop ends. Steps of
  different sockets interleave in any order; what holds of every reachable server is proved by induction
  on the steps.
\<close>

section \<open>Steps\<close>

record 's server =
  sv_app :: "'s app"
  sv_open :: "nat \<Rightarrow> (uuid \<times> uuid) option"
  sv_next :: nat

definition server_new :: "database \<Rightarrow> 's \<Rightarrow> 's server" where
  "server_new d s = \<lparr>sv_app = app_new d s, sv_open = Map.empty, sv_next = 0\<rparr>"

inductive socket_step :: "('s, 't) env \<Rightarrow> 's server \<Rightarrow> 's server \<Rightarrow> bool" for E where
  connects:
    "open_socket E I d (sv_next sv) (sv_app sv) = (Ok () :: (unit, unit) outcome, a') \<Longrightarrow>
     socket_step E sv \<lparr>sv_app = a', sv_open = (sv_open sv)(sv_next sv \<mapsto> (u, d)), sv_next = Suc (sv_next sv)\<rparr>"
| reads:
    "sv_open sv c = Some (u, d) \<Longrightarrow> on_frame E I u d c frame (sv_app sv) = (Ok True :: (unit, bool) outcome, a') \<Longrightarrow>
     socket_step E sv (sv\<lparr>sv_app := a'\<rparr>)"
| leaves:
    "sv_open sv c = Some (u, d) \<Longrightarrow> on_frame E I u d c frame (sv_app sv) = (Ok False :: (unit, bool) outcome, a1) \<Longrightarrow>
     close_socket I' d c a1 = (Ok () :: (unit, unit) outcome, a') \<Longrightarrow>
     socket_step E sv (sv\<lparr>sv_app := a', sv_open := (sv_open sv)(c := None)\<rparr>)"
| writes:
    "sv_open sv c = Some (u, d) \<Longrightarrow> ch_receiving (ap_channels (sv_app sv) c) \<Longrightarrow>
     sink_step c ev (sv_app sv) = (Ok () :: (unit, unit) outcome, a') \<Longrightarrow>
     socket_step E sv (sv\<lparr>sv_app := a'\<rparr>)"

inductive reachable :: "('s, 't) env \<Rightarrow> 's server \<Rightarrow> bool" for E where
  start: "reachable E (server_new d s)"
| step: "reachable E sv \<Longrightarrow> socket_step E sv sv' \<Longrightarrow> reachable E sv'"

inductive_cases socket_stepE: "socket_step E sv sv'"

section \<open>What handlers may do to the registered connections\<close>

text \<open>Entries are only removed, and no receiver comes or goes.\<close>

definition tracked :: "(uuid \<Rightarrow> nat option) \<Rightarrow> (nat \<Rightarrow> bool) \<Rightarrow> 's app \<Rightarrow> bool" where
  "tracked C r a \<longleftrightarrow> map_of (ap_connections a) \<subseteq>\<^sub>m C \<and> (\<forall>c. ch_receiving (ap_channels a c) = r c)"

lemma tracked_push [simp]: "tracked C r (push_frame c t a) = tracked C r a"
  by (auto simp: tracked_def)

lemma tracked_drop: "tracked C r a \<Longrightarrow> tracked C r (drop_connection d a)"
  by (auto simp: tracked_def drop_connection_def delete_conv' map_le_def)

lemma tracked_parts [simp]:
  "tracked C r (a\<lparr>ap_db := x\<rparr>) = tracked C r a" "tracked C r (a\<lparr>ap_redis := s\<rparr>) = tracked C r a"
  by (simp_all add: tracked_def)

lemma keeps_calls [intro, simp]:
  "keeps (tracked C r) (on_db q)" "keeps (tracked C r) (on_redis p)"
  by (auto simp: keeps_def on_db_def on_redis_def split: prod.split)

lemma keeps_send [intro, simp]:
  "keeps (tracked C r) (send_to_device E d m)" "keeps (tracked C r) (try_send E d m)"
  "keeps (tracked C r) (delivered_to E d m)"
proof -
  show "keeps (tracked C r) (send_to_device E d m)"
    by (rule keepsI) (auto simp: send_to_device_def tracked_drop split: option.split sum.split)
  then show "keeps (tracked C r) (try_send E d m)" "keeps (tracked C r) (delivered_to E d m)"
    unfolding try_send_def delivered_to_def by (intro keeps_catch keeps_bind keeps_pure; assumption)+
qed

lemma keeps_option [intro]:
  "keeps I m \<Longrightarrow> (\<And>x. keeps I (f x)) \<Longrightarrow> keeps I (case v of None \<Rightarrow> m | Some x \<Rightarrow> f x)"
  by (simp split: option.split)

lemmas keeps_rules = keeps_bind keeps_for keeps_if keeps_catch keeps_map_err keeps_option keeps_pure
  keeps_calls keeps_send

lemma keeps_handlers [intro, simp]:
  "keeps (tracked C r) (send_to_user_devices E i m)" "keeps (tracked C r) (on_send_message E e)"
  "keeps (tracked C r) (on_send_group_message E u g e)" "keeps (tracked C r) (on_wipe_command E I u s w)"
  "keeps (tracked C r) (on_pin_message E I u p)"
proof -
  have n: "keeps (tracked C r) (notify_offline E d)" for d
    unfolding notify_offline_def send_push_notification_def
    by (intro keeps_rules) (simp split: sum.split)
  show "keeps (tracked C r) (send_to_user_devices E i m)"
    unfolding send_to_user_devices_def by (intro keeps_rules)
  show "keeps (tracked C r) (on_send_message E e)"
    unfolding on_send_message_def Let_def messaging_text_def by (intro keeps_rules n)
  show "keeps (tracked C r) (on_send_group_message E u g e)"
    unfolding on_send_group_message_def Let_def send_or_queue_def db_text_def db_or_def by (intro keeps_rules)
  show "keeps (tracked C r) (on_wipe_command E I u s w)"
    unfolding on_wipe_command_def ws_wipe_targets_def device_ids_def messaging_text_def db_or_def
    by (intro keeps_rules) (cases "wr_wipe_type w"; auto intro!: keeps_rules)
  show "keeps (tracked C r) (on_pin_message E I u p)"
    unfolding on_pin_message_def db_text_def db_or_def by (intro keeps_rules)
qed

lemma keeps_handle: "keeps (tracked C r) (handle_ws_message E I u s m)"
  by (cases m) (auto simp: messaging_text_def intro!: keeps_rules)


text \<open>The handlers of a frame never end with an error, and the cleanup and the writer never fail.\<close>

lemma keeps_frame:
  fixes E :: "('s, 't) env"
  shows "keeps (tracked C r) (on_frame E I u d c f)"
proof (rule keepsI)
  fix a :: "'s app" assume a: "tracked C r a"
  have h: "tracked C r (snd (handle_ws_message E I u d m a))" for m
    using keepsD [OF keeps_handle a] .
  have e: "tracked C r (snd (bind_a (send_to_self E d m) (\<lambda>_. ret True) b))" if "tracked C r b" for m b
    using keepsD [OF keeps_bind [OF keeps_send(2) keeps_pure(1)] that] unfolding send_to_self_def .
  show "tracked C r (snd (on_frame E I u d c f a))"
  proof (cases f)
    case (InText t)
    show ?thesis
    proof (cases "from_json (e_ws_json E) (str_bytes t)")
      case (Inr m)
      have "tracked C r (snd (handle_ws_message E I u d m a))" by (rule h)
      with InText Inr show ?thesis
        by (cases "handle_ws_message E I u d m a") (auto simp: on_frame_def intro!: e split: outcome.split)
    qed (use InText a in \<open>auto simp: on_frame_def intro!: e\<close>)
  next
    case InPong
    with a show ?thesis by (auto simp: on_frame_def tracked_def set_channel_def)
  qed (use a in \<open>simp_all add: on_frame_def\<close>)
qed

lemma keeps_deliveries:
  "keeps (tracked C r) (deliver_pending_messages E d)" "keeps (tracked C r) (deliver_pending_wipes E d)"
proof -
  have q: "keeps (tracked C r) (deliver_queued E d m)" for m
    by (auto simp: deliver_queued_def send_raw_def split: sum.split option.split intro!: keepsI [of _ "\<lambda>a. case map_of (ap_connections a) d of None \<Rightarrow> A a | Some c \<Rightarrow> B a c" for A B])
  show "keeps (tracked C r) (deliver_pending_messages E d)" "keeps (tracked C r) (deliver_pending_wipes E d)"
    unfolding deliver_pending_messages_def deliver_pending_wipes_def deliver_wipe_def returned_def
    by (intro keeps_rules q)+
qed

section \<open>Every reachable server\<close>

definition server_ok :: "'s server \<Rightarrow> bool" where
  "server_ok sv \<longleftrightarrow>
     (\<forall>d c. map_of (ap_connections (sv_app sv)) d = Some c \<longrightarrow> (\<exists>u. sv_open sv c = Some (u, d))) \<and>
     (\<forall>c. ch_receiving (ap_channels (sv_app sv) c) \<longrightarrow> sv_open sv c \<noteq> None) \<and>
     (\<forall>c. sv_open sv c \<noteq> None \<longrightarrow> c < sv_next sv)"

lemma server_okD:
  assumes "server_ok sv"
  shows "map_of (ap_connections (sv_app sv)) d = Some c \<Longrightarrow> \<exists>u. sv_open sv c = Some (u, d)"
    and "ch_receiving (ap_channels (sv_app sv) c) \<Longrightarrow> sv_open sv c \<noteq> None"
    and "sv_open sv c = Some p \<Longrightarrow> c < sv_next sv"
  using assms by (auto simp: server_ok_def)

lemma server_okI:
  assumes "\<And>d c. map_of (ap_connections (sv_app sv)) d = Some c \<Longrightarrow> \<exists>u. sv_open sv c = Some (u, d)"
    and "\<And>c. ch_receiving (ap_channels (sv_app sv) c) \<Longrightarrow> sv_open sv c \<noteq> None"
    and "\<And>c p. sv_open sv c = Some p \<Longrightarrow> c < sv_next sv"
  shows "server_ok sv"
  using assms unfolding server_ok_def by fast

lemma tracked_now: "tracked (map_of (ap_connections a)) (\<lambda>c. ch_receiving (ap_channels a c)) a"
  by (simp add: tracked_def)

text \<open>A step that registers nothing and opens no channel keeps the invariant.\<close>

lemma server_ok_tracked:
  assumes "server_ok sv" and "tracked (map_of (ap_connections (sv_app sv))) (\<lambda>c. ch_receiving (ap_channels (sv_app sv) c)) a'"
  shows "server_ok (sv\<lparr>sv_app := a'\<rparr>)"
  unfolding server_ok_def
proof (intro conjI allI impI; simp)
  fix d c assume "map_of (ap_connections a') d = Some c"
  then have "map_of (ap_connections (sv_app sv)) d = Some c"
    using assms(2) by (metis domI map_le_def tracked_def)
  then show "\<exists>u. sv_open sv c = Some (u, d)" by (rule server_okD(1) [OF assms(1)])
next
  fix c assume "ch_receiving (ap_channels a' c)"
  then show "\<exists>u d. sv_open sv c = Some (u, d)"
    using assms(2) server_okD(2) [OF assms(1), of c] by (auto simp: tracked_def)
next
  fix c assume "\<exists>u d. sv_open sv c = Some (u, d)"
  then show "c < sv_next sv" using server_okD(3) [OF assms(1)] by blast
qed

lemma server_ok_frame:
  fixes r :: "('e, bool) outcome"
  assumes "server_ok sv" and "on_frame E I u d c f (sv_app sv) = (r, a')"
  shows "server_ok (sv\<lparr>sv_app := a'\<rparr>)"
proof -
  have "tracked (map_of (ap_connections (sv_app sv))) (\<lambda>c. ch_receiving (ap_channels (sv_app sv) c))
      (snd (on_frame E I u d c f (sv_app sv) :: ('e, bool) outcome \<times> _))"
    by (rule keepsD [OF keeps_frame tracked_now])
  with assms show ?thesis by (intro server_ok_tracked) simp_all
qed

lemma server_ok_open:
  fixes E :: "('s, 't) env"
  assumes ok: "server_ok sv" and "open_socket E I d (sv_next sv) (sv_app sv) = (Ok () :: ('e, unit) outcome, a')"
  shows "server_ok \<lparr>sv_app = a', sv_open = (sv_open sv)(sv_next sv \<mapsto> (u, d)), sv_next = Suc (sv_next sv)\<rparr>"
proof -
  let ?c = "sv_next sv"
  let ?a1 = "set_channel ?c (\<lambda>_. \<lparr>ch_receiving = True, ch_frames = [], ch_pong = True\<rparr>) (sv_app sv)"
  let ?a2 = "?a1\<lparr>ap_connections := AList.update d ?c (ap_connections ?a1)\<rparr>"
  let ?I = "tracked (map_of (ap_connections ?a2)) (\<lambda>c. ch_receiving (ap_channels ?a2 c)) :: 's app \<Rightarrow> bool"
  have "keeps ?I (bind_a (db_or () (set_online (in_now I) d True)) (\<lambda>_.
      bind_a (deliver_pending_messages E d) (\<lambda>_. deliver_pending_wipes E d)) :: ('s app, 'e, unit) act)"
    unfolding db_or_def by (intro keeps_rules keeps_deliveries)
  from keepsD [OF this tracked_now] have t: "?I a'"
    using assms(2) by (simp add: open_socket_def)
  then have conn: "map_of (ap_connections a') e = Some c \<Longrightarrow> ((map_of (ap_connections (sv_app sv)))(d \<mapsto> ?c)) e = Some c" for e c
    unfolding tracked_def by (auto simp: update_conv' map_le_def dom_def split: if_splits)
  have recv: "ch_receiving (ap_channels a' c) \<longleftrightarrow> c = ?c \<or> ch_receiving (ap_channels (sv_app sv) c)" for c
    using t by (auto simp: tracked_def)
  have fresh: "sv_open sv ?c = None" using server_okD(3) [OF ok, of ?c] by (cases "sv_open sv ?c") auto
  let ?O = "(sv_open sv)(?c \<mapsto> (u, d))"
  have "\<exists>u'. ?O c = Some (u', e)" if "map_of (ap_connections a') e = Some c" for e c
    using conn [OF that] server_okD(1) [OF ok, of e c] fresh by (auto split: if_splits)
  moreover have "?O c \<noteq> None" if "ch_receiving (ap_channels a' c)" for c
    using that server_okD(2) [OF ok, of c] by (auto simp: recv)
  moreover have "c < Suc ?c" if "?O c = Some p" for c p
    using that server_okD(3) [OF ok, of c] by (cases "c = ?c") auto
  ultimately show ?thesis by (intro server_okI) (simp_all del: fun_upd_apply)
qed

lemma server_ok_close:
  assumes ok: "server_ok sv" and "sv_open sv c = Some (u, d)" and "close_socket I d c (sv_app sv) = (r, a')"
  shows "server_ok (sv\<lparr>sv_app := a', sv_open := (sv_open sv)(c := None)\<rparr>)"
proof -
  have conn: "map_of (ap_connections a') = (map_of (ap_connections (sv_app sv)))(d := None)"
    and recv: "ch_receiving (ap_channels a' e) \<longleftrightarrow> e \<noteq> c \<and> ch_receiving (ap_channels (sv_app sv) e)" for e
    using assms(3) by (auto simp: close_socket_def db_or_def catch_a_def on_db_def drop_connection_def delete_conv
        split: prod.splits outcome.splits if_splits)
  have "\<exists>u. sv_open sv c' = Some (u, e) \<and> c' \<noteq> c" if "map_of (ap_connections a') e = Some c'" for e c'
    using that server_okD(1) [OF ok, of e c'] assms(2) by (auto simp: conn split: if_splits)
  moreover have "e \<noteq> c \<and> sv_open sv e \<noteq> None" if "ch_receiving (ap_channels a' e)" for e
    using that server_okD(2) [OF ok, of e] by (auto simp: recv)
  moreover have "e < sv_next sv" if "(if e = c then None else sv_open sv e) = Some p" for e p
    using that server_okD(3) [OF ok, of e] by (auto split: if_splits)
  ultimately show ?thesis by (intro server_okI; simp)
qed

lemma server_ok_write:
  assumes "server_ok sv" and "sink_step c ev (sv_app sv) = (r, a')"
  shows "server_ok (sv\<lparr>sv_app := a'\<rparr>)"
proof -
  have "ap_connections a' = ap_connections (sv_app sv)"
    "\<forall>c'. ch_receiving (ap_channels a' c') \<longrightarrow> ch_receiving (ap_channels (sv_app sv) c')"
    using assms(2) by (cases ev; auto split: if_splits)+
  with assms(1) show ?thesis by (simp add: server_ok_def)
qed


lemma server_ok_new: "server_ok (server_new d s)"
  by (simp add: server_ok_def server_new_def app_new_def)

lemma server_ok_leave:
  assumes "server_ok sv" and "sv_open sv c = Some (u, d)"
    and "on_frame E I u d c f (sv_app sv) = (r :: ('e, bool) outcome, a1)" and "close_socket I' d c a1 = (r', a')"
  shows "server_ok (sv\<lparr>sv_app := a', sv_open := (sv_open sv)(c := None)\<rparr>)"
  using server_ok_close [OF server_ok_frame [OF assms(1,3)], of c u d I' r' a'] assms(2,4) by simp

lemma reachable_ok: "reachable E sv \<Longrightarrow> server_ok sv"
proof (induction rule: reachable.induct)
  case (step sv sv')
  from step.hyps(2) step.IH show ?case
    by (cases rule: socket_stepE)
      (auto intro: server_ok_open server_ok_frame server_ok_write server_ok_leave)
qed (rule server_ok_new)

text \<open>
  In every server reached by any interleaving of connecting devices, incoming frames, writer steps and
  disconnects, each registered connection is the channel of a socket that is open and belongs to the very
  device it is registered for, a channel whose receiver is alive belongs to an open socket, and channel
  numbers of open sockets are never reused.
\<close>

theorem registered_sockets_open:
  assumes "reachable E sv"
  shows "(\<forall>d c. map_of (ap_connections (sv_app sv)) d = Some c \<longrightarrow> (\<exists>u. sv_open sv c = Some (u, d))) \<and>
    (\<forall>c. ch_receiving (ap_channels (sv_app sv) c) \<longrightarrow> sv_open sv c \<noteq> None) \<and>
    (\<forall>c. sv_open sv c \<noteq> None \<longrightarrow> c < sv_next sv)"
  using reachable_ok [OF assms] by (simp only: server_ok_def)

text \<open>
  C9: Whatever a handler sends to a device in a reachable server is written only to a socket which that
  device opened: no other device's frames change.
\<close>

theorem frames_reach_only_their_device:
  assumes "reachable E sv" and "send_to_device E' d m (sv_app sv) = (r, a')"
    and "ch_frames (ap_channels a' c) \<noteq> ch_frames (ap_channels (sv_app sv) c)"
  shows "\<exists>u. sv_open sv c = Some (u, d)"
proof -
  have "map_of (ap_connections (sv_app sv)) d = Some c"
    using assms(2,3) by (auto simp: send_to_device_def drop_connection_def split: option.splits sum.splits if_splits)
  with reachable_ok [OF assms(1)] show ?thesis by (rule server_okD(1))
qed


text \<open>A server to apply them to: one device has connected.\<close>

lemma demo_reachable: "\<exists>sv. reachable toy_env sv \<and> sv_open sv 0 = Some (''u'', dev_b) \<and> live (sv_app sv) dev_b 0"
proof -
  let ?sv = "server_new \<lparr>db_tables = no_tables, db_faults = []\<rparr> [] :: mem server"
  have app: "sv_app ?sv = toy_app" by (simp add: server_new_def toy_app_def)
  have "queue_reads toy_env toy_app dev_b" by (simp add: queue_reads_def items_of_def)
  then have "\<exists>a'. open_socket toy_env (toy_inputs 0) dev_b 0 toy_app = (Ok () :: (unit, unit) outcome, a') \<and> live a' dev_b 0"
    using open_socket_run [OF toy_env_ok, of dev_b toy_app "toy_inputs 0" 0] by simp blast
  then obtain a' where o: "open_socket toy_env (toy_inputs 0) dev_b (sv_next ?sv) (sv_app ?sv) = (Ok () :: (unit, unit) outcome, a')"
      "live a' dev_b 0" unfolding app by (auto simp: server_new_def)
  let ?sv' = "\<lparr>sv_app = a', sv_open = (sv_open ?sv)(sv_next ?sv \<mapsto> (''u'', dev_b)), sv_next = Suc (sv_next ?sv)\<rparr>"
  have "reachable toy_env ?sv'"
    by (rule reachable.step [OF reachable.start socket_step.connects [OF o(1)]])
  then show ?thesis using o(2) by (intro exI [of _ ?sv']) (simp add: server_new_def)
qed

theorem registered_sockets_open_witness:
  "\<exists>sv. reachable toy_env sv \<and> map_of (ap_connections (sv_app sv)) dev_b = Some 0 \<and>
    (\<exists>u. sv_open sv 0 = Some (u, dev_b))"
proof -
  obtain sv where sv: "reachable toy_env sv" "live (sv_app sv) dev_b 0" using demo_reachable by blast
  with registered_sockets_open [OF sv(1)] show ?thesis unfolding live_def by blast
qed

theorem frames_reach_only_their_device_witness:
  "\<exists>sv u. reachable toy_env sv \<and> sv_open sv 0 = Some (u, dev_b) \<and>
    send_to_device toy_env dev_b (WsError ''e'') (sv_app sv) =
      (Ok (), push_frame 0 (ws_text toy_env (WsError ''e'')) (sv_app sv))"
proof -
  obtain sv where sv: "reachable toy_env sv" "live (sv_app sv) dev_b 0" using demo_reachable by blast
  note sent = send_live(1) [OF toy_env_ok sv(2), of "WsError ''e''"]
  have "ch_frames (ap_channels (push_frame 0 (ws_text toy_env (WsError ''e'')) (sv_app sv)) 0) \<noteq> ch_frames (ap_channels (sv_app sv) 0)"
    by simp
  from frames_reach_only_their_device [OF sv(1) sent this] sv(1) sent show ?thesis by blast
qed

section \<open>The end of a socket\<close>

text \<open>
  When a device reconnects before the server has noticed that its old socket is gone, the cleanup of the
  old socket removes the entry of the new one: the new socket stays open, but a message for the device is no
  longer written to it.
\<close>

theorem stale_disconnect_unregisters:
  fixes E :: "('s, 't) env" and a :: "'s app"
  assumes "env_ok E" and "live a d new" and "old \<noteq> new" and "en_recipient_device_id e = d" and "0 < message_ttl e"
  shows "\<exists>a1 a2. close_socket I d old a = (Ok () :: ('e, unit) outcome, a1) \<and>
    ch_receiving (ap_channels a1 new) \<and>
    handle_ws_message E I' u s (SendMessage e) a1 = (Ok (), a2) \<and>
    ap_channels a2 new = ap_channels a new"
proof -
  let ?b = "set_channel old (\<lambda>ch. ch\<lparr>ch_receiving := False\<rparr>) (drop_connection d a)"
  obtain d' where on: "db_or () (set_online (in_now I) d False) ?b = (Ok () :: ('e, unit) outcome, ?b\<lparr>ap_db := d'\<rparr>)"
    using set_online_ignored [of "in_now I" d False ?b] by blast
  let ?a1 = "?b\<lparr>ap_db := d'\<rparr>"
  have c: "close_socket I d old a = (Ok () :: ('e, unit) outcome, ?a1)"
    using on by (simp add: close_socket_def)
  have r: "ap_channels ?a1 new = ap_channels a new"
    using assms(3) by (simp add: drop_connection_def)
  have "\<nexists>c. live ?a1 (en_recipient_device_id e) c"
    using assms(4) by (simp add: live_def drop_connection_def delete_conv')
  from send_message_offline [OF assms(1) this assms(5), of I' u s] obtain a2 where
    "handle_ws_message E I' u s (SendMessage e) ?a1 = (Ok (), a2)" "ap_channels a2 = ap_channels ?a1" by blast
  then show ?thesis using c r assms(2) by (intro exI [of _ ?a1] exI [of _ a2]) (simp add: live_def)
qed

theorem stale_disconnect_unregisters_witness:
  "\<exists>(a1 :: mem app) a2. close_socket (toy_inputs 0) dev_b 7 connected_app = (Ok () :: (unit, unit) outcome, a1) \<and>
    ch_receiving (ap_channels a1 1) \<and>
    handle_ws_message toy_env (toy_inputs 1) ''u'' dev_a (SendMessage (demo_envelope dev_b ''m'' None)) a1 = (Ok (), a2) \<and>
    ap_channels a2 1 = ap_channels connected_app 1"
proof -
  have "live connected_app dev_b 1" by (simp add: connected_app_def live_def)
  moreover have "0 < message_ttl (demo_envelope dev_b ''m'' None)" by (simp add: MESSAGE_TTL_SECONDS_def)
  ultimately show ?thesis
    by (intro stale_disconnect_unregisters [OF toy_env_ok]) simp_all
qed

text \<open>The writer's task over a sequence of events: it ends at the first failure.\<close>

fun sink_run :: "nat \<Rightarrow> sink_event list \<Rightarrow> 's app \<Rightarrow> 's app" where
  "sink_run c [] a = a"
| "sink_run c (ev # evs) a =
     (let a' = snd (sink_step c ev a :: (unit, unit) outcome \<times> 's app) in
      if ch_receiving (ap_channels a' c) then sink_run c evs a' else a')"

lemma sink_run_unanswered:
  assumes "\<not> ch_pong (ap_channels a c)" and "PingDue ok \<in> set evs"
  shows "\<not> ch_receiving (ap_channels (sink_run c evs a) c)"
  using assms
proof (induction evs arbitrary: a)
  case (Cons ev evs)
  let ?a = "snd (sink_step c ev a :: (unit, unit) outcome \<times> 'a app)"
  show ?case
  proof (cases "ch_receiving (ap_channels ?a c)")
    case True
    with Cons.prems(1) have "ev = FrameSent True" "?a = a" by (cases ev; auto split: if_splits)+
    with Cons True show ?thesis by (auto simp: Let_def)
  qed (simp add: Let_def)
qed simp

text \<open>
  A peer that stops answering is detected: if two pings fall due with no pong in between, then whatever
  frames the writer sends meanwhile, its channel is closed at the end, so a later message for the device is
  not written to the dead socket and the device is unregistered by the first attempt.
\<close>

theorem dead_socket_detected:
  fixes E :: "('s, 't) env" and a :: "'s app"
  assumes "evs = evs1 @ PingDue ok # evs2" and "PingDue ok' \<in> set evs2"
    and "map_of (ap_connections (sink_run c evs a)) d = Some c" and "env_ok E"
  shows "send_to_device E d m (sink_run c evs a) = (Err (), drop_connection d (sink_run c evs a))"
proof -
  have "\<not> ch_receiving (ap_channels (sink_run c evs a) c)"
    using assms(1)
  proof (induction evs1 arbitrary: a evs)
    case Nil
    let ?a = "snd (sink_step c (PingDue ok) a :: (unit, unit) outcome \<times> 's app)"
    have "\<not> ch_pong (ap_channels ?a c)" by simp
    from sink_run_unanswered [OF this assms(2)] show ?case using Nil by (auto simp: Let_def)
  next
    case (Cons ev evs1)
    then show ?case by (auto simp: Let_def)
  qed
  with assms(3,4) show ?thesis by (simp add: send_to_device_def env_okD)
qed

theorem dead_socket_detected_witness:
  "send_to_device toy_env dev_b (WsError ''e'') (sink_run 1 [FrameSent True, PingDue True, FrameSent True, PingDue True] connected_app)
     = (Err (), drop_connection dev_b (sink_run 1 [FrameSent True, PingDue True, FrameSent True, PingDue True] connected_app))"
proof -
  have "map_of (ap_connections (sink_run 1 [FrameSent True, PingDue True, FrameSent True, PingDue True] connected_app)) dev_b = Some 1"
    by (simp add: connected_app_def Let_def)
  from dead_socket_detected [of _ "[FrameSent True]" True "[FrameSent True, PingDue True]" True, OF _ _ this toy_env_ok]
  show ?thesis by simp
qed

end
