(* ===== verification/Media_Routes.thy ===== *)
theory Media_Routes
  imports Api_State
begin

text \<open>
  crates/hysj-api/src/routes/audio.rs and files.rs: encrypted blobs that pass through Redis. An upload is
  announced with its size, sent, downloaded until three minutes after the first download, and can be
  deleted. Every answer that is no JSON is its HTTP status.
\<close>

section \<open>Constants and messages\<close>

definition MAX_FILE_SIZE :: u64 where "MAX_FILE_SIZE = 100 * 1024 * 1024"

definition MAX_AUDIO_DURATION_SECONDS :: u32 where "MAX_AUDIO_DURATION_SECONDS = 5 * 60"

definition MAX_AUDIO_SIZE :: u64 where "MAX_AUDIO_SIZE = 10 * 1024 * 1024"

definition AUDIO_TTL_SECONDS :: nat where "AUDIO_TTL_SECONDS = 72 * 60 * 60"

definition FILE_TTL_SECONDS :: nat where "FILE_TTL_SECONDS = 72 * 60 * 60"

definition AUDIO_SEEN_TTL_SECONDS :: nat where "AUDIO_SEEN_TTL_SECONDS = 3 * 60"

definition AUDIO_UPLOAD_MAX :: nat where "AUDIO_UPLOAD_MAX = 20"

definition AUDIO_UPLOAD_WINDOW_SECONDS :: nat where "AUDIO_UPLOAD_WINDOW_SECONDS = 60"

definition FILE_UPLOAD_MAX :: nat where "FILE_UPLOAD_MAX = 10"

definition FILE_UPLOAD_WINDOW_SECONDS :: nat where "FILE_UPLOAD_WINDOW_SECONDS = 60"

record audio_upload_request =
  aq_recipient_device_id :: uuid
  aq_duration_seconds :: u32
  aq_blob_size :: u64

record audio_upload_response =
  ar_audio_id :: string
  ar_upload_url :: string

record audio_meta =
  am_audio_id :: string
  am_duration_seconds :: u32
  am_blob_size :: u64

record file_upload_init_request =
  fu_file_name :: string
  fu_file_size :: u64
  fu_chunk_count :: u32
  fu_recipient_device_id :: uuid

record file_upload_init_response =
  fi_file_id :: string
  fi_upload_url :: string

record file_meta_response =
  fm_file_id :: string
  fm_file_name :: string
  fm_file_size :: u64
  fm_chunk_count :: u32
  fm_uploaded_at :: int

definition NO_CONTENT :: nat where "NO_CONTENT = 204"

text \<open>An en dash in UTF-8.\<close>

definition en_dash :: string where
  "en_dash = [CHR 0xE2, CHR 0x80, CHR 0x93]"

text \<open>\<open>body.len() as u64\<close>; sums of \<open>u64\<close> wrap, as in a release build.\<close>

definition u64_len :: "bytes \<Rightarrow> u64" where
  "u64_len body = of_nat (length body)"

section \<open>audio.rs\<close>

definition audio_upload_init ::
    "('s, 't) env \<Rightarrow> inputs \<Rightarrow> auth_user \<Rightarrow> audio_upload_request \<Rightarrow> ('s, audio_upload_response) handler" where
  "audio_upload_init E I auth req =
     bind_a (limit_ok I (''audio:'' @ au_user_id auth) AUDIO_UPLOAD_MAX AUDIO_UPLOAD_WINDOW_SECONDS) (\<lambda>ok.
     bind_a (require ok RateLimited) (\<lambda>_.
     let duration = aq_duration_seconds req in
     bind_a (require (\<not> (duration = 0 \<or> duration > MAX_AUDIO_DURATION_SECONDS))
       (ValidationError (''Audio duration must be 1'' @ en_dash @ nat_str (unat MAX_AUDIO_DURATION_SECONDS) @
          '' seconds, got '' @ nat_str (unat duration)))) (\<lambda>_.
     bind_a (require (\<not> (aq_blob_size req = 0 \<or> aq_blob_size req > MAX_AUDIO_SIZE))
       (ValidationError (''Audio size must be 1'' @ en_dash @ nat_str (unat MAX_AUDIO_SIZE) @
          '' bytes, got '' @ nat_str (unat (aq_blob_size req))))) (\<lambda>_.
     let audio_id = in_uuid I 0; upload_url = ''/api/audio/'' @ audio_id @ ''/upload'' in
     bind_a (or_internal (store_meta (e_redis E) (e_meta_json E) audio_id (aq_recipient_device_id req)
       duration (aq_blob_size req) AUDIO_TTL_SECONDS)) (\<lambda>_.
     ret \<lparr>ar_audio_id = audio_id, ar_upload_url = upload_url\<rparr>)))))"

definition audio_upload_blob :: "('s, 't) env \<Rightarrow> string \<Rightarrow> bytes \<Rightarrow> ('s, nat) handler" where
  "audio_upload_blob E audio_id body =
     bind_a (or_internal (get_meta (e_redis E) (e_meta_json E) audio_id)) (\<lambda>found.
     case found of
       None \<Rightarrow> throw (ValidationError ''Audio upload not initialized or expired'')
     | Some meta \<Rightarrow>
         bind_a (require (\<not> u64_len body > mm_blob_size meta + 1024)
           (ValidationError (''Upload size '' @ nat_str (length body) @ '' exceeds declared size '' @
              nat_str (unat (mm_blob_size meta))))) (\<lambda>_.
         bind_a (require (\<not> u64_len body > MAX_AUDIO_SIZE)
           (ValidationError ''Audio blob exceeds maximum size'')) (\<lambda>_.
         bind_a (or_internal (store_blob (e_redis E) audio_id body AUDIO_TTL_SECONDS)) (\<lambda>_.
         ret NO_CONTENT))))"

definition audio_download_blob :: "('s, 't) env \<Rightarrow> string \<Rightarrow> ('s, nat \<times> bytes) handler" where
  "audio_download_blob E audio_id =
     bind_a (or_internal (retrieve_and_expire (e_redis E) audio_id AUDIO_SEEN_TTL_SECONDS)) (\<lambda>blob.
     case blob of
       Some data \<Rightarrow> ret (200, data)
     | None \<Rightarrow> throw (ResourceNotFound ''Audio not found or expired''))"

definition audio_meta_route :: "('s, 't) env \<Rightarrow> string \<Rightarrow> ('s, audio_meta) handler" where
  "audio_meta_route E audio_id =
     bind_a (or_internal (get_meta (e_redis E) (e_meta_json E) audio_id)) (\<lambda>meta.
     case meta of
       Some m \<Rightarrow> ret \<lparr>am_audio_id = audio_id, am_duration_seconds = mm_duration_seconds m, am_blob_size = mm_blob_size m\<rparr>
     | None \<Rightarrow> throw (ResourceNotFound ''Audio metadata not found''))"

definition delete_audio :: "('s, 't) env \<Rightarrow> string \<Rightarrow> ('s, nat) handler" where
  "delete_audio E audio_id =
     bind_a (or_internal (delete_blob (e_redis E) audio_id)) (\<lambda>deleted.
     if deleted then ret NO_CONTENT else throw (ResourceNotFound ''Audio not found''))"

section \<open>files.rs\<close>

definition file_upload_init ::
    "('s, 't) env \<Rightarrow> inputs \<Rightarrow> auth_user \<Rightarrow> file_upload_init_request \<Rightarrow> ('s, file_upload_init_response) handler" where
  "file_upload_init E I auth req =
     bind_a (limit_ok I (''file:'' @ au_user_id auth) FILE_UPLOAD_MAX FILE_UPLOAD_WINDOW_SECONDS) (\<lambda>ok.
     bind_a (require ok RateLimited) (\<lambda>_.
     bind_a (require (\<not> fu_file_size req > MAX_FILE_SIZE)
       (ValidationError (''File too large: '' @ nat_str (unat (fu_file_size req)) @ '' bytes (max '' @
          nat_str (unat MAX_FILE_SIZE) @ '' bytes)''))) (\<lambda>_.
     bind_a (require (fu_file_name req \<noteq> '''') (ValidationError ''File name cannot be empty'')) (\<lambda>_.
     let file_id = in_uuid I 0; upload_url = ''/api/files/'' @ file_id @ ''/upload'' in
     bind_a (or_internal (store_meta (e_redis E) (e_meta_json E) file_id (fu_recipient_device_id req)
       0 (fu_file_size req) FILE_TTL_SECONDS)) (\<lambda>_.
     ret \<lparr>fi_file_id = file_id, fi_upload_url = upload_url\<rparr>)))))"

definition file_upload_blob :: "('s, 't) env \<Rightarrow> string \<Rightarrow> bytes \<Rightarrow> ('s, nat) handler" where
  "file_upload_blob E file_id body =
     bind_a (or_internal (get_meta (e_redis E) (e_meta_json E) file_id)) (\<lambda>found.
     case found of
       None \<Rightarrow> throw (ValidationError ''File upload not initialized or expired'')
     | Some meta \<Rightarrow>
         bind_a (require (\<not> u64_len body > mm_blob_size meta + 1024)
           (ValidationError (''Upload size '' @ nat_str (length body) @ '' exceeds declared size '' @
              nat_str (unat (mm_blob_size meta))))) (\<lambda>_.
         bind_a (require (\<not> u64_len body > MAX_FILE_SIZE)
           (ValidationError ''File exceeds maximum size'')) (\<lambda>_.
         bind_a (or_internal (store_blob (e_redis E) file_id body FILE_TTL_SECONDS)) (\<lambda>_.
         ret NO_CONTENT))))"

definition file_download_blob :: "('s, 't) env \<Rightarrow> string \<Rightarrow> ('s, nat \<times> bytes) handler" where
  "file_download_blob E file_id =
     bind_a (or_internal (retrieve_and_expire (e_redis E) file_id AUDIO_SEEN_TTL_SECONDS)) (\<lambda>blob.
     case blob of
       Some data \<Rightarrow> ret (200, data)
     | None \<Rightarrow> throw (ResourceNotFound ''File not found or expired''))"

definition file_meta :: "('s, 't) env \<Rightarrow> inputs \<Rightarrow> string \<Rightarrow> ('s, file_meta_response) handler" where
  "file_meta E I file_id =
     bind_a (or_internal (get_meta (e_redis E) (e_meta_json E) file_id)) (\<lambda>meta.
     case meta of
       Some m \<Rightarrow> ret \<lparr>fm_file_id = file_id, fm_file_name = '''', fm_file_size = mm_blob_size m,
         fm_chunk_count = 1, fm_uploaded_at = in_now I\<rparr>
     | None \<Rightarrow> throw (ResourceNotFound ''File metadata not found''))"

definition delete_file :: "('s, 't) env \<Rightarrow> string \<Rightarrow> ('s, nat) handler" where
  "delete_file E file_id =
     bind_a (or_internal (delete_blob (e_redis E) file_id)) (\<lambda>deleted.
     if deleted then ret NO_CONTENT else throw (ResourceNotFound ''File not found''))"

end
