(* ===== verification/Media_Properties.thy ===== *)
theory Media_Properties
  imports Media_Routes Message_Delivery
begin

text \<open>
  What the audio handlers promise: an announced upload that keeps to its size can be downloaded until
  three minutes after the first download, and nothing larger is ever stored. The keys of blobs and of
  metadata are not told apart by the handlers.
\<close>

section \<open>Runs\<close>

lemma or_internal_run:
  "\<exists>s'. q (ap_redis a) = (Ok x, s') \<and> P s' \<Longrightarrow> \<exists>s. or_internal q a = (Ok x, a\<lparr>ap_redis := s\<rparr>) \<and> P s"
  by (auto simp: or_internal_def map_err_a_def on_redis_def)

lemma limit_Ok:
  "fst (check_rate_limit (in_instant I) k m (int w) (ap_limiter a)) \<Longrightarrow>
   \<exists>l. limit_ok I k m w a = (Ok True, a\<lparr>ap_limiter := l\<rparr>)"
  by (auto simp: limit_ok_def split: prod.split)

lemma look_limiter [simp]: "look_of E (a\<lparr>ap_limiter := l\<rparr>) = look_of E a"
  by (simp add: look_of_def)

lemma look_redis [simp]: "look_of E (a\<lparr>ap_redis := s\<rparr>) = r_look (e_redis E) s"
  by (simp add: look_of_def)

lemma store_meta_app:
  fixes E :: "('s, 't) env"
  assumes "env_ok E" and "0 < ttl"
  shows "\<exists>s. or_internal (store_meta (e_redis E) (e_meta_json E) i r d b ttl) a = (Ok (), a\<lparr>ap_redis := s\<rparr>) \<and>
    r_look (e_redis E) s = (look_of E a)(meta_key i \<mapsto>
      (str_bytes (to_text (e_meta_json E) \<lparr>mm_recipient_device_id = r, mm_duration_seconds = d, mm_blob_size = b\<rparr>), Some ttl))"
  unfolding store_meta_def Let_def look_of_def
  by (rule or_internal_run, rule cmd_set_run [OF env_okD(1) [OF assms(1)] assms(2)])

lemma store_blob_app:
  fixes E :: "('s, 't) env"
  assumes "env_ok E" and "0 < ttl"
  shows "\<exists>s. or_internal (store_blob (e_redis E) i body ttl) a = (Ok (), a\<lparr>ap_redis := s\<rparr>) \<and>
    r_look (e_redis E) s = (look_of E a)(media_key i \<mapsto> (body, Some ttl))"
  unfolding store_blob_def look_of_def
  by (rule or_internal_run, rule cmd_set_run [OF env_okD(1) [OF assms(1)] assms(2)])

lemma get_meta_app:
  fixes E :: "('s, 't) env"
  assumes "env_ok E" and "look_of E a (meta_key i) = Some (str_bytes (to_text (e_meta_json E) m), t)"
  shows "\<exists>s. or_internal (get_meta (e_redis E) (e_meta_json E) i) a = (Ok (Some m), a\<lparr>ap_redis := s\<rparr>) \<and>
    r_look (e_redis E) s = look_of E a"
proof -
  have "text_codec_laws (e_meta_json E)" using assms(1) by (simp add: env_ok_def)
  from get_meta_run [OF env_okD(1) [OF assms(1)] this assms(2) [unfolded look_of_def]] show ?thesis
    unfolding look_of_def by (rule or_internal_run)
qed

lemma retrieve_app:
  fixes E :: "('s, 't) env"
  assumes "env_ok E"
  shows "\<exists>s. or_internal (retrieve_and_expire (e_redis E) i t) a =
      (Ok (map_option fst (look_of E a (media_key i))), a\<lparr>ap_redis := s\<rparr>) \<and>
    r_look (e_redis E) s = (if has (look_of E a) (media_key i)
      then set_ttl (set_ttl (look_of E a) (media_key i) t) (meta_key i) t else look_of E a)"
  unfolding look_of_def by (rule or_internal_run, rule retrieve_and_expire_run [OF env_okD(1) [OF assms]])

lemma delete_app:
  fixes E :: "('s, 't) env"
  assumes "env_ok E"
  shows "\<exists>s. or_internal (delete_blob (e_redis E) i) a =
      (Ok (has (look_of E a) (media_key i) \<or> has (look_of E a) (meta_key i)), a\<lparr>ap_redis := s\<rparr>) \<and>
    r_look (e_redis E) s = look_of E a |` (- {media_key i, meta_key i})"
  unfolding look_of_def by (rule or_internal_run, rule delete_blob_run [OF env_okD(1) [OF assms]])

lemma audio_upload_runs:
  fixes E :: "('s, 't) env"
  assumes E: "env_ok E" and m: "look_of E a (meta_key i) = Some (str_bytes (to_text (e_meta_json E) m), t)"
    and size: "u64_len body \<le> mm_blob_size m + 1024" "u64_len body \<le> MAX_AUDIO_SIZE"
  shows "\<exists>a'. audio_upload_blob E i body a = (Ok NO_CONTENT, a') \<and>
    look_of E a' = (look_of E a)(media_key i \<mapsto> (body, Some AUDIO_TTL_SECONDS))"
proof -
  from get_meta_app [OF E m] obtain s where
    g: "or_internal (get_meta (e_redis E) (e_meta_json E) i) a = (Ok (Some m), a\<lparr>ap_redis := s\<rparr>)"
      "r_look (e_redis E) s = look_of E a" by blast
  have "0 < AUDIO_TTL_SECONDS" by (simp add: AUDIO_TTL_SECONDS_def)
  from store_blob_app [OF E this, of i body "a\<lparr>ap_redis := s\<rparr>"] obtain s' where
    b: "or_internal (store_blob (e_redis E) i body AUDIO_TTL_SECONDS) (a\<lparr>ap_redis := s\<rparr>) = (Ok (), a\<lparr>ap_redis := s'\<rparr>)"
      "r_look (e_redis E) s' = (look_of E a)(media_key i \<mapsto> (body, Some AUDIO_TTL_SECONDS))"
    using g(2) by auto
  have "audio_upload_blob E i body a = (Ok NO_CONTENT, a\<lparr>ap_redis := s'\<rparr>)"
    using size g(1) b(1) by (simp add: audio_upload_blob_def bind_a_Ok require_def not_less)
  with b(2) show ?thesis by simp
qed

lemma audio_announced:
  fixes E :: "('s, 't) env" and a :: "'s app"
  assumes E: "env_ok E" and lim: "fst (check_rate_limit (in_instant I) (''audio:'' @ au_user_id auth) 20 60 (ap_limiter a))"
    and dur: "0 < aq_duration_seconds req" "aq_duration_seconds req \<le> 300"
    and size: "0 < aq_blob_size req" "aq_blob_size req \<le> MAX_AUDIO_SIZE"
  shows "\<exists>a1. audio_upload_init E I auth req a =
      (Ok \<lparr>ar_audio_id = in_uuid I 0, ar_upload_url = ''/api/audio/'' @ in_uuid I 0 @ ''/upload''\<rparr>, a1) \<and>
    look_of E a1 (meta_key (in_uuid I 0)) = Some (str_bytes (to_text (e_meta_json E)
      \<lparr>mm_recipient_device_id = aq_recipient_device_id req, mm_duration_seconds = aq_duration_seconds req,
       mm_blob_size = aq_blob_size req\<rparr>), Some AUDIO_TTL_SECONDS)"
proof -
  obtain l where l: "limit_ok I (''audio:'' @ au_user_id auth) 20 60 a = (Ok True :: (hysj_error, bool) outcome, a\<lparr>ap_limiter := l\<rparr>)"
    using limit_Ok [of I "''audio:'' @ au_user_id auth" 20 60 a] lim by auto
  have ttl: "0 < AUDIO_TTL_SECONDS" by (simp add: AUDIO_TTL_SECONDS_def)
  from store_meta_app [OF E ttl, of "in_uuid I 0" "aq_recipient_device_id req" "aq_duration_seconds req" "aq_blob_size req" "a\<lparr>ap_limiter := l\<rparr>"]
  obtain s where s: "or_internal (store_meta (e_redis E) (e_meta_json E) (in_uuid I 0) (aq_recipient_device_id req)
        (aq_duration_seconds req) (aq_blob_size req) AUDIO_TTL_SECONDS) (a\<lparr>ap_limiter := l\<rparr>) =
      (Ok (), a\<lparr>ap_limiter := l, ap_redis := s\<rparr>)"
    "r_look (e_redis E) s (meta_key (in_uuid I 0)) = Some (str_bytes (to_text (e_meta_json E)
      \<lparr>mm_recipient_device_id = aq_recipient_device_id req, mm_duration_seconds = aq_duration_seconds req,
       mm_blob_size = aq_blob_size req\<rparr>), Some AUDIO_TTL_SECONDS)"
    by auto
  from l s(1) dur size s(2) show ?thesis
    by (intro exI [of _ "a\<lparr>ap_limiter := l, ap_redis := s\<rparr>"])
      (simp add: audio_upload_init_def AUDIO_UPLOAD_MAX_def AUDIO_UPLOAD_WINDOW_SECONDS_def bind_a_Ok require_def
        MAX_AUDIO_DURATION_SECONDS_def Let_def not_less word_neq_0_conv)
qed

lemma audio_downloads:
  fixes E :: "('s, 't) env"
  assumes "env_ok E"
  shows "look_of E a (media_key i) = Some (body, t) \<Longrightarrow> \<exists>a'. audio_download_blob E i a = (Ok (200, body), a') \<and>
      look_of E a' (media_key i) = Some (body, Some 180)"
    and "look_of E a (media_key i) = None \<Longrightarrow>
      \<exists>a'. audio_download_blob E i a = (Err (ResourceNotFound ''Audio not found or expired''), a')"
  using retrieve_app [OF assms, of i AUDIO_SEEN_TTL_SECONDS a]
  by (auto simp: audio_download_blob_def bind_a_Ok has_def set_ttl_def AUDIO_SEEN_TTL_SECONDS_def split: option.split)

lemma audio_deleted:
  fixes E :: "('s, 't) env"
  assumes "env_ok E" and "has (look_of E a) (media_key i)"
  shows "\<exists>a'. delete_audio E i a = (Ok 204, a') \<and> look_of E a' (media_key i) = None"
  using delete_app [OF assms(1), of i a] assms(2) by (auto simp: delete_audio_def bind_a_Ok NO_CONTENT_def)

section \<open>Properties\<close>

text \<open>
  C26: Audio goes through unchanged: once an upload of an admissible duration and size is announced, a body
  that is no more than a kilobyte larger than announced is accepted, and a download returns exactly its bytes
  and leaves them three more minutes; the sender can delete it, after which it is not found.
\<close>

theorem audio_roundtrip:
  fixes E :: "('s, 't) env" and a :: "'s app"
  assumes E: "env_ok E" and lim: "fst (check_rate_limit (in_instant I) (''audio:'' @ au_user_id auth) 20 60 (ap_limiter a))"
    and dur: "0 < aq_duration_seconds req" "aq_duration_seconds req \<le> 300"
    and size: "0 < aq_blob_size req" "aq_blob_size req \<le> MAX_AUDIO_SIZE"
      "u64_len body \<le> aq_blob_size req + 1024" "u64_len body \<le> MAX_AUDIO_SIZE"
  defines "i \<equiv> in_uuid I 0"
  shows "\<exists>a1 a2 a3 a4 a5.
    audio_upload_init E I auth req a = (Ok \<lparr>ar_audio_id = i, ar_upload_url = ''/api/audio/'' @ i @ ''/upload''\<rparr>, a1) \<and>
    audio_upload_blob E i body a1 = (Ok 204, a2) \<and>
    audio_download_blob E i a2 = (Ok (200, body), a3) \<and>
    look_of E a3 (media_key i) = Some (body, Some 180) \<and>
    delete_audio E i a3 = (Ok 204, a4) \<and>
    audio_download_blob E i a4 = (Err (ResourceNotFound ''Audio not found or expired''), a5)"
proof -
  from audio_announced [OF E lim dur size(1,2)] obtain a1 where
    up: "audio_upload_init E I auth req a = (Ok \<lparr>ar_audio_id = i, ar_upload_url = ''/api/audio/'' @ i @ ''/upload''\<rparr>, a1)" and
    meta: "look_of E a1 (meta_key i) = Some (str_bytes (to_text (e_meta_json E)
      \<lparr>mm_recipient_device_id = aq_recipient_device_id req, mm_duration_seconds = aq_duration_seconds req,
       mm_blob_size = aq_blob_size req\<rparr>), Some AUDIO_TTL_SECONDS)" unfolding i_def by blast
  from audio_upload_runs [OF E meta, of body] size(3,4) obtain a2 where
    a2: "audio_upload_blob E i body a1 = (Ok 204, a2)" "look_of E a2 (media_key i) = Some (body, Some AUDIO_TTL_SECONDS)"
    by (auto simp: NO_CONTENT_def)
  from audio_downloads(1) [OF E a2(2)] obtain a3 where
    a3: "audio_download_blob E i a2 = (Ok (200, body), a3)" "look_of E a3 (media_key i) = Some (body, Some 180)" by blast
  then have "has (look_of E a3) (media_key i)" by (simp add: has_def)
  from audio_deleted [OF E this] obtain a4 where
    a4: "delete_audio E i a3 = (Ok 204, a4)" "look_of E a4 (media_key i) = None" by blast
  from audio_downloads(2) [OF E a4(2)] up a2(1) a3 a4(1) show ?thesis by blast
qed

definition demo_auth :: auth_user where
  "demo_auth = \<lparr>au_user_id = ''u1'', au_device_id = dev_a, au_username = ''alice''\<rparr>"

definition demo_audio :: audio_upload_request where
  "demo_audio = \<lparr>aq_recipient_device_id = dev_b, aq_duration_seconds = 12, aq_blob_size = 4\<rparr>"

lemma toy_limit: "fst (check_rate_limit t k (Suc m) w (ap_limiter toy_app))"
  by (simp add: toy_app_def app_new_def limiter_new_def check_rate_limit_def stamps_def Let_def)

theorem audio_roundtrip_witness:
  "\<exists>(a1 :: mem app) a2 a3. audio_upload_init toy_env (toy_inputs 0) demo_auth demo_audio toy_app =
      (Ok \<lparr>ar_audio_id = ''fresh-0'', ar_upload_url = ''/api/audio/fresh-0/upload''\<rparr>, a1) \<and>
    audio_upload_blob toy_env ''fresh-0'' [1, 2, 3, 4] a1 = (Ok 204, a2) \<and>
    audio_download_blob toy_env ''fresh-0'' a2 = (Ok (200, [1, 2, 3, 4]), a3)"
proof -
  have i: "in_uuid (toy_inputs 0) 0 = ''fresh-0''" by (simp add: toy_inputs_def nat_str.simps char_of_def bit_0)
  have "fst (check_rate_limit (in_instant (toy_inputs 0)) (''audio:'' @ au_user_id demo_auth) 20 60 (ap_limiter toy_app))"
    using toy_limit [where m = 19] by simp
  moreover have "0 < aq_duration_seconds demo_audio" "aq_duration_seconds demo_audio \<le> 300" "0 < aq_blob_size demo_audio"
    "aq_blob_size demo_audio \<le> MAX_AUDIO_SIZE" "u64_len [1, 2, 3, 4] \<le> aq_blob_size demo_audio + 1024"
    "u64_len [1, 2, 3, 4] \<le> MAX_AUDIO_SIZE"
    by (simp_all add: demo_audio_def MAX_AUDIO_SIZE_def u64_len_def)
  ultimately show ?thesis
    using audio_roundtrip [OF toy_env_ok, of "toy_inputs 0" demo_auth toy_app demo_audio "[1, 2, 3, 4]"]
    unfolding i by fastforce
qed

text \<open>
  Whatever is sent to the audio upload endpoint, an oversized body never reaches Redis: either the
  keyspace is left as it was, or exactly the blob is stored, for 72 hours, under the id of an upload that
  was announced, and it has at most 10 megabytes.
\<close>

theorem stored_audio_bounded:
  fixes E :: "('s, 't) env"
  assumes E: "env_ok E" and "length body < 2 ^ 64"
  shows "\<exists>r a'. audio_upload_blob E i body a = (r, a') \<and>
    (look_of E a' = look_of E a \<or>
     r = Ok 204 \<and> length body \<le> 10 * 1024 * 1024 \<and> has (look_of E a) (meta_key i) \<and>
     look_of E a' = (look_of E a)(media_key i \<mapsto> (body, Some 259200)))"
proof -
  obtain r s where g: "get_meta (e_redis E) (e_meta_json E) i (ap_redis a) = (r, s)" "r_look (e_redis E) s = look_of E a"
      "r = Ok (Some m) \<Longrightarrow> has (look_of E a) (meta_key i)" for m
  proof -
    obtain s' where s': "r_get (e_redis E) (meta_key i) (ap_redis a) =
        (Ok (map_option fst (look_of E a (meta_key i))), s')" "r_look (e_redis E) s' = look_of E a"
      using redis_get [OF env_okD(1) [OF E]] unfolding look_of_def by metis
    have "\<exists>r. get_meta (e_redis E) (e_meta_json E) i (ap_redis a) = (r, s') \<and>
        (\<forall>m. r = Ok (Some m) \<longrightarrow> has (look_of E a) (meta_key i))"
      using s'(1) by (cases "look_of E a (meta_key i)")
        (auto simp: get_meta_def get_string_def cmd_def map_err_a_def bind_a_split has_def throw_def of_sum_def
          split: option.split sum.split)
    with s'(2) that show ?thesis by blast
  qed
  let ?a1 = "a\<lparr>ap_redis := s\<rparr>"
  have o: "or_internal (get_meta (e_redis E) (e_meta_json E) i) a = (map_err (\<lambda>e. InternalError (messaging_error_str e)) r, ?a1)"
    using g(1) by (simp add: or_internal_def map_err_a_def on_redis_def)
  have big: "u64_len body \<le> MAX_AUDIO_SIZE \<longleftrightarrow> length body \<le> 10 * 1024 * 1024"
    using assms(2) by (simp add: u64_len_def MAX_AUDIO_SIZE_def word_le_nat_alt unat_of_nat)
  show ?thesis
  proof (cases "\<exists>m. r = Ok (Some m) \<and> u64_len body \<le> mm_blob_size m + 1024 \<and> u64_len body \<le> MAX_AUDIO_SIZE")
    case True
    then obtain m where m: "r = Ok (Some m)" "u64_len body \<le> mm_blob_size m + 1024" "u64_len body \<le> MAX_AUDIO_SIZE" by blast
    have "0 < AUDIO_TTL_SECONDS" by (simp add: AUDIO_TTL_SECONDS_def)
    from store_blob_app [OF E this, of i body ?a1] g(2) obtain s' where
      b: "or_internal (store_blob (e_redis E) i body AUDIO_TTL_SECONDS) ?a1 = (Ok (), a\<lparr>ap_redis := s'\<rparr>)"
        "r_look (e_redis E) s' = (look_of E a)(media_key i \<mapsto> (body, Some AUDIO_TTL_SECONDS))" by auto
    have "audio_upload_blob E i body a = (Ok NO_CONTENT, a\<lparr>ap_redis := s'\<rparr>)"
      using o m b(1) by (simp add: audio_upload_blob_def bind_a_Ok require_def not_less)
    with b(2) m(3) big g(3) [OF m(1)] show ?thesis by (simp add: NO_CONTENT_def AUDIO_TTL_SECONDS_def)
  next
    case False
    have "\<exists>r'. audio_upload_blob E i body a = (r', ?a1)"
    proof (cases r)
      case (Ok x)
      with False o show ?thesis
        by (cases x) (auto simp: audio_upload_blob_def bind_a_Ok require_def not_less)
    qed (use o in \<open>auto simp: audio_upload_blob_def bind_a_Err bind_a_Panic\<close>)
    with g(2) show ?thesis by auto
  qed
qed

theorem stored_audio_bounded_witness:
  "\<exists>r (a' :: mem app). audio_upload_blob toy_env ''x'' [1, 2, 3] toy_app = (r, a') \<and> look_of toy_env a' = look_of toy_env toy_app"
  using stored_audio_bounded [OF toy_env_ok, of "[1, 2, 3]" "''x''" toy_app] by (auto simp: has_def)

text \<open>
  The metadata of an upload can be fetched as if it were a blob: downloading the id with \<open>:meta\<close> behind
  it returns the stored JSON, with the recipient's device id that the metadata endpoint leaves out, to any
  authenticated user, and cuts the life of the announcement to three minutes.
\<close>

theorem metadata_downloadable:
  assumes "env_ok E" and "look_of E a (meta_key i) = Some (json, t)"
  shows "\<exists>a'. audio_download_blob E (i @ '':meta'') a = (Ok (200, json), a') \<and>
    look_of E a' (meta_key i) = Some (json, Some 180)"
proof -
  have k: "media_key (i @ '':meta'') = meta_key i" by (simp add: media_key_def meta_key_def)
  from retrieve_app [OF assms(1), of "i @ '':meta''" AUDIO_SEEN_TTL_SECONDS a] assms(2) obtain s where
    s: "or_internal (retrieve_and_expire (e_redis E) (i @ '':meta'') AUDIO_SEEN_TTL_SECONDS) a = (Ok (Some json), a\<lparr>ap_redis := s\<rparr>)"
      "r_look (e_redis E) s = set_ttl (set_ttl (look_of E a) (meta_key i) AUDIO_SEEN_TTL_SECONDS) (meta_key (i @ '':meta'')) AUDIO_SEEN_TTL_SECONDS"
    unfolding k by (auto simp: has_def)
  have "r_look (e_redis E) s (meta_key i) = Some (json, Some 180)"
    using assms(2) by (simp add: s(2) set_ttl_def AUDIO_SEEN_TTL_SECONDS_def split: option.split)
  with s(1) show ?thesis by (simp add: audio_download_blob_def bind_a_Ok)
qed

theorem metadata_downloadable_witness:
  "\<exists>(a :: mem app) a'. audio_download_blob toy_env ''x:meta'' a = (Ok (200, [7]), a')"
proof -
  let ?a = "toy_app\<lparr>ap_redis := [(meta_key ''x'', ([7], Some 9))]\<rparr> :: mem app"
  have "look_of toy_env ?a (meta_key ''x'') = Some ([7], Some 9)" by (simp add: toy_env_def mem_redis_def)
  from metadata_downloadable [OF toy_env_ok this] show ?thesis by auto
qed

end
