(* ===== verification/Background_Tasks.thy ===== *)
theory Background_Tasks
  imports Api_State
begin

text \<open>
  crates/hysj-api/src/background: one round of the message expiry sweep and of the wipe sweep, each a
  loop over SCAN with fuel. The third task, the cleanup of the rate limiter, is in \<open>Rate_Limiter\<close>.
\<close>

section \<open>message\_expiry.rs\<close>

definition SWEEP_TTL_SECONDS :: nat where
  "SWEEP_TTL_SECONDS = 72 * 60 * 60"

text \<open>The keys of one page: a key without expiry gets one; commands that fail are passed over.\<close>

fun expiry_page :: "'s redis \<Rightarrow> string list \<Rightarrow> nat \<Rightarrow> ('s, string, nat) act" where
  "expiry_page R [] fixed = ret fixed"
| "expiry_page R (key # keys) fixed =
     bind_a (catch_a (bind_a (r_ttl R key) (\<lambda>t. ret (Some t))) None) (\<lambda>ttl.
     if ttl = Some (-1) then
       bind_a (catch_a (r_expire R key SWEEP_TTL_SECONDS) False) (\<lambda>_. expiry_page R keys (fixed + 1))
     else expiry_page R keys fixed)"

text \<open>A round: how many keys were seen and fixed, as far as SCAN answered. \<open>None\<close> is out of fuel.\<close>

fun expiry_round :: "nat \<Rightarrow> 's redis \<Rightarrow> nat \<Rightarrow> nat \<Rightarrow> nat \<Rightarrow> ('s, string, (nat \<times> nat) option) act" where
  "expiry_round 0 R cursor seen fixed = ret None"
| "expiry_round (Suc fuel) R cursor seen fixed =
     bind_a (catch_a (bind_a (r_scan R cursor ''msg:*'') (\<lambda>page. ret (Some page))) None) (\<lambda>result.
     case result of
       None \<Rightarrow> ret (Some (seen, fixed))
     | Some (next_cursor, keys) \<Rightarrow>
         bind_a (expiry_page R keys fixed) (\<lambda>fixed'.
         if next_cursor = 0 then ret (Some (seen + length keys, fixed'))
         else expiry_round fuel R next_cursor (seen + length keys) fixed'))"

section \<open>wipe\_pending.rs\<close>

text \<open>\<open>split(':')\<close>\<close>

fun split_on :: "char \<Rightarrow> string \<Rightarrow> string list" where
  "split_on c [] = [[]]"
| "split_on c (x # xs) =
     (if x = c then [] # split_on c xs
      else case split_on c xs of p # ps \<Rightarrow> (x # p) # ps | [] \<Rightarrow> [[x]])"

definition sweep_key :: "('s, 't) env \<Rightarrow> string \<Rightarrow> ('s app, 'e, unit) act" where
  "sweep_key E key =
     (let parts = split_on CHR '':'' key in
      if length parts < 2 then ret ()
      else
        case e_parse_uuid E (parts ! 1) of
          None \<Rightarrow> ret ()
        | Some device_id \<Rightarrow>
            bind_a (get_s (\<lambda>a. map_of (ap_connections a) device_id \<noteq> None)) (\<lambda>online.
            if \<not> online then ret ()
            else
              bind_a (catch_a (bind_a (on_redis (get_pending_wipes (e_fuel E) (e_redis E) (e_wipe_json E) device_id)) (\<lambda>r.
                bind_a (returned r) (\<lambda>wipes. ret wipes))) []) (\<lambda>wipes.
              for_a wipes (\<lambda>wipe. try_send E device_id (WipeCommand (pw_command wipe))))))"

fun wipe_round :: "nat \<Rightarrow> ('s, 't) env \<Rightarrow> nat \<Rightarrow> ('s app, 'e, unit option) act" where
  "wipe_round 0 E cursor = ret None"
| "wipe_round (Suc fuel) E cursor =
     bind_a (catch_a (bind_a (on_redis (r_scan (e_redis E) cursor ''wipe:*'')) (\<lambda>page. ret (Some page))) None) (\<lambda>result.
     case result of
       None \<Rightarrow> ret (Some ())
     | Some (next_cursor, keys) \<Rightarrow>
         bind_a (for_a keys (sweep_key E)) (\<lambda>_.
         if next_cursor = 0 then ret (Some ()) else wipe_round fuel E next_cursor))"

end
