(* ===== verification/Sweep_Properties.thy ===== *)
theory Sweep_Properties
  imports Background_Tasks
begin

text \<open>
  The message expiry sweep: one round ends and leaves every queued message with a time to live. The
  round is the general loop over SCAN with the set of keys seen so far as a ghost result.
\<close>

section \<open>A page\<close>

definition SWEPT :: "bytes \<times> nat option \<Rightarrow> bytes \<times> nat option" where
  "SWEPT e = (case snd e of None \<Rightarrow> (fst e, Some SWEEP_TTL_SECONDS) | Some t \<Rightarrow> e)"

text \<open>The keyspace after the keys of \<open>D\<close> were swept.\<close>

definition swept :: "keyspace \<Rightarrow> string set \<Rightarrow> keyspace" where
  "swept L D = (\<lambda>k. if k \<in> D then map_option SWEPT (L k) else L k)"

lemma swept_simps [simp]: "swept L {} = L" "has (swept L D) k \<longleftrightarrow> has L k"
  by (simp add: swept_def fun_eq_iff) (cases "L k"; simp add: swept_def has_def)

lemma swept_again: "SWEPT (SWEPT e) = SWEPT e"
  by (simp add: SWEPT_def split: option.split)

lemma swept_swept: "swept (swept L D) E = swept L (D \<union> E)"
  by (auto simp: swept_def fun_eq_iff swept_again option.map_comp comp_def)

lemma swept_one:
  "ttl_of L k = - 1 \<Longrightarrow> set_ttl L k SWEEP_TTL_SECONDS = swept L {k}"
  "ttl_of L k \<noteq> - 1 \<Longrightarrow> swept L {k} = L"
  by (auto simp: ttl_of_def set_ttl_def swept_def SWEPT_def fun_eq_iff split: option.splits prod.splits)

lemma catch_Ok: "m s = (Ok x, s') \<Longrightarrow> catch_a m d s = (Ok x, s')"
  by (simp add: catch_a_def)

lemma expiry_page_sweeps:
  assumes "redis_good N R"
  shows "\<exists>fixed' s'. expiry_page R keys fixed s = (Ok fixed', s') \<and> r_look R s' = swept (r_look R s) (set keys)"
proof (induction keys arbitrary: fixed s)
  case (Cons key keys)
  obtain s1 where ttl: "r_ttl R key s = (Ok (ttl_of (r_look R s) key), s1)" "r_look R s1 = r_look R s"
    by (rule redis_ttl [OF assms])
  have t: "catch_a (bind_a (r_ttl R key) (\<lambda>t. ret (Some t))) None s =
      ((Ok (Some (ttl_of (r_look R s) key)), s1) :: (string, int option) outcome \<times> 'a)"
    using ttl(1) by (intro catch_Ok) (simp add: bind_a_Ok)
  show ?case
  proof (cases "ttl_of (r_look R s) key = - 1")
    case True
    obtain s2 where ex: "r_expire R key SWEEP_TTL_SECONDS s1 = (Ok (has (r_look R s1) key), s2)"
      "r_look R s2 = set_ttl (r_look R s1) key SWEEP_TTL_SECONDS"
      by (rule redis_expire [OF assms])
    obtain fixed' s' where "expiry_page R keys (fixed + 1) s2 = (Ok fixed', s')"
      "r_look R s' = swept (r_look R s2) (set keys)" using Cons.IH by blast
    with t True ex swept_one(1) [OF True] ttl(2) show ?thesis
      by (simp add: bind_a_Ok catch_Ok swept_swept)
  next
    case False
    obtain fixed' s' where "expiry_page R keys fixed s1 = (Ok fixed', s')"
      "r_look R s' = swept (r_look R s1) (set keys)" using Cons.IH by blast
    moreover have "swept (r_look R s) (set keys) = swept (r_look R s) (set (key # keys))"
      using swept_swept [of "r_look R s" "{key}" "set keys"] swept_one(2) [OF False] by simp
    ultimately show ?thesis using t False ttl(2) by (simp add: bind_a_Ok)
  qed
qed simp

section \<open>A round\<close>

definition ghost_page :: "'s redis \<Rightarrow> string list \<Rightarrow> nat \<times> nat \<times> string set \<Rightarrow> ('s, string, nat \<times> nat \<times> string set) act" where
  "ghost_page R keys = (\<lambda>(seen, fixed, D).
     bind_a (expiry_page R keys fixed) (\<lambda>fixed'. ret (seen + length keys, fixed', D \<union> set keys)))"

text \<open>With a server that answers, a round is the loop, without the ghost.\<close>

lemma expiry_round_loop:
  assumes "redis_good N R"
  shows "scan_loop fuel R ''msg:*'' (ghost_page R) cursor (seen, fixed, D) s = (Ok (Some (n, m, E)), s') \<Longrightarrow>
    expiry_round fuel R cursor seen fixed s = (Ok (Some (n, m)), s')"
proof (induction fuel arbitrary: cursor seen fixed D s)
  case (Suc fuel)
  obtain nxt keys s1 where scan: "r_scan R cursor ''msg:*'' s = (Ok (nxt, keys), s1)"
    using redis_scan [OF assms, of "''msg:''" cursor s] by (fastforce simp: plain_def)
  have page: "catch_a (bind_a (r_scan R cursor ''msg:*'') (\<lambda>page. ret (Some page))) None s =
      ((Ok (Some (nxt, keys)), s1) :: (string, (nat \<times> string list) option) outcome \<times> 'a)"
    using scan by (intro catch_Ok) (simp add: bind_a_Ok)
  obtain fixed' s2 where p: "expiry_page R keys fixed s1 = (Ok fixed', s2)" using expiry_page_sweeps [OF assms] by blast
  show ?case
    using Suc.prems Suc.IH [of nxt "seen + length keys" fixed' "D \<union> set keys" s2] scan page p
    by (simp add: bind_a_Ok ghost_page_def split: if_splits)
qed simp

text \<open>
  C19: A round of the expiry sweep ends, within as many calls of SCAN as an iteration can take: every queued
  message that had no expiry then has one of 72 hours, the others keep theirs, and no other key is touched.
\<close>

theorem expiry_sweep_ends:
  assumes "redis_good N R" and "N \<le> fuel"
  shows "\<exists>seen fixed s'. expiry_round fuel R 0 0 0 s = (Ok (Some (seen, fixed)), s') \<and>
    r_look R s' = (\<lambda>k. if prefix ''msg:'' k
      then map_option (\<lambda>(v, t). (v, case t of None \<Rightarrow> Some SWEEP_TTL_SECONDS | Some _ \<Rightarrow> t)) (r_look R s k)
      else r_look R s k)"
proof -
  let ?I = "\<lambda>(n :: nat, m :: nat, D) u. r_look R u = swept (r_look R s) D \<and> (\<forall>k \<in> D. prefix ''msg:'' k)"
  have "\<exists>acc u. scan_loop fuel R (''msg:'' @ ''*'') (ghost_page R) 0 (0, 0, {}) s = (Ok (Some acc), u) \<and> ?I acc u \<and>
      {k. has (r_look R s) k \<and> prefix ''msg:'' k} \<subseteq> snd (snd acc)"
  proof (rule scan_loop_all [OF assms(1) _ _ _ _ _ assms(2)])
    fix keys acc u
    assume I: "?I acc u" and ks: "\<forall>k \<in> set keys. has (r_look R u) k \<and> prefix ''msg:'' k"
    obtain n m D where acc: "acc = (n, m, D)" by (cases acc)
    obtain m' u' where "expiry_page R keys m u = (Ok m', u')" "r_look R u' = swept (r_look R u) (set keys)"
      using expiry_page_sweeps [OF assms(1)] by blast
    with I acc ks show "\<exists>acc' u'. ghost_page R keys acc u = (Ok acc', u') \<and> ?I acc' u' \<and>
        set keys \<subseteq> snd (snd acc') \<and> snd (snd acc) \<subseteq> snd (snd acc')"
      by (auto simp: ghost_page_def bind_a_Ok swept_swept)
  qed (auto simp: plain_def)
  then obtain n m D u where loop: "scan_loop fuel R ''msg:*'' (ghost_page R) 0 (0, 0, {}) s = (Ok (Some (n, m, D)), u)"
    and look: "r_look R u = swept (r_look R s) D" and D: "\<forall>k \<in> D. prefix ''msg:'' k"
    and all: "{k. has (r_look R s) k \<and> prefix ''msg:'' k} \<subseteq> D" by auto
  have "r_look R u = (\<lambda>k. if prefix ''msg:'' k
      then map_option (\<lambda>(v, t). (v, case t of None \<Rightarrow> Some SWEEP_TTL_SECONDS | Some _ \<Rightarrow> t)) (r_look R s k)
      else r_look R s k)"
  proof
    fix k
    have "r_look R s k = None \<or> k \<in> D" if "prefix ''msg:'' k" 
      using all that unfolding has_def by blast
    with D show "r_look R u k = (if prefix ''msg:'' k
        then map_option (\<lambda>(v, t). (v, case t of None \<Rightarrow> Some SWEEP_TTL_SECONDS | Some _ \<Rightarrow> t)) (r_look R s k)
        else r_look R s k)"
      by (auto simp: look swept_def SWEPT_def split: option.splits prod.splits intro!: option.map_cong)
  qed
  with expiry_round_loop [OF assms(1) loop] show ?thesis by blast
qed

theorem expiry_sweep_ends_witness:
  "\<exists>seen fixed s'. expiry_round 2 mem_redis 0 0 0 [(''msg:d:1'', ([1], None)), (''otp:x'', ([2], None))] =
     (Ok (Some (seen, fixed)), s') \<and> r_look mem_redis s' ''msg:d:1'' = Some ([1], Some 259200) \<and>
     r_look mem_redis s' ''otp:x'' = Some ([2], None)"
proof -
  obtain n m s' where "expiry_round 2 mem_redis 0 0 0 [(''msg:d:1'', ([1], None)), (''otp:x'', ([2], None))] = (Ok (Some (n, m)), s')"
    and "r_look mem_redis s' = (\<lambda>k. if prefix ''msg:'' k
      then map_option (\<lambda>(v, t). (v, case t of None \<Rightarrow> Some SWEEP_TTL_SECONDS | Some _ \<Rightarrow> t))
        (r_look mem_redis [(''msg:d:1'', ([1], None)), (''otp:x'', ([2], None))] k)
      else r_look mem_redis [(''msg:d:1'', ([1], None)), (''otp:x'', ([2], None))] k)"
    using expiry_sweep_ends [OF mem_redis_good order_refl] by blast
  then show ?thesis by (simp add: mem_redis_def SWEEP_TTL_SECONDS_def)
qed

end
