(* ===== verification/Otp_Routes.thy ===== *)
theory Otp_Routes
  imports Api_State
begin

text \<open>
  crates/hysj-api/src/routes/otp.rs: proving that one owns a phone number. \<open>send_otp\<close> stores a code and
  sends it, \<open>verify_otp\<close> exchanges a code for a verification token.
\<close>

section \<open>Constants and messages\<close>

definition OTP_CODE_LENGTH :: nat where
  "OTP_CODE_LENGTH = 6"

definition OTP_EXPIRY_SECONDS :: nat where
  "OTP_EXPIRY_SECONDS = 5 * 60"

definition OTP_VERIFICATION_TOKEN_EXPIRY_SECONDS :: nat where
  "OTP_VERIFICATION_TOKEN_EXPIRY_SECONDS = 10 * 60"

record send_otp_request =
  so_phone_number :: string

record send_otp_response =
  os_message :: string
  os_expires_in :: nat
  os_dev_code :: "string option"

record verify_otp_request =
  vo_phone_number :: string
  vo_code :: string

record verify_otp_response =
  ov_verified :: bool
  ov_verification_token :: "string option"

section \<open>extract\_ip\<close>

text \<open>\<open>trim\<close> on the text of a header, which is ASCII.\<close>

definition is_space :: "char \<Rightarrow> bool" where
  "is_space c \<longleftrightarrow> (let n = of_char c :: nat in n = 32 \<or> (9 \<le> n \<and> n \<le> 13))"

definition trim :: "string \<Rightarrow> string" where
  "trim s = rev (dropWhile is_space (rev (dropWhile is_space s)))"

definition otp_extract_ip :: "headers \<Rightarrow> string" where
  "otp_extract_ip hs =
     (case header hs ''cf-connecting-ip'' of
        Some cf \<Rightarrow> cf
      | None \<Rightarrow>
          (case header hs ''x-forwarded-for'' of
             Some xff \<Rightarrow> trim (takeWhile (\<lambda>c. c \<noteq> CHR '','') xff)
           | None \<Rightarrow> ''unknown''))"

section \<open>Handlers\<close>

definition is_ascii_digit :: "char \<Rightarrow> bool" where
  "is_ascii_digit c \<longleftrightarrow> (let n = of_char c :: nat in 48 \<le> n \<and> n \<le> 57)"

definition phone_ok :: "string \<Rightarrow> bool" where
  "phone_ok phone_number \<longleftrightarrow>
     (let digits = filter is_ascii_digit phone_number in
      \<not> (length digits < 8 \<or> length digits > 15 \<or> \<not> prefix ''+'' phone_number))"

definition send_sms_twilio :: "('s, 't) env \<Rightarrow> twilio_config \<Rightarrow> string \<Rightarrow> string \<Rightarrow> ('s, unit) handler" where
  "send_sms_twilio E config to_number code =
     (case e_http E
        \<lparr>hp_url = ''https://api.twilio.com/2010-04-01/Accounts/'' @ tw_account_sid config @ ''/Messages.json'',
         hp_auth = ''Basic '' @ b64_encode (e_b64 E) (str_bytes (tw_account_sid config @ '':'' @ tw_auth_token config)),
         hp_fields = [(''To'', to_number), (''From'', tw_from_number config),
           (''Body'', ''Hysj verification code: '' @ code @ ''. This code expires in 5 minutes.'')]\<rparr> of
        Inl e \<Rightarrow> throw (InternalError (''Twilio request failed: '' @ e))
      | Inr status \<Rightarrow>
          if \<not> (200 \<le> status \<and> status < 300) then throw (InternalError ''Failed to send SMS'')
          else ret ())"

definition send_otp :: "('s, 't) env \<Rightarrow> inputs \<Rightarrow> headers \<Rightarrow> send_otp_request \<Rightarrow> ('s, send_otp_response) handler" where
  "send_otp E I hs req =
     (let ip = otp_extract_ip hs in
      bind_a (limit_ok I (''otp:'' @ so_phone_number req) 3 3600) (\<lambda>ok.
      bind_a (require ok RateLimited) (\<lambda>_.
      bind_a (limit_ok I (''otp_ip:'' @ ip) 10 3600) (\<lambda>ok.
      bind_a (require ok RateLimited) (\<lambda>_.
      bind_a (require (phone_ok (so_phone_number req))
        (ValidationError ''Invalid phone number format. Use international format: +47XXXXXXXX'')) (\<lambda>_.
      let code = generate_otp (in_digit I) OTP_CODE_LENGTH in
      bind_a (or_internal (store_otp (e_redis E) (so_phone_number req) code OTP_EXPIRY_SECONDS)) (\<lambda>_.
      bind_a (case cf_twilio (e_config E) of
          Some twilio \<Rightarrow> bind_a (send_sms_twilio E twilio (so_phone_number req) code) (\<lambda>_. ret None)
        | None \<Rightarrow> ret (Some code)) (\<lambda>dev_code.
      ret \<lparr>os_message = ''Verification code sent'', os_expires_in = OTP_EXPIRY_SECONDS, os_dev_code = dev_code\<rparr>))))))))"

definition otp_verify_otp :: "('s, 't) env \<Rightarrow> inputs \<Rightarrow> verify_otp_request \<Rightarrow> ('s, verify_otp_response) handler" where
  "otp_verify_otp E I req =
     bind_a (require (length (vo_code req) = OTP_CODE_LENGTH)
       (ValidationError (''Code must be '' @ nat_str OTP_CODE_LENGTH @ '' digits''))) (\<lambda>_.
     bind_a (or_internal (verify_otp (e_redis E) (vo_phone_number req) (vo_code req))) (\<lambda>valid.
     if \<not> valid then ret \<lparr>ov_verified = False, ov_verification_token = None\<rparr>
     else
       let token = in_uuid I 0 in
       bind_a (or_internal (store_verification_token (e_redis E) token (vo_phone_number req)
         OTP_VERIFICATION_TOKEN_EXPIRY_SECONDS)) (\<lambda>_.
       ret \<lparr>ov_verified = True, ov_verification_token = Some token\<rparr>)))"

end
