(* ===== verification/Server_Config.thy ===== *)
theory Server_Config
  imports Otp_Routes Background_Tasks
begin

text \<open>
  crates/hysj-api/src/config.rs: the configuration read from the environment, which is a function from
  names to texts; and of main.rs the start of the server up to its router, with the CORS headers.
\<close>

section \<open>hex\_to\_bytes\<close>

definition hex_value :: "char \<Rightarrow> nat option" where
  "hex_value c =
     (let n = of_char c :: nat in
      if 48 \<le> n \<and> n \<le> 57 then Some (n - 48)
      else if 97 \<le> n \<and> n \<le> 102 then Some (n - 87)
      else if 65 \<le> n \<and> n \<le> 70 then Some (n - 55)
      else None)"

text \<open>\<open>u8::from_str_radix(s, 16)\<close> on two characters: a leading plus sign is accepted.\<close>

definition radix16 :: "char \<Rightarrow> char \<Rightarrow> byte option" where
  "radix16 a b =
     (if a = CHR ''+'' then map_option of_nat (hex_value b)
      else case (hex_value a, hex_value b) of
        (Some m, Some n) \<Rightarrow> Some (of_nat (16 * m + n))
      | _ \<Rightarrow> None)"

definition starts_inside_char :: "string \<Rightarrow> bool" where
  "starts_inside_char s = (case s of c # _ \<Rightarrow> utf8_tail (of_nat (of_char c)) | [] \<Rightarrow> False)"

text \<open>The slices from byte \<open>i\<close> on: one that starts or ends inside a character panics.\<close>

fun hex_pairs :: "nat \<Rightarrow> string \<Rightarrow> (string, bytes) outcome" where
  "hex_pairs i (a # b # rest) =
     (if starts_inside_char (a # b # rest) \<or> starts_inside_char rest then Panic ''byte index is not a char boundary''
      else case radix16 a b of
        None \<Rightarrow> Err (''Invalid hex at position '' @ nat_str i @ '': invalid digit found in string'')
      | Some v \<Rightarrow> bind_o (hex_pairs (i + 2) rest) (\<lambda>vs. Ok (v # vs)))"
| "hex_pairs i _ = Ok []"

definition hex_to_bytes :: "string \<Rightarrow> (string, bytes) outcome" where
  "hex_to_bytes hex = (if odd (length hex) then Err ''Hex string has odd length'' else hex_pairs 0 hex)"

section \<open>from\_env\<close>

definition required :: "(string \<Rightarrow> string option) \<Rightarrow> string \<Rightarrow> string \<Rightarrow> (string, string) outcome" where
  "required env name message = (case env name of Some v \<Rightarrow> Ok v | None \<Rightarrow> Err message)"

definition or_default :: "(string \<Rightarrow> string option) \<Rightarrow> string \<Rightarrow> string \<Rightarrow> string" where
  "or_default env name d = (case env name of Some v \<Rightarrow> v | None \<Rightarrow> d)"

definition from_env :: "(string \<Rightarrow> string option) \<Rightarrow> (string, app_config) outcome" where
  "from_env env =
     bind_o (required env ''DATABASE_URL'' ''DATABASE_URL must be set'') (\<lambda>database_url.
     let redis_url = or_default env ''REDIS_URL'' ''redis://127.0.0.1:6379'' in
     bind_o (required env ''JWT_SECRET'' ''JWT_SECRET must be set'') (\<lambda>jwt_secret.
     let server_address = or_default env ''SERVER_ADDRESS'' ''0.0.0.0:8080'' in
     bind_o (required env ''CERT_SIGNING_KEY'' ''CERT_SIGNING_KEY must be set (64 hex chars)'') (\<lambda>cert_hex.
     bind_o (map_err (\<lambda>_. ''CERT_SIGNING_KEY must be a 64-character hex string'') (hex_to_bytes cert_hex)) (\<lambda>cert_bytes.
     if length cert_bytes \<noteq> 32
     then Err (''CERT_SIGNING_KEY must be exactly 32 bytes (64 hex chars), got '' @ nat_str (length cert_bytes))
     else Ok \<lparr>cf_database_url = database_url, cf_redis_url = redis_url, cf_jwt_secret = jwt_secret,
       cf_cert_signing_seed = cert_bytes, cf_server_address = server_address,
       cf_twilio = (case (env ''TWILIO_ACCOUNT_SID'', env ''TWILIO_AUTH_TOKEN'', env ''TWILIO_FROM_NUMBER'') of
           (Some sid, Some token, Some from_number) \<Rightarrow>
             Some \<lparr>tw_account_sid = sid, tw_auth_token = token, tw_from_number = from_number\<rparr>
         | _ \<Rightarrow> None),
       cf_fcm_server_key = env ''FCM_SERVER_KEY'',
       cf_cors_origins = filter (\<lambda>s. s \<noteq> []) (map trim (split_on CHR '','' (or_default env ''CORS_ORIGINS'' [])))\<rparr>))))"

text \<open>A seed printed in hexadecimal is read back.\<close>

lemma of_char_hex_digit: "n < 16 \<Longrightarrow> of_char (hex_digit n) = (if n < 10 then 48 + n else 87 + n :: nat)"
  by (simp add: hex_digit_def)

lemma hex_value_digit: "n < 16 \<Longrightarrow> hex_value (hex_digit n) = Some n"
  by (auto simp: hex_value_def of_char_hex_digit Let_def)

lemma starts_hex: "n < 16 \<Longrightarrow> \<not> starts_inside_char (hex_digit n # s)"
  by (auto simp: starts_inside_char_def of_char_hex_digit utf8_tail_def word_le_nat_alt unat_of_nat)

lemma high_nibble: "unat (b :: byte) div 16 < 16"
proof -
  have "unat b < 256" using unat_lt_byte [of b] by simp
  then show ?thesis by (simp add: less_mult_imp_div_less)
qed

lemma radix16_hex_byte: "radix16 (hex_digit (unat b div 16)) (hex_digit (unat b mod 16)) = Some (b :: byte)"
proof -
  have "(of_char (hex_digit (unat b div 16)) :: nat) \<noteq> of_char (CHR ''+'')"
    using of_char_hex_digit [OF high_nibble, of b] by simp
  then have "hex_digit (unat b div 16) \<noteq> CHR ''+''" by metis
  with high_nibble [of b] show ?thesis by (simp add: radix16_def hex_value_digit)
qed

lemma hex_pairs_bytes: "hex_pairs i (concat (map hex_byte bs)) = Ok bs"
proof (induction bs arbitrary: i)
  case (Cons b bs)
  have "\<not> starts_inside_char (concat (map hex_byte bs))"
    by (cases bs) (simp_all add: starts_inside_char_def [of "[]"] hex_byte_def starts_hex high_nibble)
  moreover have "concat (map hex_byte (b # bs)) =
      hex_digit (unat b div 16) # hex_digit (unat b mod 16) # concat (map hex_byte bs)" by (simp add: hex_byte_def)
  ultimately show ?case using Cons.IH by (simp only: hex_pairs.simps starts_hex high_nibble radix16_hex_byte) simp
qed simp

text \<open>
  Every seed of 32 bytes can be configured: written as 64 hexadecimal digits it is read back from the
  environment as it was, and the server starts with the configuration that the other variables name.
\<close>

theorem config_seed_roundtrip:
  assumes "env ''DATABASE_URL'' = Some url" and "env ''JWT_SECRET'' = Some secret"
    and "length seed = 32" and "env ''CERT_SIGNING_KEY'' = Some (concat (map hex_byte seed))"
  shows "\<exists>c. from_env env = Ok c \<and> cf_cert_signing_seed c = seed \<and> cf_jwt_secret c = secret \<and> cf_database_url c = url"
proof -
  have "length (concat (map hex_byte seed)) = 2 * length seed" by (induction seed) (simp_all add: hex_byte_def)
  then have "hex_to_bytes (concat (map hex_byte seed)) = Ok seed" by (simp add: hex_to_bytes_def hex_pairs_bytes)
  with assms show ?thesis by (simp add: from_env_def required_def Let_def)
qed

theorem config_seed_roundtrip_witness:
  "\<exists>c. from_env [''DATABASE_URL'' \<mapsto> ''db'', ''JWT_SECRET'' \<mapsto> ''s'', ''CERT_SIGNING_KEY'' \<mapsto> concat (replicate 32 ''0a'')] = Ok c \<and>
    cf_cert_signing_seed c = replicate 32 10"
proof -
  let ?env = "[''DATABASE_URL'' \<mapsto> ''db'', ''JWT_SECRET'' \<mapsto> ''s'', ''CERT_SIGNING_KEY'' \<mapsto> concat (replicate 32 ''0a'')]"
  have "hex_byte 10 = ''0a''" by (simp add: hex_byte_def hex_digit_def char_of_def bit_0)
  then have "concat (map hex_byte (replicate 32 10)) = concat (replicate 32 ''0a'')" by (simp only: map_replicate)
  then have k: "?env ''CERT_SIGNING_KEY'' = Some (concat (map hex_byte (replicate 32 10)))" by simp
  have e: "?env ''DATABASE_URL'' = Some ''db''" "?env ''JWT_SECRET'' = Some ''s''" by simp_all
  have n: "length (replicate 32 10 :: bytes) = 32" by (rule length_replicate)
  from config_seed_roundtrip [OF e n k] obtain c where "from_env ?env = Ok c" "cf_cert_signing_seed c = replicate 32 10"
    by (elim exE conjE)
  then show ?thesis by (intro exI conjI)
qed

section \<open>main.rs: the start of the server\<close>

text \<open>What the code asks of tower-http's \<open>CorsLayer\<close>; \<open>None\<close> is the wildcard.\<close>

record cors_layer =
  cl_origins :: "string list option"
  cl_methods :: "string list option"
  cl_headers :: "string list option"
  cl_credentials :: bool

definition cors_permissive :: cors_layer where
  "cors_permissive = \<lparr>cl_origins = None, cl_methods = None, cl_headers = None, cl_credentials = False\<rparr>"

text \<open>\<open>header_ok\<close> says which texts parse as header values.\<close>

definition cors_of :: "(string \<Rightarrow> bool) \<Rightarrow> app_config \<Rightarrow> cors_layer" where
  "cors_of header_ok config =
     (if cf_cors_origins config = [] then cors_permissive
      else \<lparr>cl_origins = Some (filter header_ok (cf_cors_origins config)),
        cl_methods = Some [''GET'', ''POST'', ''PUT'', ''DELETE'', ''OPTIONS''],
        cl_headers = None, cl_credentials = True\<rparr>)"

text \<open>
  \<open>connect\<close> opens the database, runs the migrations and opens Redis; \<open>apply_cors\<close> puts the layer on the
  router; spawning the background tasks in between cannot fail. The result is the configuration the server
  listens with.
\<close>

definition main_start ::
    "(string \<Rightarrow> bool) \<Rightarrow> (app_config \<Rightarrow> (string, unit) outcome) \<Rightarrow> (cors_layer \<Rightarrow> (string, unit) outcome) \<Rightarrow>
     (string \<Rightarrow> string option) \<Rightarrow> (string, app_config) outcome" where
  "main_start header_ok connect apply_cors env =
     bind_o (from_env env) (\<lambda>config.
     bind_o (connect config) (\<lambda>_.
     bind_o (apply_cors (cors_of header_ok config)) (\<lambda>_.
     Ok config)))"

text \<open>
  What tower-http documents: a wildcard in the list of origins panics, and so does a layer that allows
  credentials together with any wildcard.
\<close>

definition cors_documented :: "(cors_layer \<Rightarrow> (string, unit) outcome) \<Rightarrow> bool" where
  "cors_documented apply_cors \<longleftrightarrow> (\<forall>l.
     if (case cl_origins l of Some os \<Rightarrow> ''*'' \<in> set os | None \<Rightarrow> False) \<or>
       cl_credentials l \<and> (cl_origins l = None \<or> cl_methods l = None \<or> cl_headers l = None)
     then (\<exists>p. apply_cors l = Panic p) else apply_cors l = Ok ())"

text \<open>
  C40: As soon as the environment names an allowed origin the server does not start: credentials are allowed
  together with any header, a combination that panics. Without CORS\_ORIGINS it starts.
\<close>

theorem origins_stop_server:
  assumes "cors_documented apply_cors" and "from_env env = Ok config" and "connect config = Ok ()"
  shows "if cf_cors_origins config = [] then main_start header_ok connect apply_cors env = Ok config
    else \<exists>p. main_start header_ok connect apply_cors env = Panic p"
proof -
  let ?l = "cors_of header_ok config"
  have "if (case cl_origins ?l of Some os \<Rightarrow> ''*'' \<in> set os | None \<Rightarrow> False) \<or>
      cl_credentials ?l \<and> (cl_origins ?l = None \<or> cl_methods ?l = None \<or> cl_headers ?l = None)
    then (\<exists>p. apply_cors ?l = Panic p) else apply_cors ?l = Ok ()"
    using assms(1) unfolding cors_documented_def by blast
  then show ?thesis using assms(2,3)
    by (cases "cf_cors_origins config = []") (auto simp: main_start_def cors_of_def cors_permissive_def)
qed

definition toy_cors :: "cors_layer \<Rightarrow> (string, unit) outcome" where
  "toy_cors l = (if (case cl_origins l of Some os \<Rightarrow> ''*'' \<in> set os | None \<Rightarrow> False) \<or>
       cl_credentials l \<and> (cl_origins l = None \<or> cl_methods l = None \<or> cl_headers l = None)
     then Panic ''Invalid CORS configuration'' else Ok ())"

lemma from_env_origins:
  "from_env env = Ok c \<Longrightarrow>
   cf_cors_origins c = filter (\<lambda>s. s \<noteq> []) (map trim (split_on CHR '','' (or_default env ''CORS_ORIGINS'' [])))"
  by (auto simp: from_env_def Let_def split: if_splits)

theorem origins_stop_server_witness:
  "\<exists>c p. from_env [''DATABASE_URL'' \<mapsto> ''db'', ''JWT_SECRET'' \<mapsto> ''s'', ''CERT_SIGNING_KEY'' \<mapsto> concat (replicate 32 ''0a''),
      ''CORS_ORIGINS'' \<mapsto> ''https''] = Ok c \<and>
    main_start (\<lambda>_. True) (\<lambda>_. Ok ()) toy_cors [''DATABASE_URL'' \<mapsto> ''db'', ''JWT_SECRET'' \<mapsto> ''s'',
      ''CERT_SIGNING_KEY'' \<mapsto> concat (replicate 32 ''0a''), ''CORS_ORIGINS'' \<mapsto> ''https''] = Panic p"
proof -
  let ?env = "[''DATABASE_URL'' \<mapsto> ''db'', ''JWT_SECRET'' \<mapsto> ''s'', ''CERT_SIGNING_KEY'' \<mapsto> concat (replicate 32 ''0a''),
    ''CORS_ORIGINS'' \<mapsto> ''https'']"
  have "hex_byte 10 = ''0a''" by (simp add: hex_byte_def hex_digit_def char_of_def bit_0)
  then have "concat (map hex_byte (replicate 32 10)) = concat (replicate 32 ''0a'')" by (simp only: map_replicate)
  then have k: "?env ''CERT_SIGNING_KEY'' = Some (concat (map hex_byte (replicate 32 10)))" by simp
  have e: "?env ''DATABASE_URL'' = Some ''db''" "?env ''JWT_SECRET'' = Some ''s''" by simp_all
  have n: "length (replicate 32 10 :: bytes) = 32" by (rule length_replicate)
  from config_seed_roundtrip [OF e n k] obtain c where c: "from_env ?env = Ok c" by (elim exE conjE)
  have "or_default ?env ''CORS_ORIGINS'' [] = ''https''" by (simp add: or_default_def)
  with from_env_origins [OF c] have o: "cf_cors_origins c \<noteq> []"
    by (simp only:) (simp add: trim_def is_space_def)
  have "cors_documented toy_cors" by (simp add: cors_documented_def toy_cors_def)
  from origins_stop_server [OF this c, of "\<lambda>_. Ok ()" "\<lambda>_. True"] o c show ?thesis
    by (simp only: if_False simp_thms) blast
qed

end
