(* ===== verification/Auth_Routes.thy ===== *)
theory Auth_Routes
  imports Otp_Routes
begin

text \<open>
  crates/hysj-api/src/routes/auth.rs: registration, login, token refresh, two-factor authentication,
  the profile, the deletion of an account and the sender certificate.
\<close>

section \<open>Messages: dto/auth.rs\<close>

record register_request =
  rq_username :: "string option"
  rq_phone_number :: string
  rq_password :: string
  rq_identity_public_key :: string
  rq_signed_pre_key :: string
  rq_signed_pre_key_signature :: string
  rq_kyber_public_key :: string
  rq_one_time_pre_keys :: "string list"
  rq_device_name :: string

record login_request =
  lq_phone_number :: string
  lq_password :: string
  lq_device_id :: "uuid option"

record login_response =
  lr_access_token :: string
  lr_refresh_token :: string
  lr_user_id :: uuid
  lr_device_id :: uuid
  lr_requires_2fa :: bool

record refresh_request =
  rf_refresh_token :: string

record two_factor_setup_response =
  ts_secret :: string
  ts_qr_uri :: string

record two_factor_verify_request =
  tv_code :: string

record sender_certificate_response =
  sr_certificate :: string
  sr_server_public_key :: string

record set_username_request =
  su_username :: string

record set_display_name_request =
  sd_display_name :: string

record username_available_response =
  ua_username :: string
  ua_available :: bool

record set_avatar_request =
  sv_avatar_url :: "string option"

record set_status_request =
  ss_status :: string

section \<open>Rate limits: constants.rs\<close>

definition LOGIN_MAX :: nat where "LOGIN_MAX = 100"

definition LOGIN_WINDOW_SECONDS :: nat where "LOGIN_WINDOW_SECONDS = 60"

definition LOGIN_LOCKOUT_SECONDS :: nat where "LOGIN_LOCKOUT_SECONDS = 60"

definition REGISTER_MAX :: nat where "REGISTER_MAX = 100"

definition REGISTER_WINDOW_SECONDS :: nat where "REGISTER_WINDOW_SECONDS = 60"

section \<open>Registration and login\<close>

definition extract_ip :: "headers \<Rightarrow> string" where
  "extract_ip hs =
     (case header hs ''cf-connecting-ip'' of
        Some cf \<Rightarrow> cf
      | None \<Rightarrow>
          (case header hs ''x-forwarded-for'' of
             Some xff \<Rightarrow> trim (takeWhile (\<lambda>c. c \<noteq> CHR '','') xff)
           | None \<Rightarrow>
               (case header hs ''x-real-ip'' of Some real \<Rightarrow> real | None \<Rightarrow> ''unknown'')))"

text \<open>\<open>B64.decode(..).map_err(ValidationError(what: e))?\<close>\<close>

definition decode_field :: "('s, 't) env \<Rightarrow> string \<Rightarrow> string \<Rightarrow> ('s, bytes) handler" where
  "decode_field E what text = lift_o (of_sum (\<lambda>e. ValidationError (what @ '': '' @ e)) (b64_decode (e_b64 E) text))"

text \<open>The two tokens of an answer.\<close>

definition issue_tokens ::
    "('s, 't) env \<Rightarrow> inputs \<Rightarrow> uuid \<Rightarrow> uuid \<Rightarrow> string \<Rightarrow> ('s, login_response) handler" where
  "issue_tokens E I user_id device_id username =
     bind_a (lift_o (map_err from_auth_error
       (create_access_token (e_jwt E) (in_now I) user_id device_id username (cf_jwt_secret (e_config E))))) (\<lambda>access_token.
     bind_a (lift_o (map_err from_auth_error
       (create_refresh_token (e_jwt E) (in_now I) user_id device_id username (cf_jwt_secret (e_config E))))) (\<lambda>refresh_token.
     ret \<lparr>lr_access_token = access_token, lr_refresh_token = refresh_token, lr_user_id = user_id,
       lr_device_id = device_id, lr_requires_2fa = False\<rparr>))"

definition register_checks :: "string \<Rightarrow> register_request \<Rightarrow> ('s, unit) handler" where
  "register_checks username req =
     bind_a (require (\<not> (username \<noteq> '''' \<and> (length username < 3 \<or> length username > 32)))
       (ValidationError ''Username must be 3-32 characters'')) (\<lambda>_.
     bind_a (require (\<not> (rq_device_name req = '''' \<or> length (rq_device_name req) > 64))
       (ValidationError ''Device name must be 1-64 characters'')) (\<lambda>_.
     require (\<not> length (rq_password req) < 8) (ValidationError ''Password must be at least 8 characters'')))"

definition register :: "('s, 't) env \<Rightarrow> inputs \<Rightarrow> headers \<Rightarrow> register_request \<Rightarrow> ('s, login_response) handler" where
  "register E I hs req =
     (let ip = extract_ip hs in
      bind_a (limit_ok I (''register:'' @ ip) REGISTER_MAX REGISTER_WINDOW_SECONDS) (\<lambda>ok.
      bind_a (require ok RateLimited) (\<lambda>_.
      let username = (case rq_username req of Some n \<Rightarrow> n | None \<Rightarrow> '''') in
      bind_a (register_checks username req) (\<lambda>_.
      bind_a (lift_o (map_err (\<lambda>e. AuthFailed (auth_error_str e))
        (hash_password (e_argon2 E) (in_salt I) (rq_password req)))) (\<lambda>(password_hash, salt).
      bind_a (decode_field E ''Invalid identity_public_key base64'' (rq_identity_public_key req)) (\<lambda>identity_pk.
      let identity_dh_pk = identity_pk in
      bind_a (db (create_user (in_uuid I 0) (in_now I) username (rq_phone_number req) password_hash salt
        identity_pk identity_dh_pk)) (\<lambda>user.
      bind_a (decode_field E ''Invalid signed_pre_key'' (rq_signed_pre_key req)) (\<lambda>signed_pre_key.
      bind_a (decode_field E ''Invalid signature'' (rq_signed_pre_key_signature req)) (\<lambda>signed_pre_key_sig.
      bind_a (decode_field E ''Invalid kyber key'' (rq_kyber_public_key req)) (\<lambda>kyber_pk.
      bind_a (db (register_device (in_uuid I 1) (in_now I) (u_id user) (rq_device_name req)
        signed_pre_key signed_pre_key_sig kyber_pk)) (\<lambda>device.
      bind_a (lift_o (collect_o (\<lambda>k. of_sum (\<lambda>e. ValidationError (''Invalid pre-key: '' @ e)) (b64_decode (e_b64 E) k))
        (rq_one_time_pre_keys req))) (\<lambda>pre_key_bytes.
      bind_a (db (store_pre_keys (in_now I) (d_id device) pre_key_bytes)) (\<lambda>_.
      issue_tokens E I (u_id user) (d_id device) (u_username user))))))))))))))"

definition nil_uuid :: uuid where
  "nil_uuid = ''00000000-0000-0000-0000-000000000000''"

definition login_device :: "uuid \<Rightarrow> uuid option \<Rightarrow> ('s, device) handler" where
  "login_device user_id requested =
     (case requested of
        Some device_id \<Rightarrow> db_else (DeviceNotFound device_id) (find_device_by_id device_id)
      | None \<Rightarrow> db_else (AuthFailed ''No device registered'') (find_one_device_for_user user_id))"

definition login :: "('s, 't) env \<Rightarrow> inputs \<Rightarrow> headers \<Rightarrow> login_request \<Rightarrow> ('s, login_response) handler" where
  "login E I hs req =
     (let ip = extract_ip hs in
      bind_a (limit_ok I (''login:'' @ ip) LOGIN_MAX LOGIN_WINDOW_SECONDS) (\<lambda>ok.
      bind_a (require ok RateLimited) (\<lambda>_.
      bind_a (db (is_locked_out (in_now I) ip LOGIN_MAX LOGIN_LOCKOUT_SECONDS)) (\<lambda>locked.
      bind_a (require (\<not> locked) RateLimited) (\<lambda>_.
      bind_a (db (find_by_phone_number (lq_phone_number req))) (\<lambda>found.
      bind_a (or_none InvalidCredentials found) (\<lambda>user.
      bind_a (lift_o (map_err (\<lambda>e. AuthFailed (auth_error_str e))
        (verify_password (e_argon2 E) (lq_password req) (u_password_hash user)))) (\<lambda>valid.
      if \<not> valid then
        bind_a (db (record_attempt (in_now I) ip (Some (u_id user)) False)) (\<lambda>_. throw InvalidCredentials)
      else
        bind_a (db (record_attempt (in_now I) ip (Some (u_id user)) True)) (\<lambda>_.
        if u_has_2fa_enabled user then
          ret \<lparr>lr_access_token = '''', lr_refresh_token = '''', lr_user_id = u_id user,
            lr_device_id = nil_uuid, lr_requires_2fa = True\<rparr>
        else
          bind_a (login_device (u_id user) (lq_device_id req)) (\<lambda>device.
          bind_a (issue_tokens E I (u_id user) (d_id device) (u_username user)) (\<lambda>answer.
          bind_a (db (update_last_seen (in_now I) (u_id user))) (\<lambda>_.
          ret answer))))))))))))"

definition refresh :: "('s, 't) env \<Rightarrow> inputs \<Rightarrow> refresh_request \<Rightarrow> ('s, login_response) handler" where
  "refresh E I req =
     bind_a (lift_o (map_err from_auth_error
       (validate_token (e_jwt E) (in_now I) (rf_refresh_token req) (cf_jwt_secret (e_config E))))) (\<lambda>claims.
     bind_a (lift_o (ids_of_claims E claims)) (\<lambda>(user_id, device_id).
     issue_tokens E I user_id device_id (cl_username claims)))"

section \<open>Two-factor authentication\<close>

definition setup_2fa :: "('s, 't) env \<Rightarrow> inputs \<Rightarrow> auth_user \<Rightarrow> ('s, two_factor_setup_response) handler" where
  "setup_2fa E I auth =
     (let secret = generate_secret (e_totp E) (in_secret I) in
      bind_a (lift_o (generate_totp_uri (e_totp E) secret (au_username auth))) (\<lambda>qr_uri.
      bind_a (db (enable_2fa (au_user_id auth) (str_bytes secret))) (\<lambda>_.
      ret \<lparr>ts_secret = secret, ts_qr_uri = qr_uri\<rparr>)))"

text \<open>What verifying and disabling share: the user, the stored secret and the check of the code.\<close>

definition check_code ::
    "('s, 't) env \<Rightarrow> inputs \<Rightarrow> auth_user \<Rightarrow> string \<Rightarrow> string \<Rightarrow> ('s, unit) handler" where
  "check_code E I auth none_message code =
     bind_a (db (find_user_by_id (au_user_id auth))) (\<lambda>found.
     bind_a (or_none (UserNotFound (au_user_id auth)) found) (\<lambda>user.
     bind_a (or_none (ValidationError none_message) (u_totp_secret user)) (\<lambda>totp_secret.
     bind_a (require (utf8_ok totp_secret) Internal) (\<lambda>_.
     let secret_str = bytes_str totp_secret in
     bind_a (lift_o (map_err (\<lambda>e. AuthFailed (auth_error_str e))
       (verify_totp (e_totp E) (in_now I) secret_str code))) (\<lambda>valid.
     require valid InvalidTwoFactorCode)))))"

definition verify_2fa ::
    "('s, 't) env \<Rightarrow> inputs \<Rightarrow> auth_user \<Rightarrow> two_factor_verify_request \<Rightarrow> ('s, json_object) handler" where
  "verify_2fa E I auth req =
     bind_a (check_code E I auth ''2FA not set up'' (tv_code req)) (\<lambda>_.
     ret [(''status'', JText ''2fa_enabled'')])"

definition disable_2fa ::
    "('s, 't) env \<Rightarrow> inputs \<Rightarrow> auth_user \<Rightarrow> two_factor_verify_request \<Rightarrow> ('s, json_object) handler" where
  "disable_2fa E I auth req =
     bind_a (check_code E I auth ''2FA not enabled'' (tv_code req)) (\<lambda>_.
     bind_a (db (db_disable_2fa (au_user_id auth))) (\<lambda>_.
     ret [(''status'', JText ''2fa_disabled'')]))"

section \<open>The profile\<close>

definition set_username :: "auth_user \<Rightarrow> set_username_request \<Rightarrow> ('s, json_object) handler" where
  "set_username auth req =
     bind_a (require (\<not> (length (su_username req) < 3 \<or> length (su_username req) > 32))
       (ValidationError ''Username must be 3-32 characters'')) (\<lambda>_.
     bind_a (db (db_set_username (au_user_id auth) (su_username req))) (\<lambda>_.
     ret [(''status'', JText ''username_set''), (''username'', JText (su_username req))]))"

definition username_available :: "string \<Rightarrow> ('s, username_available_response) handler" where
  "username_available username =
     bind_a (db (is_username_available username)) (\<lambda>available.
     ret \<lparr>ua_username = username, ua_available = available\<rparr>)"

definition set_display_name :: "auth_user \<Rightarrow> set_display_name_request \<Rightarrow> ('s, json_object) handler" where
  "set_display_name auth req =
     bind_a (require (\<not> (sd_display_name req = '''' \<or> length (sd_display_name req) > 64))
       (ValidationError ''Display name must be 1-64 characters'')) (\<lambda>_.
     bind_a (db (db_set_display_name (au_user_id auth) (sd_display_name req))) (\<lambda>_.
     ret [(''status'', JText ''display_name_set'')]))"

definition delete_account :: "auth_user \<Rightarrow> ('s, json_object) handler" where
  "delete_account auth =
     bind_a (db (delete_user (au_user_id auth))) (\<lambda>_. ret [(''status'', JText ''account_deleted'')])"

definition set_avatar :: "auth_user \<Rightarrow> set_avatar_request \<Rightarrow> ('s, json_object) handler" where
  "set_avatar auth req =
     bind_a (case sv_avatar_url req of
         Some url \<Rightarrow> require (\<not> length url > 2048) (ValidationError ''Avatar URL must be at most 2048 characters'')
       | None \<Rightarrow> ret ()) (\<lambda>_.
     bind_a (db (db_set_avatar (au_user_id auth) (sv_avatar_url req))) (\<lambda>_.
     ret [(''status'', JText ''avatar_set'')]))"

definition set_user_status :: "auth_user \<Rightarrow> set_status_request \<Rightarrow> ('s, json_object) handler" where
  "set_user_status auth req =
     bind_a (require (ss_status req \<in> set [''online'', ''away'', ''dnd'', ''offline''])
       (ValidationError ''Status must be one of: online, away, dnd, offline'')) (\<lambda>_.
     bind_a (db (db_set_status (au_user_id auth) (ss_status req))) (\<lambda>_.
     ret [(''status'', JText (ss_status req))]))"

definition sender_certificate_route ::
    "('s, 't) env \<Rightarrow> inputs \<Rightarrow> auth_user \<Rightarrow> ('s, sender_certificate_response) handler" where
  "sender_certificate_route E I auth =
     bind_a (db (find_user_by_id (au_user_id auth))) (\<lambda>found.
     bind_a (or_none (UserNotFound (au_user_id auth)) found) (\<lambda>user.
     let (signing, verifying) = get_signing_keypair_from_seed (e_prims E) (cf_cert_signing_seed (e_config E));
         cert = sign_certificate (e_prims E) (in_now I) (au_user_id auth) (au_username auth)
           (u_identity_public_key user) signing in
     bind_a (lift_o (of_sum (\<lambda>_. Internal) (e_cert_json E cert))) (\<lambda>cert_json.
     ret \<lparr>sr_certificate = b64_encode (e_b64 E) (str_bytes cert_json),
          sr_server_public_key = b64_encode (e_b64 E) verifying\<rparr>)))"

end
