(* ===== verification/Device_Routes.thy ===== *)
theory Device_Routes
  imports Api_State
begin

text \<open>
  crates/hysj-api/src/routes/devices.rs, keys.rs and wipe.rs: the devices of a user, pre-key bundles and
  their supply, and wiping devices over HTTP. Every handler has its authenticated user as an argument.
\<close>

section \<open>devices.rs\<close>

record device_dto =
  dd_id :: uuid
  dd_device_name :: string
  dd_is_online :: bool
  dd_last_active_at :: int
  dd_registered_at :: int

definition dto_of_device :: "device \<Rightarrow> device_dto" where
  "dto_of_device d = \<lparr>dd_id = d_id d, dd_device_name = d_device_name d, dd_is_online = d_is_online d,
     dd_last_active_at = d_last_active_at d, dd_registered_at = d_registered_at d\<rparr>"

definition list_devices :: "auth_user \<Rightarrow> ('s, device_dto list) handler" where
  "list_devices auth = bind_a (db (list_by_user (au_user_id auth))) (\<lambda>devices. ret (map dto_of_device devices))"

definition delete_device :: "auth_user \<Rightarrow> uuid \<Rightarrow> ('s, json_object) handler" where
  "delete_device auth device_id =
     bind_a (require (device_id \<noteq> au_device_id auth)
       (ValidationError ''Cannot delete the device you are currently using'')) (\<lambda>_.
     bind_a (db (db_delete_device device_id (au_user_id auth))) (\<lambda>deleted.
     bind_a (require deleted (DeviceNotFound device_id)) (\<lambda>_.
     bind_a (mod_s (drop_connection device_id)) (\<lambda>_.
     ret [(''deleted'', JBool True)]))))"

section \<open>keys.rs\<close>

definition MAX_PRE_KEYS_PER_DEVICE :: nat where "MAX_PRE_KEYS_PER_DEVICE = 100"

definition PREKEY_FETCH_MAX :: nat where "PREKEY_FETCH_MAX = 30"

definition PREKEY_FETCH_WINDOW_SECONDS :: nat where "PREKEY_FETCH_WINDOW_SECONDS = 60"

record pre_key_bundle_response =
  br_device_id :: string
  br_identity_public_key :: string
  br_signed_pre_key :: string
  br_signed_pre_key_signature :: string
  br_one_time_pre_key :: "string option"
  br_kyber_public_key :: string

record replenish_pre_keys_request =
  rp_pre_keys :: "string list"

definition bundle_error :: "uuid \<Rightarrow> db_error \<Rightarrow> hysj_error" where
  "bundle_error user_id e = (case e of DbNotFound \<Rightarrow> UserNotFound user_id | _ \<Rightarrow> from_db_error e)"

definition get_pre_key_bundle_route ::
    "('s, 't) env \<Rightarrow> inputs \<Rightarrow> auth_user \<Rightarrow> uuid \<Rightarrow> ('s, pre_key_bundle_response) handler" where
  "get_pre_key_bundle_route E I auth user_id =
     bind_a (limit_ok I (''prekey:'' @ au_user_id auth) PREKEY_FETCH_MAX PREKEY_FETCH_WINDOW_SECONDS) (\<lambda>ok.
     bind_a (require ok RateLimited) (\<lambda>_.
     bind_a (map_err_a (bundle_error user_id) (on_db (get_pre_key_bundle user_id))) (\<lambda>bundle.
     let enc = b64_encode (e_b64 E) in
     ret \<lparr>br_device_id = pkb_device_id bundle,
       br_identity_public_key = enc (pkb_identity_public_key bundle),
       br_signed_pre_key = enc (pkb_signed_pre_key bundle),
       br_signed_pre_key_signature = enc (pkb_signed_pre_key_sig bundle),
       br_one_time_pre_key = map_option enc (pkb_one_time_pre_key bundle),
       br_kyber_public_key = enc (pkb_kyber_public_key bundle)\<rparr>)))"

definition replenish_pre_keys ::
    "('s, 't) env \<Rightarrow> inputs \<Rightarrow> auth_user \<Rightarrow> replenish_pre_keys_request \<Rightarrow> ('s, json_object) handler" where
  "replenish_pre_keys E I auth req =
     bind_a (require (rp_pre_keys req \<noteq> []) (ValidationError ''Must provide at least one pre-key'')) (\<lambda>_.
     bind_a (db (count_available_pre_keys (au_device_id auth))) (\<lambda>current.
     let wanted = current + length (rp_pre_keys req) in
     bind_a (require (\<not> wanted > MAX_PRE_KEYS_PER_DEVICE)
       (ValidationError (''Would exceed max pre-keys ('' @ nat_str wanted @ ''/'' @ nat_str MAX_PRE_KEYS_PER_DEVICE @ '')''))) (\<lambda>_.
     bind_a (lift_o (collect_o (\<lambda>k. of_sum (\<lambda>e. ValidationError (''Invalid pre-key base64: '' @ e)) (b64_decode (e_b64 E) k))
       (rp_pre_keys req))) (\<lambda>keys.
     bind_a (db (store_pre_keys (in_now I) (au_device_id auth) keys)) (\<lambda>stored.
     ret [(''stored'', JNum stored)])))))"

section \<open>wipe.rs\<close>

definition WIPE_MAX :: nat where "WIPE_MAX = 3"

definition WIPE_WINDOW_SECONDS :: nat where "WIPE_WINDOW_SECONDS = 60 * 60"

record wipe_status_response =
  wt_wipe_id :: string
  wt_pending_devices :: "uuid list"
  wt_confirmed_devices :: "uuid list"

definition ids_of_user :: "uuid \<Rightarrow> ('s, uuid list) handler" where
  "ids_of_user user_id = bind_a (db (list_by_user user_id)) (\<lambda>devices. ret (map d_id devices))"

definition wipe_targets :: "auth_user \<Rightarrow> wipe_request \<Rightarrow> ('s, uuid list) handler" where
  "wipe_targets auth req =
     (case wr_wipe_type req of
        WipeAll \<Rightarrow> ids_of_user (au_user_id auth)
      | WipeDevice \<Rightarrow>
          bind_a (or_none (ValidationError ''target_device_id required for Device wipe'') (wr_target_device_id req))
            (\<lambda>device_id. ret [device_id])
      | WipeConversation \<Rightarrow>
          bind_a (or_none (ValidationError ''conversation_partner_id required for Conversation wipe'')
            (wr_conversation_partner_id req)) (\<lambda>partner_id.
          bind_a (ids_of_user partner_id) (\<lambda>ids.
          bind_a (ids_of_user (au_user_id auth)) (\<lambda>own_devices.
          ret (ids @ own_devices)))))"

definition issue_wipe_route ::
    "('s, 't) env \<Rightarrow> inputs \<Rightarrow> auth_user \<Rightarrow> wipe_request \<Rightarrow> ('s, wipe_status_response) handler" where
  "issue_wipe_route E I auth req =
     bind_a (limit_ok I (''wipe:'' @ au_user_id auth) WIPE_MAX WIPE_WINDOW_SECONDS) (\<lambda>ok.
     bind_a (require ok RateLimited) (\<lambda>_.
     bind_a (wipe_targets auth req) (\<lambda>target_devices.
     bind_a (require (target_devices \<noteq> []) (ValidationError ''No target devices found'')) (\<lambda>_.
     bind_a (messaging (issue_wipe (e_redis E) (e_wipe_json E) (in_uuid I 0) (in_now I) target_devices req)) (\<lambda>wipe_id.
     bind_a (for_a target_devices (\<lambda>device_id. try_send E device_id (WipeCommand req))) (\<lambda>_.
     ret \<lparr>wt_wipe_id = wipe_id, wt_pending_devices = target_devices, wt_confirmed_devices = []\<rparr>))))))"

text \<open>The loop over the user's devices.\<close>

fun wipe_status_loop ::
    "('s, 't) env \<Rightarrow> string \<Rightarrow> device list \<Rightarrow> uuid list \<Rightarrow> uuid list \<Rightarrow> ('s, uuid list \<times> uuid list) handler" where
  "wipe_status_loop E wipe_id [] pending confirmed = ret (pending, confirmed)"
| "wipe_status_loop E wipe_id (device # devices) pending confirmed =
     bind_a (messaging (get_pending_wipes (e_fuel E) (e_redis E) (e_wipe_json E) (d_id device))) (\<lambda>r.
     bind_a (returned r) (\<lambda>wipes.
     if \<exists>w \<in> set wipes. pw_wipe_id w = wipe_id
     then wipe_status_loop E wipe_id devices (pending @ [d_id device]) confirmed
     else wipe_status_loop E wipe_id devices pending (confirmed @ [d_id device])))"

definition wipe_status :: "('s, 't) env \<Rightarrow> auth_user \<Rightarrow> string \<Rightarrow> ('s, wipe_status_response) handler" where
  "wipe_status E auth wipe_id =
     bind_a (db (list_by_user (au_user_id auth))) (\<lambda>devices.
     bind_a (wipe_status_loop E wipe_id devices [] []) (\<lambda>(pending, confirmed).
     ret \<lparr>wt_wipe_id = wipe_id, wt_pending_devices = pending, wt_confirmed_devices = confirmed\<rparr>))"

end
