(* ===== verification/Group_Routes.thy ===== *)
theory Group_Routes
  imports Api_State
begin

text \<open>
  crates/hysj-api/src/routes/groups.rs: groups, their members and who may change them.
\<close>

section \<open>Messages: dto/groups.rs\<close>

record create_group_request =
  cg_name :: string
  cg_is_anonymous :: bool
  cg_member_ids :: "uuid list"

record group_member_dto =
  md_user_id :: uuid
  md_alias_name :: "string option"
  md_alias_color :: "string option"
  md_role :: string
  md_joined_at :: int

record group_response =
  gr_id :: uuid
  gr_name :: string
  gr_is_anonymous :: bool
  gr_members :: "group_member_dto list"
  gr_created_at :: int

record add_member_request =
  ad_user_id :: uuid

record update_group_name_request =
  ug_name :: string

section \<open>Handlers\<close>

definition dto_of_member :: "group_member \<Rightarrow> group_member_dto" where
  "dto_of_member m = \<lparr>md_user_id = gm_user_id m, md_alias_name = gm_alias_name m,
     md_alias_color = gm_alias_color m, md_role = gm_role m, md_joined_at = gm_joined_at m\<rparr>"

definition build_group_response :: "uuid \<Rightarrow> ('s, group_response) handler" where
  "build_group_response group_id =
     bind_a (db_else (GroupNotFound group_id) (find_group_by_id group_id)) (\<lambda>group.
     bind_a (db (get_members group_id)) (\<lambda>members.
     ret \<lparr>gr_id = g_id group, gr_name = g_name group, gr_is_anonymous = g_is_anonymous group,
       gr_members = map dto_of_member members, gr_created_at = g_created_at group\<rparr>))"

definition name_ok :: "string \<Rightarrow> ('s, unit) handler" where
  "name_ok name = require (\<not> (name = '''' \<or> length name > 64)) (ValidationError ''Group name must be 1-64 characters'')"

definition create_group :: "inputs \<Rightarrow> auth_user \<Rightarrow> create_group_request \<Rightarrow> ('s, group_response) handler" where
  "create_group I auth req =
     bind_a (name_ok (cg_name req)) (\<lambda>_.
     bind_a (db (db_create_group (in_uuid I 0) (in_now I) (cg_name req) (au_user_id auth) (cg_is_anonymous req))) (\<lambda>group.
     bind_a (db (db_add_member (in_now I) (g_id group) (au_user_id auth) ''admin'')) (\<lambda>_.
     bind_a (for_a (cg_member_ids req) (\<lambda>member_id.
       if member_id \<noteq> au_user_id auth
       then bind_a (db (db_add_member (in_now I) (g_id group) member_id ''member'')) (\<lambda>_. ret ())
       else ret ())) (\<lambda>_.
     build_group_response (g_id group)))))"

text \<open>The loop that builds one answer per group.\<close>

fun group_responses :: "group list \<Rightarrow> ('s, group_response list) handler" where
  "group_responses [] = ret []"
| "group_responses (g # groups) =
     bind_a (build_group_response (g_id g)) (\<lambda>response.
     bind_a (group_responses groups) (\<lambda>responses.
     ret (response # responses)))"

definition list_groups :: "auth_user \<Rightarrow> pagination_params \<Rightarrow> ('s, group_response list) handler" where
  "list_groups auth pagination =
     bind_a (db (list_groups_for_user_paginated (au_user_id auth) (pp_limit pagination) (pp_offset pagination))) (\<lambda>groups.
     group_responses groups)"

definition get_group :: "auth_user \<Rightarrow> uuid \<Rightarrow> ('s, group_response) handler" where
  "get_group auth group_id =
     bind_a (db (is_member group_id (au_user_id auth))) (\<lambda>member.
     bind_a (require member (GroupNotFound group_id)) (\<lambda>_.
     build_group_response group_id))"

text \<open>The check every administrative handler starts with; \<open>action\<close> is what its message names.\<close>

definition admin_only :: "auth_user \<Rightarrow> uuid \<Rightarrow> string \<Rightarrow> ('s, unit) handler" where
  "admin_only auth group_id action =
     bind_a (db (get_member_role group_id (au_user_id auth))) (\<lambda>role.
     case role of
       Some r \<Rightarrow> if r = ''admin'' then ret () else throw (Forbidden (''Only group admins can '' @ action))
     | None \<Rightarrow> throw (GroupNotFound group_id))"

definition add_member :: "inputs \<Rightarrow> auth_user \<Rightarrow> uuid \<Rightarrow> add_member_request \<Rightarrow> ('s, json_object) handler" where
  "add_member I auth group_id req =
     bind_a (admin_only auth group_id ''add members'') (\<lambda>_.
     bind_a (db (db_add_member (in_now I) group_id (ad_user_id req) ''member'')) (\<lambda>_.
     ret [(''added'', JBool True)]))"

definition remove_member :: "auth_user \<Rightarrow> uuid \<Rightarrow> uuid \<Rightarrow> ('s, json_object) handler" where
  "remove_member auth group_id user_id =
     bind_a (admin_only auth group_id ''remove members'') (\<lambda>_.
     bind_a (require (user_id \<noteq> au_user_id auth)
       (ValidationError ''Cannot remove yourself; use leave instead'')) (\<lambda>_.
     bind_a (db (db_remove_member group_id user_id)) (\<lambda>removed.
     bind_a (require removed (ValidationError ''User is not a member of this group'')) (\<lambda>_.
     ret [(''removed'', JBool True)]))))"

definition leave_group :: "auth_user \<Rightarrow> uuid \<Rightarrow> ('s, json_object) handler" where
  "leave_group auth group_id =
     bind_a (db (db_remove_member group_id (au_user_id auth))) (\<lambda>removed.
     bind_a (require removed (GroupNotFound group_id)) (\<lambda>_.
     ret [(''left'', JBool True)]))"

definition delete_group :: "auth_user \<Rightarrow> uuid \<Rightarrow> ('s, json_object) handler" where
  "delete_group auth group_id =
     bind_a (admin_only auth group_id ''delete the group'') (\<lambda>_.
     bind_a (db (db_delete_group group_id)) (\<lambda>deleted.
     bind_a (require deleted (GroupNotFound group_id)) (\<lambda>_.
     ret [(''deleted'', JBool True)])))"

definition update_group :: "auth_user \<Rightarrow> uuid \<Rightarrow> update_group_name_request \<Rightarrow> ('s, json_object) handler" where
  "update_group auth group_id req =
     bind_a (name_ok (ug_name req)) (\<lambda>_.
     bind_a (admin_only auth group_id ''update the group'') (\<lambda>_.
     bind_a (db (update_group_name group_id (ug_name req))) (\<lambda>_.
     ret [(''status'', JText ''group_updated'')])))"

end
