(* ===== verification/Social_Routes.thy ===== *)
theory Social_Routes
  imports Api_State
begin

text \<open>
  crates/hysj-api/src/routes/contacts.rs, contact_requests.rs, settings.rs, status.rs and relay.rs: who a
  user knows and has blocked, the settings, who may see that somebody is online, and the relay nodes.
\<close>

section \<open>Messages: dto/contacts.rs and dto/settings.rs\<close>

record contact_dto =
  cd_user_id :: uuid
  cd_username :: string
  cd_display_name :: "string option"
  cd_nickname :: "string option"
  cd_is_blocked :: bool

record contact_request_dto =
  qd_id :: uuid
  qd_from_user_id :: uuid
  qd_from_username :: string
  qd_from_display_name :: "string option"
  qd_created_at :: int

record online_status_dto =
  od_user_id :: uuid
  od_is_online :: bool
  od_last_active_at :: int

record user_settings_dto =
  sd_read_receipts_enabled :: bool
  sd_typing_indicators_enabled :: bool
  sd_last_active_visible :: bool

record update_settings_request =
  uq_read_receipts_enabled :: "bool option"
  uq_typing_indicators_enabled :: "bool option"
  uq_last_active_visible :: "bool option"

record mute_chat_request =
  mq_target_id :: uuid
  mq_muted :: bool

record muted_chat_dto =
  md_target_id :: uuid
  md_muted :: bool

section \<open>contacts.rs\<close>

text \<open>\<open>find_by_id(..).await?.ok_or(UserNotFound)?\<close>\<close>

definition user_or_not_found :: "uuid \<Rightarrow> ('s, user) handler" where
  "user_or_not_found user_id =
     bind_a (db (find_user_by_id user_id)) (\<lambda>found. or_none (UserNotFound user_id) found)"

definition status_ok :: "string \<Rightarrow> json_object" where
  "status_ok s = [(''status'', JText s)]"

fun contact_dtos :: "contact list \<Rightarrow> ('s, contact_dto list) handler" where
  "contact_dtos [] = ret []"
| "contact_dtos (c # contacts) =
     bind_a (user_or_not_found (co_contact_user_id c)) (\<lambda>user.
     bind_a (contact_dtos contacts) (\<lambda>dtos.
     ret (\<lparr>cd_user_id = co_contact_user_id c, cd_username = u_username user, cd_display_name = u_display_name user,
       cd_nickname = co_nickname c, cd_is_blocked = co_is_blocked c\<rparr> # dtos)))"

definition list_contacts :: "auth_user \<Rightarrow> pagination_params \<Rightarrow> ('s, contact_dto list) handler" where
  "list_contacts auth pagination =
     bind_a (db (get_contacts_paginated (au_user_id auth) (pp_limit pagination) (pp_offset pagination))) (\<lambda>contacts.
     contact_dtos contacts)"

definition add_contact :: "inputs \<Rightarrow> auth_user \<Rightarrow> uuid \<Rightarrow> ('s, json_object) handler" where
  "add_contact I auth contact_user_id =
     bind_a (require (au_user_id auth \<noteq> contact_user_id) (ValidationError ''Cannot add yourself as a contact'')) (\<lambda>_.
     bind_a (user_or_not_found contact_user_id) (\<lambda>_.
     bind_a (db (db_add_contact (in_now I) (au_user_id auth) contact_user_id)) (\<lambda>_.
     ret (status_ok ''contact_added''))))"

definition remove_contact :: "auth_user \<Rightarrow> uuid \<Rightarrow> ('s, json_object) handler" where
  "remove_contact auth contact_user_id =
     bind_a (db (db_remove_contact (au_user_id auth) contact_user_id)) (\<lambda>_. ret (status_ok ''contact_removed''))"

definition set_nickname :: "auth_user \<Rightarrow> uuid \<Rightarrow> string option \<Rightarrow> ('s, json_object) handler" where
  "set_nickname auth contact_user_id nickname =
     bind_a (case nickname of
         Some nick \<Rightarrow> require (\<not> length nick > 64) (ValidationError ''Nickname must be at most 64 characters'')
       | None \<Rightarrow> ret ()) (\<lambda>_.
     bind_a (db (db_set_nickname (au_user_id auth) contact_user_id nickname)) (\<lambda>_.
     ret (status_ok ''nickname_set'')))"

definition block_contact :: "inputs \<Rightarrow> auth_user \<Rightarrow> uuid \<Rightarrow> ('s, json_object) handler" where
  "block_contact I auth contact_user_id =
     bind_a (user_or_not_found contact_user_id) (\<lambda>_.
     bind_a (db (db_block_contact (in_now I) (au_user_id auth) contact_user_id)) (\<lambda>_.
     ret (status_ok ''contact_blocked'')))"

definition unblock_contact :: "auth_user \<Rightarrow> uuid \<Rightarrow> ('s, json_object) handler" where
  "unblock_contact auth contact_user_id =
     bind_a (db (db_unblock_contact (au_user_id auth) contact_user_id)) (\<lambda>_. ret (status_ok ''contact_unblocked''))"

section \<open>contact\_requests.rs\<close>

definition send_request :: "inputs \<Rightarrow> auth_user \<Rightarrow> uuid \<Rightarrow> ('s, json_object) handler" where
  "send_request I auth to_user_id =
     bind_a (require (au_user_id auth \<noteq> to_user_id) (ValidationError ''Cannot send request to yourself'')) (\<lambda>_.
     bind_a (user_or_not_found to_user_id) (\<lambda>_.
     bind_a (db (db_send_request (in_uuid I 0) (in_now I) (au_user_id auth) to_user_id)) (\<lambda>_.
     ret (status_ok ''request_sent''))))"

fun request_dtos :: "contact_request list \<Rightarrow> ('s, contact_request_dto list) handler" where
  "request_dtos [] = ret []"
| "request_dtos (req # requests) =
     bind_a (db (find_user_by_id (ctr_from_user_id req))) (\<lambda>found.
     bind_a (request_dtos requests) (\<lambda>dtos.
     ret (case found of
         Some user \<Rightarrow>
           \<lparr>qd_id = ctr_id req, qd_from_user_id = ctr_from_user_id req, qd_from_username = u_username user,
             qd_from_display_name = u_display_name user, qd_created_at = ctr_created_at req\<rparr> # dtos
       | None \<Rightarrow> dtos)))"

definition list_incoming :: "auth_user \<Rightarrow> pagination_params \<Rightarrow> ('s, contact_request_dto list) handler" where
  "list_incoming auth pagination =
     bind_a (db (get_pending_paginated (au_user_id auth) (pp_limit pagination) (pp_offset pagination))) (\<lambda>requests.
     request_dtos requests)"

text \<open>Whether the two contacts can be stored does not matter to the answer.\<close>

definition accept_request :: "inputs \<Rightarrow> auth_user \<Rightarrow> uuid \<Rightarrow> ('s, json_object) handler" where
  "accept_request I auth request_id =
     bind_a (db (db_accept request_id (au_user_id auth))) (\<lambda>req.
     bind_a (catch_a (bind_a (on_db (db_add_contact (in_now I) (au_user_id auth) (ctr_from_user_id req))) (\<lambda>_. ret ())) ()) (\<lambda>_.
     bind_a (catch_a (bind_a (on_db (db_add_contact (in_now I) (ctr_from_user_id req) (au_user_id auth))) (\<lambda>_. ret ())) ()) (\<lambda>_.
     ret (status_ok ''request_accepted''))))"

definition reject_request :: "auth_user \<Rightarrow> uuid \<Rightarrow> ('s, json_object) handler" where
  "reject_request auth request_id =
     bind_a (db (db_reject request_id (au_user_id auth))) (\<lambda>_. ret (status_ok ''request_rejected''))"

section \<open>settings.rs\<close>

definition dto_of_settings :: "user_settings \<Rightarrow> user_settings_dto" where
  "dto_of_settings s = \<lparr>sd_read_receipts_enabled = us_read_receipts_enabled s,
     sd_typing_indicators_enabled = us_typing_indicators_enabled s, sd_last_active_visible = us_last_active_visible s\<rparr>"

definition get_settings :: "auth_user \<Rightarrow> ('s, user_settings_dto) handler" where
  "get_settings auth = bind_a (db (get_or_create (au_user_id auth))) (\<lambda>s. ret (dto_of_settings s))"

definition update_settings :: "auth_user \<Rightarrow> update_settings_request \<Rightarrow> ('s, user_settings_dto) handler" where
  "update_settings auth req =
     bind_a (db (db_update_settings (au_user_id auth) (uq_read_receipts_enabled req) (uq_typing_indicators_enabled req)
       (uq_last_active_visible req))) (\<lambda>s. ret (dto_of_settings s))"

definition mute_chat :: "inputs \<Rightarrow> auth_user \<Rightarrow> mute_chat_request \<Rightarrow> ('s, json_object) handler" where
  "mute_chat I auth req =
     bind_a (db (if mq_muted req then db_mute_chat (in_now I) (au_user_id auth) (mq_target_id req)
       else db_unmute_chat (au_user_id auth) (mq_target_id req))) (\<lambda>_.
     ret (status_ok ''ok''))"

definition list_muted :: "auth_user \<Rightarrow> pagination_params \<Rightarrow> ('s, muted_chat_dto list) handler" where
  "list_muted auth pagination =
     bind_a (db (get_muted_chats_paginated (au_user_id auth) (pp_limit pagination) (pp_offset pagination))) (\<lambda>muted.
     ret (map (\<lambda>m. \<lparr>md_target_id = mc_target_id m, md_muted = True\<rparr>) muted))"

section \<open>status.rs\<close>

definition get_status :: "auth_user \<Rightarrow> uuid \<Rightarrow> ('s, online_status_dto) handler" where
  "get_status auth target_user_id =
     bind_a (db (get_contact (au_user_id auth) target_user_id)) (\<lambda>contact.
     bind_a (require (contact \<noteq> None) (UserNotFound target_user_id)) (\<lambda>_.
     bind_a (db (get_or_create target_user_id)) (\<lambda>settings.
     bind_a (require (us_last_active_visible settings) (UserNotFound target_user_id)) (\<lambda>_.
     bind_a (user_or_not_found target_user_id) (\<lambda>user.
     bind_a (catch_a (on_db (list_by_user target_user_id)) []) (\<lambda>devices.
     bind_a (get_s (\<lambda>a. \<exists>d \<in> set devices. map_of (ap_connections a) (d_id d) \<noteq> None)) (\<lambda>is_online.
     ret \<lparr>od_user_id = target_user_id, od_is_online = is_online, od_last_active_at = u_last_seen_at user\<rparr>)))))))"

section \<open>relay.rs\<close>

record relay_node_dto =
  ry_id :: uuid
  ry_address :: string
  ry_public_key :: string
  ry_region :: string
  ry_load_percent :: byte

definition dto_of_node :: "relay_row \<Rightarrow> relay_node_dto" where
  "dto_of_node n = \<lparr>ry_id = rl_id n, ry_address = rl_address n, ry_public_key = rl_public_key n, ry_region = rl_region n,
     ry_load_percent = word_of_int (min 100 (max 0 (rl_load_percent n)))\<rparr>"

definition list_nodes :: "('s, relay_node_dto list) handler" where
  "list_nodes = bind_a (db list_active_nodes) (\<lambda>nodes. ret (map dto_of_node nodes))"

end
