(* ===== verification/Vpn_Routes.thy ===== *)
theory Vpn_Routes
  imports Api_State
begin

text \<open>
  crates/hysj-vpn (keys.rs, config.rs) and crates/hysj-api/src/routes/vpn.rs: WireGuard key pairs kept
  encrypted in the database, sessions and the addresses given to them.
\<close>

section \<open>Messages: dto/vpn.rs\<close>

record vpn_connect_request =
  vc_server_id :: uuid

record vpn_connect_response =
  vr_config :: json_object
  vr_session_id :: uuid
  vr_assigned_ip :: string

record vpn_server_dto =
  vd_id :: uuid
  vd_name :: string
  vd_country :: string
  vd_city :: "string option"

record vpn_status_response =
  vt_connected :: bool
  vt_session_id :: "uuid option"
  vt_server :: "vpn_server_dto option"
  vt_bytes_up :: int
  vt_bytes_down :: int
  vt_connected_since :: "int option"

section \<open>hysj-vpn: keys.rs and config.rs\<close>

text \<open>The random bytes are arguments; the first of the pair is the private key.\<close>

definition generate_keypair :: "prims \<Rightarrow> b64 \<Rightarrow> bytes \<Rightarrow> string \<times> string" where
  "generate_keypair P B rnd =
     (let keys = generate_x25519_keypair P rnd in (b64_encode B (kp_secret keys), b64_encode B (kp_public keys)))"

definition generate_preshared_key :: "b64 \<Rightarrow> bytes \<Rightarrow> string" where
  "generate_preshared_key B rnd = b64_encode B rnd"

record wireguard_config =
  wg_interface_private_key :: string
  wg_interface_address :: string
  wg_dns :: string
  wg_peer_public_key :: string
  wg_peer_endpoint :: string
  wg_allowed_ips :: string

definition newline :: string where
  "newline = [CHR 0x0A]"

definition to_ini_string :: "wireguard_config \<Rightarrow> string" where
  "to_ini_string c =
     ''[Interface]'' @ newline @
     ''PrivateKey = '' @ wg_interface_private_key c @ newline @
     ''Address = '' @ wg_interface_address c @ newline @
     ''DNS = '' @ wg_dns c @ newline @
     newline @
     ''[Peer]'' @ newline @
     ''PublicKey = '' @ wg_peer_public_key c @ newline @
     ''Endpoint = '' @ wg_peer_endpoint c @ newline @
     ''AllowedIPs = '' @ wg_allowed_ips c @ newline"

definition config_json :: "wireguard_config \<Rightarrow> json_object" where
  "config_json c =
     [(''interface'', JObject
        [(''private_key'', JText (wg_interface_private_key c)),
         (''address'', JText (wg_interface_address c)),
         (''dns'', JText (wg_dns c))]),
      (''peer'', JObject
        [(''public_key'', JText (wg_peer_public_key c)),
         (''endpoint'', JText (wg_peer_endpoint c)),
         (''allowed_ips'', JText (wg_allowed_ips c))])]"

section \<open>Handlers\<close>

definition vpn_encryption_key :: "prims \<Rightarrow> bytes \<Rightarrow> ('e, bytes) outcome" where
  "vpn_encryption_key P seed =
     bind_o (hkdf_derive P seed (str_bytes ''hysj-vpn-key-encryption'') [] 32) exact32"

text \<open>\<open>Uuid::as_bytes\<close>: the sixteen bytes whose hexadecimal digits the text shows.\<close>

definition nibble :: "char \<Rightarrow> nat" where
  "nibble c = (let n = of_char c :: nat in if n < 58 then n - 48 else n - 87)"

fun nibble_pairs :: "string \<Rightarrow> bytes" where
  "nibble_pairs (a # b # cs) = of_nat (16 * nibble a + nibble b) # nibble_pairs cs"
| "nibble_pairs _ = []"

definition uuid_bytes :: "uuid \<Rightarrow> bytes" where
  "uuid_bytes u = nibble_pairs (filter (\<lambda>c. c \<noteq> CHR ''-'') u)"

text \<open>The user's key pair: the stored one, or a new one that is then stored.\<close>

definition user_keypair ::
    "('s, 't) env \<Rightarrow> inputs \<Rightarrow> uuid \<Rightarrow> bytes \<Rightarrow> user_vpn_key option \<Rightarrow> ('s, string \<times> string) handler" where
  "user_keypair E I user_id enc_key keys =
     (case keys of
        Some existing_keys \<Rightarrow>
          bind_a (lift_o (map_err (\<lambda>e. InternalError (''Key decryption failed: '' @ crypto_error_str e))
            (cipher_decrypt (e_prims E) (vk_private_key_encrypted existing_keys) enc_key (uuid_bytes user_id)))) (\<lambda>decrypted.
          bind_a (require (utf8_ok decrypted) (InternalError ''Invalid key data'')) (\<lambda>_.
          ret (bytes_str decrypted, vk_public_key existing_keys)))
      | None \<Rightarrow>
          let (priv_key, pub_key) = generate_keypair (e_prims E) (e_b64 E) (in_random I 0) in
          bind_a (lift_o (map_err (\<lambda>e. InternalError (''Key encryption failed: '' @ crypto_error_str e))
            (cipher_encrypt (e_prims E) (in_random I 1) (str_bytes priv_key) enc_key (uuid_bytes user_id)))) (\<lambda>encrypted.
          bind_a (db (store_vpn_keys (in_now I) user_id pub_key encrypted)) (\<lambda>_.
          ret (priv_key, pub_key))))"

text \<open>The address given to a new session while \<open>session_count\<close> sessions are open.\<close>

definition vpn_address :: "nat \<Rightarrow> string" where
  "vpn_address session_count =
     (let ip_num = of_nat session_count + 2 :: u32;
          octet3 = (ucast (and (drop_bit 8 ip_num) 255) :: byte);
          octet4 = (ucast (max (and ip_num 255) 2) :: byte) in
      ''10.0.'' @ nat_str (unat octet3) @ ''.'' @ nat_str (unat octet4) @ ''/32'')"

definition vpn_connect ::
    "('s, 't) env \<Rightarrow> inputs \<Rightarrow> auth_user \<Rightarrow> vpn_connect_request \<Rightarrow> ('s, vpn_connect_response) handler" where
  "vpn_connect E I auth req =
     bind_a (db db_list_servers) (\<lambda>servers.
     bind_a (or_none (ValidationError ''Server not found'') (find (\<lambda>s. vs_id s = vc_server_id req) servers)) (\<lambda>server.
     bind_a (require (\<not> vs_current_connections server \<ge> vs_max_connections server) (ValidationError ''Server is full'')) (\<lambda>_.
     bind_a (db (get_active_session (au_user_id auth))) (\<lambda>active.
     bind_a (case active of Some existing \<Rightarrow> db (end_session (in_now I) (vn_id existing)) | None \<Rightarrow> ret ()) (\<lambda>_.
     bind_a (lift_o (vpn_encryption_key (e_prims E) (cf_cert_signing_seed (e_config E)))) (\<lambda>enc_key.
     bind_a (db (get_vpn_keys (au_user_id auth))) (\<lambda>keys.
     bind_a (user_keypair E I (au_user_id auth) enc_key keys) (\<lambda>(private_key, public_key).
     bind_a (db (count_sessions (vc_server_id req))) (\<lambda>session_count.
     let assigned_ip = vpn_address session_count in
     bind_a (db (create_session (in_uuid I 0) (in_now I) (au_user_id auth) (vs_id server) public_key assigned_ip)) (\<lambda>session.
     ret \<lparr>vr_config = config_json
         \<lparr>wg_interface_private_key = private_key, wg_interface_address = assigned_ip, wg_dns = ''1.1.1.1'',
          wg_peer_public_key = vs_public_key server, wg_peer_endpoint = vs_endpoint server, wg_allowed_ips = ''0.0.0.0/0''\<rparr>,
       vr_session_id = vn_id session, vr_assigned_ip = assigned_ip\<rparr>))))))))))"

definition vpn_disconnect :: "inputs \<Rightarrow> auth_user \<Rightarrow> ('s, json_object) handler" where
  "vpn_disconnect I auth =
     bind_a (db (get_active_session (au_user_id auth))) (\<lambda>active.
     bind_a (or_none (ValidationError ''No active VPN session'') active) (\<lambda>session.
     bind_a (db (end_session (in_now I) (vn_id session))) (\<lambda>_.
     ret [(''disconnected'', JBool True)])))"

definition dto_of_server :: "vpn_server \<Rightarrow> vpn_server_dto" where
  "dto_of_server s = \<lparr>vd_id = vs_id s, vd_name = vs_name s, vd_country = vs_country s, vd_city = vs_city s\<rparr>"

definition vpn_status :: "auth_user \<Rightarrow> ('s, vpn_status_response) handler" where
  "vpn_status auth =
     bind_a (db (get_active_session (au_user_id auth))) (\<lambda>session.
     case session of
       Some s \<Rightarrow>
         bind_a (db db_list_servers) (\<lambda>servers.
         ret \<lparr>vt_connected = True, vt_session_id = Some (vn_id s),
           vt_server = map_option dto_of_server (find (\<lambda>srv. vs_id srv = vn_server_id s) servers),
           vt_bytes_up = vn_bytes_up s, vt_bytes_down = vn_bytes_down s, vt_connected_since = Some (vn_started_at s)\<rparr>)
     | None \<Rightarrow>
         ret \<lparr>vt_connected = False, vt_session_id = None, vt_server = None, vt_bytes_up = 0, vt_bytes_down = 0,
           vt_connected_since = None\<rparr>)"

definition vpn_list_servers :: "('s, vpn_server_dto list) handler" where
  "vpn_list_servers = bind_a (db db_list_servers) (\<lambda>servers. ret (map dto_of_server servers))"

end
