(* ===== verification/Emoji_Routes.thy ===== *)
theory Emoji_Routes
  imports Api_State
begin

text \<open>
  crates/hysj-api/src/routes/emojis.rs: packs of emojis, their creators and who has activated them.
\<close>

section \<open>Messages: dto/emojis.rs\<close>

record create_emoji_pack_request =
  cq_name :: string
  cq_description :: "string option"
  cq_is_premium :: bool
  cq_price_cents :: "int option"

record emoji_pack_dto =
  pd_id :: uuid
  pd_name :: string
  pd_description :: "string option"
  pd_cover_image_url :: "string option"
  pd_is_premium :: bool
  pd_price_cents :: "int option"
  pd_emoji_count :: nat

record emoji_dto =
  ed_id :: uuid
  ed_shortcode :: string
  ed_image_url :: string
  ed_is_animated :: bool

record add_emoji_request =
  aq_shortcode :: string
  aq_image_url :: string
  aq_is_animated :: bool

section \<open>Handlers\<close>

definition dto_of_pack :: "emoji_pack \<Rightarrow> nat \<Rightarrow> emoji_pack_dto" where
  "dto_of_pack p count = \<lparr>pd_id = ep_id p, pd_name = ep_name p, pd_description = ep_description p,
     pd_cover_image_url = ep_cover_image_url p, pd_is_premium = ep_is_premium p, pd_price_cents = ep_price_cents p,
     pd_emoji_count = count\<rparr>"

definition dto_of_emoji :: "emoji \<Rightarrow> emoji_dto" where
  "dto_of_emoji e = \<lparr>ed_id = em_id e, ed_shortcode = em_shortcode e, ed_image_url = em_image_url e,
     ed_is_animated = em_is_animated e\<rparr>"

definition create_pack :: "inputs \<Rightarrow> auth_user \<Rightarrow> create_emoji_pack_request \<Rightarrow> ('s, emoji_pack_dto) handler" where
  "create_pack I auth req =
     bind_a (db (db_create_pack (in_uuid I 0) (in_now I) (cq_name req) (cq_description req) (Some (au_user_id auth))
       (cq_is_premium req) (cq_price_cents req))) (\<lambda>pack.
     ret (dto_of_pack pack 0))"

text \<open>The loop that counts the emojis of every pack.\<close>

fun pack_dtos :: "emoji_pack list \<Rightarrow> ('s, emoji_pack_dto list) handler" where
  "pack_dtos [] = ret []"
| "pack_dtos (pack # packs) =
     bind_a (db (get_pack_emojis (ep_id pack))) (\<lambda>emojis.
     bind_a (pack_dtos packs) (\<lambda>dtos.
     ret (dto_of_pack pack (length emojis) # dtos)))"

definition list_packs :: "('s, emoji_pack_dto list) handler" where
  "list_packs = bind_a (db db_list_packs) pack_dtos"

definition pack_or_invalid :: "uuid \<Rightarrow> ('s, emoji_pack) handler" where
  "pack_or_invalid pack_id =
     bind_a (db (db_get_pack pack_id)) (\<lambda>found. or_none (ValidationError ''Pack not found'') found)"

text \<open>The answer is an object with the pack and its emojis.\<close>

definition get_pack :: "uuid \<Rightarrow> ('s, emoji_pack_dto \<times> emoji_dto list) handler" where
  "get_pack pack_id =
     bind_a (pack_or_invalid pack_id) (\<lambda>pack.
     bind_a (db (get_pack_emojis pack_id)) (\<lambda>emojis.
     let emoji_dtos = map dto_of_emoji emojis in
     ret (dto_of_pack pack (length emoji_dtos), emoji_dtos)))"

definition purchase_pack :: "inputs \<Rightarrow> auth_user \<Rightarrow> uuid \<Rightarrow> ('s, json_object) handler" where
  "purchase_pack I auth pack_id =
     bind_a (pack_or_invalid pack_id) (\<lambda>_.
     bind_a (db (db_purchase_pack (in_now I) (au_user_id auth) pack_id)) (\<lambda>_.
     ret [(''purchased'', JBool True)]))"

definition my_packs :: "auth_user \<Rightarrow> ('s, emoji_pack_dto list) handler" where
  "my_packs auth = bind_a (db (get_user_packs (au_user_id auth))) pack_dtos"

definition add_emoji :: "inputs \<Rightarrow> auth_user \<Rightarrow> uuid \<Rightarrow> add_emoji_request \<Rightarrow> ('s, emoji_dto) handler" where
  "add_emoji I auth pack_id req =
     bind_a (pack_or_invalid pack_id) (\<lambda>pack.
     bind_a (require (ep_creator_id pack = Some (au_user_id auth))
       (AuthFailed ''Only the pack creator can add emojis'')) (\<lambda>_.
     bind_a (db (db_add_emoji (in_uuid I 0) (in_now I) pack_id (aq_shortcode req) (aq_image_url req) (aq_is_animated req))) (\<lambda>emoji.
     ret (dto_of_emoji emoji))))"

end
