(* ===== verification/Server_Routes.thy ===== *)
theory Server_Routes
  imports Auth_Routes Media_Routes Push_Routes Device_Routes Group_Routes Social_Routes Vpn_Routes Emoji_Routes
begin

text \<open>
  crates/hysj-api/src/main.rs: the health check and the router, with all optional features on (the default
  of Cargo.toml). A request is an endpoint with its parsed path, query and body; bodies that do not parse
  are answered by axum. The endpoint /ws is \<open>ws_upgrade\<close>, its sockets are in \<open>Socket_Steps\<close>.
\<close>

section \<open>health\_check\<close>

text \<open>\<open>ping\<close> is the PING command of Redis.\<close>

definition health_check :: "('s, string, string) act \<Rightarrow> ('s app, nat \<times> json_object, json_object) act" where
  "health_check ping =
     bind_a (catch_a (bind_a (on_db (sql (ret ()))) (\<lambda>_. ret True)) False) (\<lambda>db_is_ok.
     bind_a (catch_a (bind_a (on_redis ping) (\<lambda>_. ret True)) False) (\<lambda>redis_is_ok.
     if db_is_ok \<and> redis_is_ok then
       ret [(''status'', JText ''healthy''), (''db'', JText ''ok''), (''redis'', JText ''ok'')]
     else
       throw (503, [(''status'', JText ''unhealthy''),
         (''db'', JText (if db_is_ok then ''ok'' else ''error'')),
         (''redis'', JText (if redis_is_ok then ''ok'' else ''error''))])))"

section \<open>build\_router\<close>

datatype auth_endpoint =
    Register register_request
  | Login login_request
  | Refresh refresh_request
  | Setup2fa
  | Verify2fa two_factor_verify_request
  | Disable2fa two_factor_verify_request
  | SenderCertificate
  | SetUsername set_username_request
  | UsernameAvailable string
  | SetDisplayName set_display_name_request
  | DeleteAccount
  | SetAvatar set_avatar_request
  | SetUserStatus set_status_request
  | SendOtp send_otp_request
  | VerifyOtp verify_otp_request

datatype device_endpoint =
    GetPreKeyBundle uuid
  | ReplenishPreKeys replenish_pre_keys_request
  | ListDevices
  | DeleteDevice uuid
  | IssueWipe wipe_request
  | WipeStatus string
  | RegisterPushToken register_push_token_request
  | UnregisterPushToken

datatype group_endpoint =
    CreateGroup create_group_request
  | ListGroups pagination_params
  | GetGroup uuid
  | UpdateGroup uuid update_group_name_request
  | DeleteGroup uuid
  | AddMember uuid add_member_request
  | RemoveMember uuid uuid
  | LeaveGroup uuid

datatype social_endpoint =
    ListContacts pagination_params
  | AddContact uuid
  | RemoveContact uuid
  | SetNickname uuid "string option"
  | BlockContact uuid
  | UnblockContact uuid
  | SendRequest uuid
  | ListIncoming pagination_params
  | AcceptRequest uuid
  | RejectRequest uuid
  | GetSettings
  | UpdateSettings update_settings_request
  | MuteChat mute_chat_request
  | ListMuted pagination_params
  | GetStatus uuid

datatype feature_endpoint =
    VpnConnect vpn_connect_request
  | VpnDisconnect
  | VpnStatus
  | VpnServers
  | CreatePack create_emoji_pack_request
  | ListPacks
  | GetPack uuid
  | PurchasePack uuid
  | MyPacks
  | AddEmoji uuid add_emoji_request
  | RelayNodes

datatype media_endpoint =
    FileUploadInit file_upload_init_request
  | FileUpload string bytes
  | FileDownload string
  | FileDelete string
  | FileMeta string
  | AudioUploadInit audio_upload_request
  | AudioUpload string bytes
  | AudioDownload string
  | AudioDelete string
  | AudioMeta string

datatype endpoint =
    AuthE auth_endpoint
  | DeviceE device_endpoint
  | GroupE group_endpoint
  | SocialE social_endpoint
  | FeatureE feature_endpoint
  | MediaE media_endpoint

datatype request = HealthCheck | Api endpoint

text \<open>The method and the path each endpoint is registered under.\<close>

fun auth_route :: "auth_endpoint \<Rightarrow> string \<times> string" where
  "auth_route (Register _) = (''POST'', ''/api/auth/register'')"
| "auth_route (Login _) = (''POST'', ''/api/auth/login'')"
| "auth_route (Refresh _) = (''POST'', ''/api/auth/refresh'')"
| "auth_route Setup2fa = (''POST'', ''/api/auth/2fa/setup'')"
| "auth_route (Verify2fa _) = (''POST'', ''/api/auth/2fa/verify'')"
| "auth_route (Disable2fa _) = (''POST'', ''/api/auth/2fa/disable'')"
| "auth_route SenderCertificate = (''POST'', ''/api/auth/sender-certificate'')"
| "auth_route (SetUsername _) = (''POST'', ''/api/auth/set-username'')"
| "auth_route (UsernameAvailable _) = (''GET'', ''/api/auth/username-available/:username'')"
| "auth_route (SetDisplayName _) = (''POST'', ''/api/auth/set-display-name'')"
| "auth_route DeleteAccount = (''DELETE'', ''/api/auth/account'')"
| "auth_route (SetAvatar _) = (''POST'', ''/api/auth/set-avatar'')"
| "auth_route (SetUserStatus _) = (''PUT'', ''/api/users/status'')"
| "auth_route (SendOtp _) = (''POST'', ''/api/auth/otp/send'')"
| "auth_route (VerifyOtp _) = (''POST'', ''/api/auth/otp/verify'')"

fun device_route :: "device_endpoint \<Rightarrow> string \<times> string" where
  "device_route (GetPreKeyBundle _) = (''GET'', ''/api/keys/:user_id'')"
| "device_route (ReplenishPreKeys _) = (''POST'', ''/api/keys/replenish'')"
| "device_route ListDevices = (''GET'', ''/api/devices'')"
| "device_route (DeleteDevice _) = (''DELETE'', ''/api/devices/:device_id'')"
| "device_route (IssueWipe _) = (''POST'', ''/api/wipe'')"
| "device_route (WipeStatus _) = (''GET'', ''/api/wipe/:wipe_id'')"
| "device_route (RegisterPushToken _) = (''POST'', ''/api/push/register'')"
| "device_route UnregisterPushToken = (''POST'', ''/api/push/unregister'')"

fun group_route :: "group_endpoint \<Rightarrow> string \<times> string" where
  "group_route (CreateGroup _) = (''POST'', ''/api/groups'')"
| "group_route (ListGroups _) = (''GET'', ''/api/groups'')"
| "group_route (GetGroup _) = (''GET'', ''/api/groups/:group_id'')"
| "group_route (UpdateGroup _ _) = (''PUT'', ''/api/groups/:group_id'')"
| "group_route (DeleteGroup _) = (''DELETE'', ''/api/groups/:group_id'')"
| "group_route (AddMember _ _) = (''POST'', ''/api/groups/:group_id/members'')"
| "group_route (RemoveMember _ _) = (''DELETE'', ''/api/groups/:group_id/members/:user_id'')"
| "group_route (LeaveGroup _) = (''POST'', ''/api/groups/:group_id/leave'')"

fun social_route :: "social_endpoint \<Rightarrow> string \<times> string" where
  "social_route (ListContacts _) = (''GET'', ''/api/contacts'')"
| "social_route (AddContact _) = (''POST'', ''/api/contacts/:user_id'')"
| "social_route (RemoveContact _) = (''DELETE'', ''/api/contacts/:user_id'')"
| "social_route (SetNickname _ _) = (''PUT'', ''/api/contacts/:user_id/nickname'')"
| "social_route (BlockContact _) = (''POST'', ''/api/contacts/:user_id/block'')"
| "social_route (UnblockContact _) = (''POST'', ''/api/contacts/:user_id/unblock'')"
| "social_route (SendRequest _) = (''POST'', ''/api/contact-requests/:user_id'')"
| "social_route (ListIncoming _) = (''GET'', ''/api/contact-requests/incoming'')"
| "social_route (AcceptRequest _) = (''POST'', ''/api/contact-requests/:request_id/accept'')"
| "social_route (RejectRequest _) = (''POST'', ''/api/contact-requests/:request_id/reject'')"
| "social_route GetSettings = (''GET'', ''/api/settings'')"
| "social_route (UpdateSettings _) = (''PUT'', ''/api/settings'')"
| "social_route (MuteChat _) = (''POST'', ''/api/settings/mute'')"
| "social_route (ListMuted _) = (''GET'', ''/api/settings/muted'')"
| "social_route (GetStatus _) = (''GET'', ''/api/users/:user_id/status'')"

fun feature_route :: "feature_endpoint \<Rightarrow> string \<times> string" where
  "feature_route (VpnConnect _) = (''POST'', ''/api/vpn/connect'')"
| "feature_route VpnDisconnect = (''POST'', ''/api/vpn/disconnect'')"
| "feature_route VpnStatus = (''GET'', ''/api/vpn/status'')"
| "feature_route VpnServers = (''GET'', ''/api/vpn/servers'')"
| "feature_route (CreatePack _) = (''POST'', ''/api/emojis/packs'')"
| "feature_route ListPacks = (''GET'', ''/api/emojis/packs'')"
| "feature_route (GetPack _) = (''GET'', ''/api/emojis/packs/:pack_id'')"
| "feature_route (PurchasePack _) = (''POST'', ''/api/emojis/packs/:pack_id/purchase'')"
| "feature_route MyPacks = (''GET'', ''/api/emojis/mine'')"
| "feature_route (AddEmoji _ _) = (''POST'', ''/api/emojis/packs/:pack_id/emojis'')"
| "feature_route RelayNodes = (''GET'', ''/api/relay/nodes'')"

fun media_route :: "media_endpoint \<Rightarrow> string \<times> string" where
  "media_route (FileUploadInit _) = (''POST'', ''/api/files/upload-init'')"
| "media_route (FileUpload _ _) = (''PUT'', ''/api/files/:file_id/upload'')"
| "media_route (FileDownload _) = (''GET'', ''/api/files/:file_id'')"
| "media_route (FileDelete _) = (''DELETE'', ''/api/files/:file_id'')"
| "media_route (FileMeta _) = (''GET'', ''/api/files/:file_id/meta'')"
| "media_route (AudioUploadInit _) = (''POST'', ''/api/audio/upload-init'')"
| "media_route (AudioUpload _ _) = (''PUT'', ''/api/audio/:audio_id/upload'')"
| "media_route (AudioDownload _) = (''GET'', ''/api/audio/:audio_id'')"
| "media_route (AudioDelete _) = (''DELETE'', ''/api/audio/:audio_id'')"
| "media_route (AudioMeta _) = (''GET'', ''/api/audio/:audio_id/meta'')"

fun endpoint_route :: "endpoint \<Rightarrow> string \<times> string" where
  "endpoint_route (AuthE r) = auth_route r"
| "endpoint_route (DeviceE r) = device_route r"
| "endpoint_route (GroupE r) = group_route r"
| "endpoint_route (SocialE r) = social_route r"
| "endpoint_route (FeatureE r) = feature_route r"
| "endpoint_route (MediaE r) = media_route r"

fun route_of :: "request \<Rightarrow> string \<times> string" where
  "route_of HealthCheck = (''GET'', ''/health'')"
| "route_of (Api r) = endpoint_route r"

section \<open>What a request is answered with\<close>

text \<open>An answer is its HTTP status; a handler that panics answers nothing.\<close>

datatype reply = Answered nat | Dropped string

fun reply_of :: "(hysj_error, nat) outcome \<Rightarrow> reply" where
  "reply_of (Ok status) = Answered status"
| "reply_of (Err e) = Answered (fst (into_response e))"
| "reply_of (Panic p) = Dropped p"

text \<open>A handler whose answer is \<open>Json\<close>, and one that has the extractor \<open>AuthUser\<close> before it.\<close>

definition ok200 :: "('s, 'a) handler \<Rightarrow> ('s, nat) handler" where
  "ok200 h = bind_a h (\<lambda>_. ret 200)"

definition as_user ::
    "('s, 't) env \<Rightarrow> inputs \<Rightarrow> headers \<Rightarrow> (auth_user \<Rightarrow> ('s, nat) handler) \<Rightarrow> ('s, nat) handler" where
  "as_user E I hs h = bind_a (lift_o (from_request_parts E I hs)) h"

fun serve_auth :: "('s, 't) env \<Rightarrow> inputs \<Rightarrow> headers \<Rightarrow> auth_endpoint \<Rightarrow> ('s, nat) handler" where
  "serve_auth E I hs (Register req) = ok200 (register E I hs req)"
| "serve_auth E I hs (Login req) = ok200 (login E I hs req)"
| "serve_auth E I hs (Refresh req) = ok200 (refresh E I req)"
| "serve_auth E I hs Setup2fa = as_user E I hs (\<lambda>auth. ok200 (setup_2fa E I auth))"
| "serve_auth E I hs (Verify2fa req) = as_user E I hs (\<lambda>auth. ok200 (verify_2fa E I auth req))"
| "serve_auth E I hs (Disable2fa req) = as_user E I hs (\<lambda>auth. ok200 (disable_2fa E I auth req))"
| "serve_auth E I hs SenderCertificate = as_user E I hs (\<lambda>auth. ok200 (sender_certificate_route E I auth))"
| "serve_auth E I hs (SetUsername req) = as_user E I hs (\<lambda>auth. ok200 (set_username auth req))"
| "serve_auth E I hs (UsernameAvailable username) = ok200 (username_available username)"
| "serve_auth E I hs (SetDisplayName req) = as_user E I hs (\<lambda>auth. ok200 (set_display_name auth req))"
| "serve_auth E I hs DeleteAccount = as_user E I hs (\<lambda>auth. ok200 (delete_account auth))"
| "serve_auth E I hs (SetAvatar req) = as_user E I hs (\<lambda>auth. ok200 (set_avatar auth req))"
| "serve_auth E I hs (SetUserStatus req) = as_user E I hs (\<lambda>auth. ok200 (set_user_status auth req))"
| "serve_auth E I hs (SendOtp req) = ok200 (send_otp E I hs req)"
| "serve_auth E I hs (VerifyOtp req) = ok200 (otp_verify_otp E I req)"

fun serve_device :: "('s, 't) env \<Rightarrow> inputs \<Rightarrow> auth_user \<Rightarrow> device_endpoint \<Rightarrow> ('s, nat) handler" where
  "serve_device E I auth (GetPreKeyBundle user_id) = ok200 (get_pre_key_bundle_route E I auth user_id)"
| "serve_device E I auth (ReplenishPreKeys req) = ok200 (replenish_pre_keys E I auth req)"
| "serve_device E I auth ListDevices = ok200 (list_devices auth)"
| "serve_device E I auth (DeleteDevice device_id) = ok200 (delete_device auth device_id)"
| "serve_device E I auth (IssueWipe req) = ok200 (issue_wipe_route E I auth req)"
| "serve_device E I auth (WipeStatus wipe_id) = ok200 (wipe_status E auth wipe_id)"
| "serve_device E I auth (RegisterPushToken req) = ok200 (register_push_token E auth req)"
| "serve_device E I auth UnregisterPushToken = ok200 (unregister_push_token E auth)"

fun serve_group :: "inputs \<Rightarrow> auth_user \<Rightarrow> group_endpoint \<Rightarrow> ('s, nat) handler" where
  "serve_group I auth (CreateGroup req) = ok200 (create_group I auth req)"
| "serve_group I auth (ListGroups pagination) = ok200 (list_groups auth pagination)"
| "serve_group I auth (GetGroup group_id) = ok200 (get_group auth group_id)"
| "serve_group I auth (UpdateGroup group_id req) = ok200 (update_group auth group_id req)"
| "serve_group I auth (DeleteGroup group_id) = ok200 (delete_group auth group_id)"
| "serve_group I auth (AddMember group_id req) = ok200 (add_member I auth group_id req)"
| "serve_group I auth (RemoveMember group_id user_id) = ok200 (remove_member auth group_id user_id)"
| "serve_group I auth (LeaveGroup group_id) = ok200 (leave_group auth group_id)"

fun serve_social :: "inputs \<Rightarrow> auth_user \<Rightarrow> social_endpoint \<Rightarrow> ('s, nat) handler" where
  "serve_social I auth (ListContacts pagination) = ok200 (list_contacts auth pagination)"
| "serve_social I auth (AddContact user_id) = ok200 (add_contact I auth user_id)"
| "serve_social I auth (RemoveContact user_id) = ok200 (remove_contact auth user_id)"
| "serve_social I auth (SetNickname user_id nickname) = ok200 (set_nickname auth user_id nickname)"
| "serve_social I auth (BlockContact user_id) = ok200 (block_contact I auth user_id)"
| "serve_social I auth (UnblockContact user_id) = ok200 (unblock_contact auth user_id)"
| "serve_social I auth (SendRequest user_id) = ok200 (send_request I auth user_id)"
| "serve_social I auth (ListIncoming pagination) = ok200 (list_incoming auth pagination)"
| "serve_social I auth (AcceptRequest request_id) = ok200 (accept_request I auth request_id)"
| "serve_social I auth (RejectRequest request_id) = ok200 (reject_request auth request_id)"
| "serve_social I auth GetSettings = ok200 (get_settings auth)"
| "serve_social I auth (UpdateSettings req) = ok200 (update_settings auth req)"
| "serve_social I auth (MuteChat req) = ok200 (mute_chat I auth req)"
| "serve_social I auth (ListMuted pagination) = ok200 (list_muted auth pagination)"
| "serve_social I auth (GetStatus user_id) = ok200 (get_status auth user_id)"

text \<open>Only the list of packs and a single pack are open to everybody.\<close>

fun serve_feature :: "('s, 't) env \<Rightarrow> inputs \<Rightarrow> headers \<Rightarrow> feature_endpoint \<Rightarrow> ('s, nat) handler" where
  "serve_feature E I hs (VpnConnect req) = as_user E I hs (\<lambda>auth. ok200 (vpn_connect E I auth req))"
| "serve_feature E I hs VpnDisconnect = as_user E I hs (\<lambda>auth. ok200 (vpn_disconnect I auth))"
| "serve_feature E I hs VpnStatus = as_user E I hs (\<lambda>auth. ok200 (vpn_status auth))"
| "serve_feature E I hs VpnServers = as_user E I hs (\<lambda>auth. ok200 vpn_list_servers)"
| "serve_feature E I hs (CreatePack req) = as_user E I hs (\<lambda>auth. ok200 (create_pack I auth req))"
| "serve_feature E I hs ListPacks = ok200 list_packs"
| "serve_feature E I hs (GetPack pack_id) = ok200 (get_pack pack_id)"
| "serve_feature E I hs (PurchasePack pack_id) = as_user E I hs (\<lambda>auth. ok200 (purchase_pack I auth pack_id))"
| "serve_feature E I hs MyPacks = as_user E I hs (\<lambda>auth. ok200 (my_packs auth))"
| "serve_feature E I hs (AddEmoji pack_id req) = as_user E I hs (\<lambda>auth. ok200 (add_emoji I auth pack_id req))"
| "serve_feature E I hs RelayNodes = as_user E I hs (\<lambda>auth. ok200 list_nodes)"

fun serve_media :: "('s, 't) env \<Rightarrow> inputs \<Rightarrow> auth_user \<Rightarrow> media_endpoint \<Rightarrow> ('s, nat) handler" where
  "serve_media E I auth (FileUploadInit req) = ok200 (file_upload_init E I auth req)"
| "serve_media E I auth (FileUpload file_id body) = file_upload_blob E file_id body"
| "serve_media E I auth (FileDownload file_id) = bind_a (file_download_blob E file_id) (\<lambda>(status, _). ret status)"
| "serve_media E I auth (FileDelete file_id) = delete_file E file_id"
| "serve_media E I auth (FileMeta file_id) = ok200 (file_meta E I file_id)"
| "serve_media E I auth (AudioUploadInit req) = ok200 (audio_upload_init E I auth req)"
| "serve_media E I auth (AudioUpload audio_id body) = audio_upload_blob E audio_id body"
| "serve_media E I auth (AudioDownload audio_id) = bind_a (audio_download_blob E audio_id) (\<lambda>(status, _). ret status)"
| "serve_media E I auth (AudioDelete audio_id) = delete_audio E audio_id"
| "serve_media E I auth (AudioMeta audio_id) = ok200 (audio_meta_route E audio_id)"

fun serve :: "('s, 't) env \<Rightarrow> inputs \<Rightarrow> headers \<Rightarrow> endpoint \<Rightarrow> ('s, nat) handler" where
  "serve E I hs (AuthE r) = serve_auth E I hs r"
| "serve E I hs (DeviceE r) = as_user E I hs (\<lambda>auth. serve_device E I auth r)"
| "serve E I hs (GroupE r) = as_user E I hs (\<lambda>auth. serve_group I auth r)"
| "serve E I hs (SocialE r) = as_user E I hs (\<lambda>auth. serve_social I auth r)"
| "serve E I hs (FeatureE r) = serve_feature E I hs r"
| "serve E I hs (MediaE r) = as_user E I hs (\<lambda>auth. serve_media E I auth r)"

fun handle_request ::
    "('s, string, string) act \<Rightarrow> ('s, 't) env \<Rightarrow> inputs \<Rightarrow> headers \<Rightarrow> request \<Rightarrow> 's app \<Rightarrow> reply \<times> 's app" where
  "handle_request ping E I hs HealthCheck a =
     (case health_check ping a of
        (Ok _, a') \<Rightarrow> (Answered 200, a')
      | (Err (status, _), a') \<Rightarrow> (Answered status, a')
      | (Panic p, a') \<Rightarrow> (Dropped p, a'))"
| "handle_request ping E I hs (Api r) a = (case serve E I hs r a of (out, a') \<Rightarrow> (reply_of out, a'))"

end
