(* ===== verification/Server_Invariants.thy ===== *)
theory Server_Invariants
  imports Server_Routes Socket_Steps Table_Invariants Background_Tasks
begin

text \<open>
  The whole server: sockets, requests and background tasks in any order. What a predicate of the server
  state has to promise so that every handler keeps it is the locale \<open>app_invariant\<close>, and for the socket
  tasks as well \<open>socket_invariant\<close>; they are interpreted on the invariants of the tables and on what
  handlers may do to the registered connections.
\<close>

section \<open>Predicates that every handler keeps\<close>

lemma keeps_let [intro]: "(\<And>x. keeps I (f x)) \<Longrightarrow> keeps I (Let v f)"
  by (simp add: Let_def)

lemma keeps_prod [intro]: "(\<And>x y. keeps I (f x y)) \<Longrightarrow> keeps I (case p of (x, y) \<Rightarrow> f x y)"
  by (simp split: prod.split)

lemma keeps_sum [intro]:
  "(\<And>x. keeps I (f x)) \<Longrightarrow> (\<And>y. keeps I (g y)) \<Longrightarrow> keeps I (case v of Inl x \<Rightarrow> f x | Inr y \<Rightarrow> g y)"
  by (simp split: sum.split)

lemma keeps_small [intro, simp]:
  "keeps I (require c e)" "keeps I (or_none e v)" "keeps I (returned r)"
  by (simp_all add: require_def or_none_def returned_def split: option.split)

locale app_invariant = full_invariant T for T :: "tables \<Rightarrow> bool" +
  fixes A :: "'s app \<Rightarrow> bool"
  assumes tables: "A a \<Longrightarrow> T (db_tables (ap_db a))"
    and set_db: "A a \<Longrightarrow> T (db_tables d) \<Longrightarrow> A (a\<lparr>ap_db := d\<rparr>)"
    and set_redis: "A a \<Longrightarrow> A (a\<lparr>ap_redis := s\<rparr>)"
    and set_limiter: "A a \<Longrightarrow> A (a\<lparr>ap_limiter := l\<rparr>)"
    and frame: "A a \<Longrightarrow> A (push_frame c t a)"
    and connection: "A a \<Longrightarrow> A (drop_connection i a)"
begin

lemma query_keeps: "keeps (on_tables T) q \<Longrightarrow> keeps A (on_db q)"
  unfolding keeps_def on_db_def on_tables_def
  by (auto split: prod.split intro!: set_db) (metis snd_conv tables)

lemma calls_keep [intro]:
  "keeps (on_tables T) q \<Longrightarrow> keeps A (db q)" "keeps (on_tables T) q \<Longrightarrow> keeps A (db_else e q)"
  "keeps (on_tables T) q \<Longrightarrow> keeps A (db_text q)" "keeps (on_tables T) q' \<Longrightarrow> keeps A (db_or x q')"
  unfolding db_def db_else_def db_text_def db_or_def by (intro keeps_map_err keeps_catch query_keeps; assumption)+

lemma on_redis_keeps [intro, simp]: "keeps A (on_redis p)"
  by (rule keepsI) (auto simp: on_redis_def split: prod.split intro: set_redis)

lemma redis_keeps [intro, simp]: "keeps A (messaging p)" "keeps A (or_internal p)" "keeps A (messaging_text p)"
  unfolding messaging_def or_internal_def messaging_text_def by (intro keeps_map_err on_redis_keeps)+

lemma send_keeps [intro, simp]: "keeps A (send_to_device E d m)"
  by (rule keepsI) (auto simp: send_to_device_def frame connection split: option.split sum.split)

lemma sends_keep [intro, simp]:
  "keeps A (limit_ok I key n w)" "keeps A (mod_s (drop_connection i))"
  "keeps A (try_send E d m)" "keeps A (delivered_to E d m)"
  unfolding try_send_def delivered_to_def limit_ok_def mod_s_def
  by (intro keeps_catch keeps_bind keeps_pure send_keeps keepsI; auto simp: set_limiter connection split: prod.split)+

lemmas handler_rules = keeps_bind keeps_for keeps_if keeps_catch keeps_map_err keeps_option keeps_pure keeps_let
  keeps_prod keeps_sum keeps_small calls_keep on_redis_keeps redis_keeps send_keeps sends_keep query_keeps all_queries_keep

lemma auth_keeps: "keeps A (serve_auth E I hs r)"
  by (cases r; simp only: serve_auth.simps as_user_def ok200_def register_def register_checks_def decode_field_def
      issue_tokens_def login_def login_device_def refresh_def setup_2fa_def verify_2fa_def check_code_def disable_2fa_def
      sender_certificate_route_def set_username_def username_available_def set_display_name_def delete_account_def
      set_avatar_def set_user_status_def send_otp_def send_sms_twilio_def otp_verify_otp_def; intro handler_rules)

lemma device_keeps: "keeps A (serve_device E I u r)"
proof -
  have "keeps A (wipe_status_loop E w ds p c)" for w ds p c
    by (induction ds arbitrary: p c; simp only: wipe_status_loop.simps; intro handler_rules; assumption)
  then show ?thesis
    by (cases r; simp only: serve_device.simps ok200_def get_pre_key_bundle_route_def replenish_pre_keys_def list_devices_def
        delete_device_def issue_wipe_route_def wipe_targets_def ids_of_user_def wipe_status_def register_push_token_def
        unregister_push_token_def; intro handler_rules; auto split: wipe_type.split intro!: handler_rules)
qed

lemma group_keeps: "keeps A (serve_group I u r)"
proof -
  have b: "keeps A (build_group_response g)" for g unfolding build_group_response_def by (intro handler_rules)
  have "keeps A (group_responses gs)" for gs
    by (induction gs; simp only: group_responses.simps; intro handler_rules b; assumption)
  with b show ?thesis
    by (cases r; simp only: serve_group.simps ok200_def create_group_def name_ok_def list_groups_def get_group_def
        update_group_def admin_only_def delete_group_def add_member_def remove_member_def leave_group_def;
        intro handler_rules)
qed

lemma social_keeps: "keeps A (serve_social I u r)"
proof -
  have n: "keeps A (user_or_not_found i)" for i unfolding user_or_not_found_def by (intro handler_rules)
  have "keeps A (contact_dtos cs)" for cs
    by (induction cs; simp only: contact_dtos.simps; intro handler_rules n; assumption)
  moreover have "keeps A (request_dtos cs)" for cs
    by (induction cs; simp only: request_dtos.simps; intro handler_rules; assumption)
  ultimately show ?thesis
    by (cases r; simp only: serve_social.simps ok200_def list_contacts_def add_contact_def remove_contact_def set_nickname_def
        block_contact_def unblock_contact_def send_request_def list_incoming_def accept_request_def reject_request_def
        get_settings_def update_settings_def mute_chat_def list_muted_def get_status_def; intro handler_rules n)
qed

lemma feature_keeps: "keeps A (serve_feature E I hs r)"
proof -
  have "keeps A (pack_dtos ps)" for ps
    by (induction ps; simp only: pack_dtos.simps; intro handler_rules; assumption)
  then show ?thesis
    by (cases r; simp only: serve_feature.simps as_user_def ok200_def vpn_connect_def user_keypair_def vpn_disconnect_def
        vpn_status_def vpn_list_servers_def create_pack_def list_packs_def get_pack_def pack_or_invalid_def
        purchase_pack_def my_packs_def add_emoji_def list_nodes_def; intro handler_rules)
qed

lemma media_keeps: "keeps A (serve_media E I u r)"
  by (cases r; simp only: serve_media.simps ok200_def file_upload_init_def file_upload_blob_def file_download_blob_def
      delete_file_def file_meta_def audio_upload_init_def audio_upload_blob_def audio_download_blob_def
      delete_audio_def audio_meta_route_def; intro handler_rules)

lemma request_keeps: "A a \<Longrightarrow> A (snd (handle_request ping E I hs r a))"
proof (cases r)
  case HealthCheck
  assume a: "A a"
  have "keeps A (health_check ping)"
    unfolding health_check_def by (intro handler_rules keeps_sql_tables) simp
  from keepsD [OF this a] HealthCheck show ?thesis
    by (auto split: prod.split outcome.split)
next
  case (Api e)
  assume a: "A a"
  have "keeps A (serve E I hs e)"
    by (cases e; simp only: serve.simps as_user_def; intro handler_rules auth_keeps device_keeps group_keeps social_keeps
        feature_keeps media_keeps)
  from keepsD [OF this a] Api show ?thesis by (auto split: prod.split)
qed

text \<open>The handlers of the sockets' messages and what a connecting device is sent.\<close>

lemma message_keeps: "keeps A (handle_ws_message E I u d m)"
proof -
  have s: "keeps A (send_to_user_devices E i n)" for i n
    unfolding send_to_user_devices_def by (intro handler_rules)
  have o: "keeps A (notify_offline E i)" for i
    unfolding notify_offline_def send_push_notification_def by (intro handler_rules)
  have w: "keeps A (ws_wipe_targets u w)" for w
    unfolding ws_wipe_targets_def device_ids_def
    by (cases "wr_wipe_type w"; simp only: wipe_type.case; intro handler_rules)
  have q: "keeps A (send_or_queue E n i b ttl x)" for n i b ttl x
    unfolding send_or_queue_def by (intro handler_rules)
  show ?thesis
    by (cases m; simp only: handle_ws_message.simps on_send_message_def on_send_group_message_def
        on_wipe_command_def on_pin_message_def; intro handler_rules s o w q)
qed

lemma frame_keeps:
  assumes "A a"
  shows "A (snd (on_frame E I u d c (InText t) a))"
proof -
  have reply: "A (snd (bind_a (send_to_self E d n) (\<lambda>_. ret True) b))" if "A b" for n b
    using that by (intro keepsD [of A] handler_rules) (simp_all add: send_to_self_def)
  show ?thesis
  proof (cases "from_json (e_ws_json E) (str_bytes t)")
    case (Inr m)
    with keepsD [OF message_keeps assms, of E I u d m] reply show ?thesis
      by (cases "handle_ws_message E I u d m a") (auto simp: on_frame_def split: outcome.split)
  qed (simp add: on_frame_def reply assms)
qed

lemma deliveries_keep: "keeps A (deliver_pending_messages E d)" "keeps A (deliver_pending_wipes E d)"
proof -
  have q: "keeps A (deliver_queued E d m)" for m
    unfolding deliver_queued_def send_raw_def
    by (intro handler_rules keepsI) (auto split: option.split simp: frame)
  show "keeps A (deliver_pending_messages E d)" "keeps A (deliver_pending_wipes E d)"
    unfolding deliver_pending_messages_def deliver_pending_wipes_def deliver_wipe_def by (intro handler_rules q)+
qed

text \<open>The background tasks.\<close>

lemma sweep_key_keeps: "keeps A (sweep_key E key)"
  unfolding sweep_key_def by (intro handler_rules)

lemma wipe_round_keeps: "keeps A (wipe_round fuel E cursor)"
  by (induction fuel arbitrary: cursor; simp only: wipe_round.simps; intro handler_rules sweep_key_keeps; assumption)

end

locale socket_invariant = app_invariant +
  assumes channels: "A a \<Longrightarrow> A (a\<lparr>ap_channels := x\<rparr>)"
    and connections: "A a \<Longrightarrow> A (a\<lparr>ap_connections := y\<rparr>)"
begin

lemma channel_keeps: "A a \<Longrightarrow> A (set_channel c f a)"
  by (simp add: set_channel_def channels)

lemma open_keeps: "keeps A (open_socket E I d c)"
  unfolding open_socket_def
  by (intro handler_rules deliveries_keep; auto simp: mod_s_def channel_keeps connections intro!: keepsI)

lemma on_frame_keeps: "A a \<Longrightarrow> A (snd (on_frame E I u d c f a))"
  by (cases f) (simp_all add: frame_keeps, simp_all add: on_frame_def channel_keeps)

lemma close_keeps: "keeps A (close_socket I d c)"
  unfolding close_socket_def by (intro handler_rules; auto simp: mod_s_def channel_keeps intro!: keepsI)

lemma sink_keeps: "A a \<Longrightarrow> A (snd (sink_step c ev a))"
  by (cases ev) (simp_all add: mod_s_def channel_keeps)

lemma step_keeps: "socket_step E sv sv' \<Longrightarrow> A (sv_app sv) \<Longrightarrow> A (sv_app sv')"
proof (induction rule: socket_step.induct)
  case (connects I d sv a' u)
  have "A (snd (open_socket E I d (sv_next sv) (sv_app sv) :: (unit, unit) outcome \<times> _))"
    by (rule keepsD [OF open_keeps connects.prems])
  with connects.hyps show ?case by simp
next
  case (reads sv c u d I f a')
  have "A (snd (on_frame E I u d c f (sv_app sv) :: (unit, bool) outcome \<times> _))"
    by (rule on_frame_keeps [OF reads.prems])
  with reads.hyps show ?case by simp
next
  case (leaves sv c u d I f a1 I' a')
  have "A (snd (on_frame E I u d c f (sv_app sv) :: (unit, bool) outcome \<times> _))"
    by (rule on_frame_keeps [OF leaves.prems])
  with leaves.hyps have "A a1" by simp
  have "A (snd (close_socket I' d c a1 :: (unit, unit) outcome \<times> _))"
    by (rule keepsD [OF close_keeps \<open>A a1\<close>])
  with leaves.hyps show ?case by simp
next
  case (writes sv c u d ev a')
  have "A (snd (sink_step c ev (sv_app sv) :: (unit, unit) outcome \<times> _))"
    by (rule sink_keeps [OF writes.prems])
  with writes.hyps show ?case by simp
qed

end

section \<open>The invariants of this server\<close>

interpretation ok_app: socket_invariant tables_ok "\<lambda>a. tables_ok (db_tables (ap_db a))"
  by unfold_locales (simp_all add: push_frame_def drop_connection_def)

interpretation fit_app: socket_invariant rows_fit "\<lambda>a. rows_fit (db_tables (ap_db a))"
  by unfold_locales (simp_all add: push_frame_def drop_connection_def)

interpretation tracking: app_invariant "\<lambda>_. True" "tracked C r" for C r
proof unfold_locales
  show "tracked C r a \<Longrightarrow> tracked C r (a\<lparr>ap_limiter := l\<rparr>)" for a :: "'s app" and l by (simp add: tracked_def)
qed (simp_all add: tracked_drop)

section \<open>Every server that serves\<close>

text \<open>
  From a consistent database: steps of the sockets, requests, and rounds of the three background tasks.
  \<open>ping\<close> is the PING of the health check.
\<close>

inductive serving :: "('s, string, string) act \<Rightarrow> ('s, 't) env \<Rightarrow> 's server \<Rightarrow> bool" for ping E where
  boot: "tables_ok (db_tables d) \<Longrightarrow> rows_fit (db_tables d) \<Longrightarrow> serving ping E (server_new d s)"
| socket: "serving ping E sv \<Longrightarrow> socket_step E sv sv' \<Longrightarrow> serving ping E sv'"
| request: "serving ping E sv \<Longrightarrow> handle_request ping E I hs r (sv_app sv) = (reply, a') \<Longrightarrow>
    serving ping E (sv\<lparr>sv_app := a'\<rparr>)"
| expiry_sweep: "serving ping E sv \<Longrightarrow> expiry_round (e_fuel E) (e_redis E) 0 0 0 (ap_redis (sv_app sv)) = (Ok counts, s') \<Longrightarrow>
    serving ping E (sv\<lparr>sv_app := (sv_app sv)\<lparr>ap_redis := s'\<rparr>\<rparr>)"
| wipe_sweep: "serving ping E sv \<Longrightarrow> wipe_round (e_fuel E) E 0 (sv_app sv) = (Ok u :: (unit, unit option) outcome, a') \<Longrightarrow>
    serving ping E (sv\<lparr>sv_app := a'\<rparr>)"
| limiter_cleanup: "serving ping E sv \<Longrightarrow>
    serving ping E (sv\<lparr>sv_app := (sv_app sv)\<lparr>ap_limiter := cleanup_round now (ap_limiter (sv_app sv))\<rparr>\<rparr>)"

lemma serving_keeps:
  assumes "serving ping E sv" and boot: "\<And>d s. tables_ok (db_tables d) \<Longrightarrow> rows_fit (db_tables d) \<Longrightarrow> A (app_new d s)"
    and A: "socket_invariant T A"
  shows "A (sv_app sv)"
  using assms(1)
proof (induction rule: serving.induct)
  case (request sv I hs r reply a')
  then show ?case using app_invariant.request_keeps [OF socket_invariant.axioms(1) [OF A] request.IH, of ping E I hs r] by simp
next
  case (expiry_sweep sv counts s')
  then show ?case using app_invariant.set_redis [OF socket_invariant.axioms(1) [OF A]] by simp
next
  case (wipe_sweep sv u a')
  have "A (snd (wipe_round (e_fuel E) E 0 (sv_app sv) :: (unit, unit option) outcome \<times> _))"
    by (rule keepsD [OF app_invariant.wipe_round_keeps [OF socket_invariant.axioms(1) [OF A]] wipe_sweep.IH])
  with wipe_sweep.hyps show ?case by simp
next
  case (limiter_cleanup sv now)
  then show ?case using app_invariant.set_limiter [OF socket_invariant.axioms(1) [OF A]] by simp
qed (simp_all add: server_new_def boot socket_invariant.step_keeps [OF A])

lemma serving_sockets: "serving ping E sv \<Longrightarrow> server_ok sv"
proof (induction rule: serving.induct)
  case (socket sv sv')
  from socket.hyps(2) socket.IH show ?case
    by (cases rule: socket_stepE)
      (auto intro: server_ok_open server_ok_frame server_ok_write server_ok_leave)
next
  case (request sv I hs r reply a')
  with tracking.request_keeps [OF tracked_now, of "sv_app sv" ping E I hs r] show ?case
    by (intro server_ok_tracked) simp_all
next
  case (wipe_sweep sv u a')
  have "tracked (map_of (ap_connections (sv_app sv))) (\<lambda>c. ch_receiving (ap_channels (sv_app sv) c))
      (snd (wipe_round (e_fuel E) E 0 (sv_app sv) :: (unit, unit option) outcome \<times> _))"
    by (rule keepsD [OF tracking.wipe_round_keeps tracked_now])
  with wipe_sweep show ?case by (intro server_ok_tracked) simp_all
qed (simp_all add: server_ok_new server_ok_tracked tracked_def)

text \<open>
  C6: Whatever requests arrive, authenticated or not, whatever the sockets and the background tasks do and
  in whatever order, and whatever statements fail: in every server reached from a consistent database the
  keys of all tables are unique and their references resolve, every text fits its column, and every
  registered connection is an open socket of the device it is registered for.
\<close>

theorem server_stays_consistent:
  assumes "serving ping E sv"
  shows "tables_ok (db_tables (ap_db (sv_app sv))) \<and> rows_fit (db_tables (ap_db (sv_app sv))) \<and>
    (\<forall>d c. map_of (ap_connections (sv_app sv)) d = Some c \<longrightarrow> (\<exists>u. sv_open sv c = Some (u, d)))"
  using serving_keeps [OF assms _ ok_app.socket_invariant_axioms] serving_keeps [OF assms _ fit_app.socket_invariant_axioms]
    server_okD(1) [OF serving_sockets [OF assms]]
  by (simp add: app_new_def)

end
