(* ===== verification/Otp_Properties.thy ===== *)
theory Otp_Properties
  imports Otp_Routes Media_Properties
begin

text \<open>
  What the one-time codes of routes/otp.rs prove: a code that was sent opens the phone number exactly once,
  and the token it is exchanged for names that number exactly once. The facts about codes and tokens come
  from the interpretations of \<open>one_time_secret\<close>.
\<close>

lemma env_ready: "env_ok E \<Longrightarrow> ready (e_fuel E, e_redis E)"
  by (simp add: ready_def env_okD(1))

definition stored_code :: "('s, 't) env \<Rightarrow> 's app \<Rightarrow> string \<Rightarrow> string option" where
  "stored_code E a p = text_at (look_of E a) (''otp:'' @ p)"

definition code_readable :: "('s, 't) env \<Rightarrow> 's app \<Rightarrow> string \<Rightarrow> bool" where
  "code_readable E a p \<longleftrightarrow> texts (look_of E a) (''otp:'' @ p)"

lemma store_otp_app:
  fixes E :: "('s, 't) env"
  assumes "env_ok E" and "0 < ttl" and "rust_string code"
  shows "\<exists>s. or_internal (store_otp (e_redis E) p code ttl) a = (Ok (), a\<lparr>ap_redis := s\<rparr>) \<and>
    (stored_code E (a\<lparr>ap_redis := s\<rparr>) p = Some code \<and> code_readable E (a\<lparr>ap_redis := s\<rparr>) p)"
proof (rule or_internal_run)
  from codes.issue [OF env_ready [OF assms(1)] assms(2,3), of p "ap_redis a"] obtain s' where
    "store_otp (e_redis E) p code ttl (ap_redis a) = (Ok (), s')"
    "(\<lambda>k. text_at (r_look (e_redis E) s') (''otp:'' @ k)) =
      (\<lambda>k. text_at (r_look (e_redis E) (ap_redis a)) (''otp:'' @ k))(p \<mapsto> code)"
    "texts (r_look (e_redis E) s') (''otp:'' @ p)" by auto
  then show "\<exists>s'. store_otp (e_redis E) p code ttl (ap_redis a) = (Ok (), s') \<and>
      (stored_code E (a\<lparr>ap_redis := s'\<rparr>) p = Some code \<and> code_readable E (a\<lparr>ap_redis := s'\<rparr>) p)"
    by (intro exI [of _ s']) (simp add: stored_code_def code_readable_def fun_eq_iff)
qed

lemma verify_otp_app:
  fixes E :: "('s, 't) env"
  assumes "env_ok E" and "code_readable E a p"
  shows "\<exists>s. or_internal (verify_otp (e_redis E) p c) a = (Ok (stored_code E a p = Some c), a\<lparr>ap_redis := s\<rparr>) \<and>
    (stored_code E (a\<lparr>ap_redis := s\<rparr>) p = (if stored_code E a p = Some c then None else stored_code E a p) \<and>
     code_readable E (a\<lparr>ap_redis := s\<rparr>) p)"
proof (rule or_internal_run)
  have "texts (r_look (snd (e_fuel E, e_redis E)) (ap_redis a)) (''otp:'' @ p)"
    using assms(2) by (simp add: code_readable_def look_of_def)
  from codes.redeem [OF env_ready [OF assms(1)] this, of c] obtain s' where
    "verify_otp (e_redis E) p c (ap_redis a) = (Ok (opens_code (stored_code E a p) c), s')"
    "(\<lambda>k. text_at (r_look (e_redis E) s') (''otp:'' @ k)) =
      (if opens_code (stored_code E a p) c then (\<lambda>k. text_at (r_look (e_redis E) (ap_redis a)) (''otp:'' @ k))(p := None)
       else (\<lambda>k. text_at (r_look (e_redis E) (ap_redis a)) (''otp:'' @ k)))"
    "texts (r_look (e_redis E) s') (''otp:'' @ p)"
    using assms(2) by (auto simp: code_readable_def stored_code_def look_of_def)
  then show "\<exists>s'. verify_otp (e_redis E) p c (ap_redis a) = (Ok (stored_code E a p = Some c), s') \<and>
      (stored_code E (a\<lparr>ap_redis := s'\<rparr>) p = (if stored_code E a p = Some c then None else stored_code E a p) \<and>
       code_readable E (a\<lparr>ap_redis := s'\<rparr>) p)"
    by (intro exI [of _ s']) (auto simp: stored_code_def code_readable_def opens_code_def look_of_def fun_eq_iff split: if_splits)
qed

lemma store_token_app:
  fixes E :: "('s, 't) env"
  assumes "env_ok E" and "0 < ttl"
  shows "\<exists>s. or_internal (store_verification_token (e_redis E) t p ttl) a = (Ok (), a\<lparr>ap_redis := s\<rparr>) \<and>
    r_look (e_redis E) s = (look_of E a)(''otp_verified:'' @ t \<mapsto> (str_bytes p, Some ttl))"
  unfolding look_of_def store_verification_token_def Let_def
  by (rule or_internal_run, rule cmd_set_run [OF env_okD(1) [OF assms(1)] assms(2)])

lemma other_key [simp]: "''otp_verified:'' @ t \<noteq> ''otp:'' @ p" "''otp:'' @ p \<noteq> ''otp_verified:'' @ t"
  by simp_all

text \<open>One call of the endpoint.\<close>

lemma otp_verify_step:
  fixes E :: "('s, 't) env"
  assumes E: "env_ok E" and t: "code_readable E a p"
  shows "\<exists>a'. otp_verify_otp E I \<lparr>vo_phone_number = p, vo_code = c\<rparr> a =
      ((if length c \<noteq> OTP_CODE_LENGTH then Err (ValidationError ''Code must be 6 digits'')
        else if stored_code E a p = Some c then Ok \<lparr>ov_verified = True, ov_verification_token = Some (in_uuid I 0)\<rparr>
        else Ok \<lparr>ov_verified = False, ov_verification_token = None\<rparr>), a') \<and>
    code_readable E a' p \<and>
    stored_code E a' p = (if length c = OTP_CODE_LENGTH \<and> stored_code E a p = Some c then None else stored_code E a p) \<and>
    (length c = OTP_CODE_LENGTH \<and> stored_code E a p = Some c \<longrightarrow>
      look_of E a' (''otp_verified:'' @ in_uuid I 0) = Some (str_bytes p, Some 600))"
proof (cases "length c = OTP_CODE_LENGTH")
  case False
  then show ?thesis using t
    by (intro exI [of _ a]) (simp add: otp_verify_otp_def require_def OTP_CODE_LENGTH_def nat_str.simps bit_0 char_of_def)
next
  case len: True
  from verify_otp_app [OF E t, of c] obtain s where
    v: "or_internal (verify_otp (e_redis E) p c) a = (Ok (stored_code E a p = Some c), a\<lparr>ap_redis := s\<rparr>)"
      "stored_code E (a\<lparr>ap_redis := s\<rparr>) p = (if stored_code E a p = Some c then None else stored_code E a p)"
      "code_readable E (a\<lparr>ap_redis := s\<rparr>) p" by blast
  show ?thesis
  proof (cases "stored_code E a p = Some c")
    case False
    with len v show ?thesis
      by (intro exI [of _ "a\<lparr>ap_redis := s\<rparr>"]) (simp add: otp_verify_otp_def require_def bind_a_split)
  next
    case True
    have "0 < OTP_VERIFICATION_TOKEN_EXPIRY_SECONDS" by (simp add: OTP_VERIFICATION_TOKEN_EXPIRY_SECONDS_def)
    from store_token_app [OF E this, of "in_uuid I 0" p "a\<lparr>ap_redis := s\<rparr>"] obtain s' where
      w: "or_internal (store_verification_token (e_redis E) (in_uuid I 0) p OTP_VERIFICATION_TOKEN_EXPIRY_SECONDS)
          (a\<lparr>ap_redis := s\<rparr>) = (Ok (), a\<lparr>ap_redis := s'\<rparr>)"
        "r_look (e_redis E) s' = (r_look (e_redis E) s)(''otp_verified:'' @ in_uuid I 0 \<mapsto>
          (str_bytes p, Some OTP_VERIFICATION_TOKEN_EXPIRY_SECONDS))" by auto
    have "otp_verify_otp E I \<lparr>vo_phone_number = p, vo_code = c\<rparr> a =
        (Ok \<lparr>ov_verified = True, ov_verification_token = Some (in_uuid I 0)\<rparr>, a\<lparr>ap_redis := s'\<rparr>)"
      using len v(1) w(1) True by (simp add: otp_verify_otp_def require_def bind_a_split Let_def)
    moreover have "stored_code E (a\<lparr>ap_redis := s'\<rparr>) p = None" "code_readable E (a\<lparr>ap_redis := s'\<rparr>) p"
      using v(2,3) True by (simp_all add: stored_code_def code_readable_def w(2) text_at_def texts_def)
    ultimately show ?thesis using len True w(2)
      by (intro exI [of _ "a\<lparr>ap_redis := s'\<rparr>"]) (simp add: OTP_VERIFICATION_TOKEN_EXPIRY_SECONDS_def)
  qed
qed


section \<open>Properties\<close>

text \<open>Attempts at a phone number, one request after the other: which of them were answered as verified.\<close>

fun attempt_run :: "('s, 't) env \<Rightarrow> string \<Rightarrow> (inputs \<times> string) list \<Rightarrow> 's app \<Rightarrow> bool list" where
  "attempt_run E p [] a = []"
| "attempt_run E p ((I, c) # rest) a =
     (case otp_verify_otp E I \<lparr>vo_phone_number = p, vo_code = c\<rparr> a of
        (Ok answer, a') \<Rightarrow> ov_verified answer # attempt_run E p rest a'
      | (_, a') \<Rightarrow> False # attempt_run E p rest a')"

lemma attempt_run_spec:
  fixes E :: "('s, 't) env"
  assumes E: "env_ok E"
  shows "code_readable E a p \<Longrightarrow> (\<forall>code. stored_code E a p = Some code \<longrightarrow> length code = OTP_CODE_LENGTH) \<Longrightarrow>
    attempt_run E p tries a =
      (let right = (\<lambda>t. stored_code E a p = Some (snd t)) in
       map (\<lambda>_. False) (takeWhile (\<lambda>t. \<not> right t) tries) @
       (case dropWhile (\<lambda>t. \<not> right t) tries of [] \<Rightarrow> [] | _ # later \<Rightarrow> True # map (\<lambda>_. False) later))"
proof (induction tries arbitrary: a)
  case (Cons t tries)
  obtain I c where t: "t = (I, c)" by (cases t)
  from otp_verify_step [OF E Cons.prems(1), of I c] obtain a' where
    s: "otp_verify_otp E I \<lparr>vo_phone_number = p, vo_code = c\<rparr> a =
        ((if length c \<noteq> OTP_CODE_LENGTH then Err (ValidationError ''Code must be 6 digits'')
          else if stored_code E a p = Some c then Ok \<lparr>ov_verified = True, ov_verification_token = Some (in_uuid I 0)\<rparr>
          else Ok \<lparr>ov_verified = False, ov_verification_token = None\<rparr>), a')"
      "code_readable E a' p"
      "stored_code E a' p = (if length c = OTP_CODE_LENGTH \<and> stored_code E a p = Some c then None else stored_code E a p)"
    by blast
  show ?case
  proof (cases "stored_code E a p = Some c")
    case True
    with Cons.prems(2) have len: "length c = OTP_CODE_LENGTH" by blast
    have none: "stored_code E a' p = None" using s(3) len True by simp
    have "takeWhile (\<lambda>t. True) tries = tries" "dropWhile (\<lambda>t. True) tries = []"
      by (induction tries) simp_all
    with Cons.IH [OF s(2)] none have "attempt_run E p tries a' = map (\<lambda>_. False) tries" by (simp add: Let_def)
    with s(1) len True t show ?thesis by (simp add: Let_def)
  next
    case False
    then have "stored_code E a' p = stored_code E a p" using s(3) by simp
    with Cons.IH [OF s(2)] Cons.prems(2) s(1) t False show ?thesis by (simp add: Let_def)
  qed
qed simp

text \<open>
  A code opens its phone number exactly once: over any sequence of verification requests the answers
  are \<open>verified\<close> for the first request with the stored code and for no other, before or after it.
\<close>

theorem otp_verified_once:
  fixes E :: "('s, 't) env"
  assumes "env_ok E" and "code_readable E a p" and "stored_code E a p = Some code" and "length code = 6"
    and "\<forall>t \<in> set before. snd t \<noteq> code"
  shows "attempt_run E p (before @ (I, code) # later) a = replicate (length before) False @ True # replicate (length later) False"
proof -
  have "takeWhile (\<lambda>t. code \<noteq> snd t) (before @ (I, code) # later) = before \<and>
      dropWhile (\<lambda>t. code \<noteq> snd t) (before @ (I, code) # later) = (I, code) # later"
    using assms(5) by (induction before) auto
  with attempt_run_spec [OF assms(1,2), of "before @ (I, code) # later"] assms(3,4) show ?thesis
    by (simp add: OTP_CODE_LENGTH_def Let_def map_replicate_const)
qed

lemma digit_six:
  assumes "\<forall>i. in_digit I i < 10"
  shows "length (generate_otp (in_digit I) OTP_CODE_LENGTH) = OTP_CODE_LENGTH"
    "rust_string (generate_otp (in_digit I) OTP_CODE_LENGTH)"
  using generate_otp_length [OF assms] generate_otp_text [OF assms] by simp_all

text \<open>
  Proving a phone number works: a request for a well-formed number within its limits stores a fresh code of
  six digits for five minutes and, where no SMS service is configured, answers with it; presenting that code
  gives a token which names exactly that number, for ten minutes, and can be redeemed once.
\<close>

theorem otp_proves_phone:
  fixes E :: "('s, 't) env"
  assumes E: "env_ok E" and dev: "cf_twilio (e_config E) = None" and digits: "\<forall>i. in_digit I i < 10"
    and phone: "phone_ok p" "rust_string p"
    and lim: "fst (check_rate_limit (in_instant I) (''otp:'' @ p) 3 3600 (ap_limiter a))"
      "fst (check_rate_limit (in_instant I) (''otp_ip:'' @ otp_extract_ip hs) 10 3600
         (snd (check_rate_limit (in_instant I) (''otp:'' @ p) 3 3600 (ap_limiter a))))"
  shows "\<exists>code a1 a2 s3 s4.
    send_otp E I hs \<lparr>so_phone_number = p\<rparr> a =
      (Ok \<lparr>os_message = ''Verification code sent'', os_expires_in = 300, os_dev_code = Some code\<rparr>, a1) \<and>
    length code = 6 \<and>
    otp_verify_otp E I' \<lparr>vo_phone_number = p, vo_code = code\<rparr> a1 =
      (Ok \<lparr>ov_verified = True, ov_verification_token = Some (in_uuid I' 0)\<rparr>, a2) \<and>
    validate_verification_token (e_redis E) (in_uuid I' 0) (ap_redis a2) = (Ok (Some p), s3) \<and>
    validate_verification_token (e_redis E) (in_uuid I' 0) s3 = (Ok None, s4)"
proof -
  let ?code = "generate_otp (in_digit I) OTP_CODE_LENGTH"
  note code = digit_six [OF digits]
  let ?l1 = "snd (check_rate_limit (in_instant I) (''otp:'' @ p) 3 3600 (ap_limiter a))"
  let ?l2 = "snd (check_rate_limit (in_instant I) (''otp_ip:'' @ otp_extract_ip hs) 10 3600 ?l1)"
  have l1: "limit_ok I (''otp:'' @ p) 3 3600 a = (Ok True :: (hysj_error, bool) outcome, a\<lparr>ap_limiter := ?l1\<rparr>)"
    and l2: "limit_ok I (''otp_ip:'' @ otp_extract_ip hs) 10 3600 (a\<lparr>ap_limiter := ?l1\<rparr>) =
      (Ok True :: (hysj_error, bool) outcome, a\<lparr>ap_limiter := ?l2\<rparr>)"
    using lim by (simp_all add: limit_ok_def case_prod_beta)
  have "0 < OTP_EXPIRY_SECONDS" by (simp add: OTP_EXPIRY_SECONDS_def)
  from store_otp_app [OF E this code(2), of p "a\<lparr>ap_limiter := ?l2\<rparr>"] obtain s1 where
    s1: "or_internal (store_otp (e_redis E) p ?code OTP_EXPIRY_SECONDS) (a\<lparr>ap_limiter := ?l2\<rparr>) =
        (Ok (), a\<lparr>ap_limiter := ?l2, ap_redis := s1\<rparr>)"
      "stored_code E (a\<lparr>ap_limiter := ?l2, ap_redis := s1\<rparr>) p = Some ?code"
      "code_readable E (a\<lparr>ap_limiter := ?l2, ap_redis := s1\<rparr>) p" by blast
  let ?a1 = "a\<lparr>ap_limiter := ?l2, ap_redis := s1\<rparr>"
  have send: "send_otp E I hs \<lparr>so_phone_number = p\<rparr> a =
      (Ok \<lparr>os_message = ''Verification code sent'', os_expires_in = 300, os_dev_code = Some ?code\<rparr>, ?a1)"
    using l1 l2 s1(1) phone(1) dev
    by (simp add: send_otp_def Let_def bind_a_split require_def OTP_EXPIRY_SECONDS_def)
  from otp_verify_step [OF E s1(3), of I' ?code] code(1) s1(2) obtain a2 where
    v: "otp_verify_otp E I' \<lparr>vo_phone_number = p, vo_code = ?code\<rparr> ?a1 =
        (Ok \<lparr>ov_verified = True, ov_verification_token = Some (in_uuid I' 0)\<rparr>, a2)"
      "look_of E a2 (''otp_verified:'' @ in_uuid I' 0) = Some (str_bytes p, Some 600)" by auto
  let ?r = "(e_fuel E, e_redis E)"
  have t: "texts (r_look (snd ?r) (ap_redis a2)) (''otp_verified:'' @ in_uuid I' 0)"
    "text_at (r_look (snd ?r) (ap_redis a2)) (''otp_verified:'' @ in_uuid I' 0) = Some p"
    using v(2) phone(2) by (simp_all add: texts_def text_at_def look_of_def rust_string_def)
  from tokens.redeem [OF env_ready [OF E] t(1), of "()"] t obtain s3 where
    s3: "validate_verification_token (e_redis E) (in_uuid I' 0) (ap_redis a2) = (Ok (Some p), s3)"
      "(\<lambda>k. text_at (r_look (e_redis E) s3) (''otp_verified:'' @ k)) =
        (\<lambda>k. text_at (r_look (e_redis E) (ap_redis a2)) (''otp_verified:'' @ k))(in_uuid I' 0 := None)"
      "texts (r_look (e_redis E) s3) (''otp_verified:'' @ in_uuid I' 0)"
    by (auto simp: opens_token_def)
  have t3: "text_at (r_look (snd ?r) s3) (''otp_verified:'' @ in_uuid I' 0) = None"
    using fun_cong [OF s3(2), of "in_uuid I' 0"] by simp
  have "texts (r_look (snd ?r) s3) (''otp_verified:'' @ in_uuid I' 0)" using s3(3) by simp
  from tokens.redeem [OF env_ready [OF E] this, of "()"] t3 obtain s4 where
    "validate_verification_token (e_redis E) (in_uuid I' 0) s3 = (Ok None, s4)" by auto
  with send v(1) s3(1) code(1) show ?thesis unfolding OTP_CODE_LENGTH_def by blast
qed


text \<open>A store with a code in it, and a run with a wrong, the right and a replayed code.\<close>

definition coded_app :: "mem app" where
  "coded_app = toy_app\<lparr>ap_redis := [(''otp:+4712345678'', (str_bytes ''123456'', Some 300))]\<rparr>"

theorem otp_verified_once_witness:
  "attempt_run toy_env ''+4712345678'' [(toy_inputs 1, ''111111''), (toy_inputs 2, ''123456''), (toy_inputs 3, ''123456'')] coded_app
     = [False, True, False]"
proof -
  have look: "look_of toy_env coded_app (''otp:'' @ ''+4712345678'') = Some (str_bytes ''123456'', Some 300)"
    by (simp add: coded_app_def toy_env_def mem_redis_def)
  have "utf8_ok (str_bytes ''123456'')" by (rule utf8_ascii) (simp add: str_bytes_def)
  with look have "code_readable toy_env coded_app ''+4712345678''" "stored_code toy_env coded_app ''+4712345678'' = Some ''123456''"
    unfolding code_readable_def stored_code_def texts_def text_at_def look by simp_all
  from otp_verified_once [OF toy_env_ok this, of "[(toy_inputs 1, ''111111'')]" "toy_inputs 2" "[(toy_inputs 3, ''123456'')]"]
  show ?thesis by simp
qed

theorem otp_proves_phone_witness:
  "\<exists>code (a1 :: mem app) a2. send_otp toy_env (toy_inputs 0) [] \<lparr>so_phone_number = ''+4712345678''\<rparr> toy_app =
      (Ok \<lparr>os_message = ''Verification code sent'', os_expires_in = 300, os_dev_code = Some code\<rparr>, a1) \<and>
    otp_verify_otp toy_env (toy_inputs 9) \<lparr>vo_phone_number = ''+4712345678'', vo_code = code\<rparr> a1 =
      (Ok \<lparr>ov_verified = True, ov_verification_token = Some (in_uuid (toy_inputs 9) 0)\<rparr>, a2)"
proof -
  have p: "phone_ok ''+4712345678''" "rust_string ''+4712345678''"
    "cf_twilio (e_config toy_env) = None" "\<forall>i. in_digit (toy_inputs 0) i < 10"
    by (auto simp: phone_ok_def is_ascii_digit_def rust_string_def str_bytes_def toy_env_def toy_inputs_def intro!: utf8_ascii)
  have l1: "fst (check_rate_limit t k 3 w (ap_limiter toy_app))" for t k w
    using toy_limit [where m = 2] by (simp add: numeral_3_eq_3)
  have l2: "fst (check_rate_limit (in_instant (toy_inputs 0)) (''otp_ip:'' @ otp_extract_ip []) 10 3600
      (snd (check_rate_limit (in_instant (toy_inputs 0)) (''otp:'' @ ''+4712345678'') 3 3600 (ap_limiter toy_app))))"
    by (simp add: check_rate_limit_def Let_def toy_app_def app_new_def limiter_new_def stamps_def)
  from otp_proves_phone [OF toy_env_ok p(3,4,1,2) l1 l2, of "toy_inputs 9"] show ?thesis by blast
qed

end
