(* ===== verification/Auth_Properties.thy ===== *)
theory Auth_Properties
  imports Auth_Routes Otp_Properties Database_Properties
begin

text \<open>
  What routes/auth.rs promises about accounts: who registered can log in with the password and gets tokens
  that name the account, and what the second factor and the refresh endpoint do with logins and tokens.
\<close>

section \<open>Successful calls, taken apart\<close>

lemma require_OkE [simp]:
  "bind_a (require c e) f s = (Ok y, t) \<longleftrightarrow> c \<and> f () s = (Ok y, t)"
  by (simp add: require_def bind_a_split)

lemma bind_a_assoc: "bind_a (bind_a m f) g = bind_a m (\<lambda>x. bind_a (f x) g)"
  by (auto simp: bind_a_def fun_eq_iff split: prod.split outcome.split)

lemma lift_OkE [simp]:
  "bind_a (lift_o r) f s = (Ok y, t) \<longleftrightarrow> (\<exists>x. r = Ok x \<and> f x s = (Ok y, t))"
  by (cases r) (simp_all add: bind_a_split)

lemma limit_OkE:
  "bind_a (limit_ok I k m w) f a = (Ok y, t) \<longleftrightarrow>
   f (fst (check_rate_limit (in_instant I) k m (int w) (ap_limiter a)))
     (a\<lparr>ap_limiter := snd (check_rate_limit (in_instant I) k m (int w) (ap_limiter a))\<rparr>) = (Ok y, t)"
  by (simp add: bind_a_split limit_ok_def case_prod_beta)

lemma db_OkE:
  "bind_a (db q) f a = (Ok y, t) \<longleftrightarrow> (\<exists>x d. q (ap_db a) = (Ok x, d) \<and> f x (a\<lparr>ap_db := d\<rparr>) = (Ok y, t))"
proof (cases "q (ap_db a)")
  case (Pair r d)
  then show ?thesis by (cases r) (auto simp: bind_a_split db_def map_err_a_def on_db_def)
qed

text \<open>Without faults a statement runs.\<close>

lemma db_run:
  "q (ap_db a) = (Ok x, d) \<Longrightarrow> db q a = (Ok x, a\<lparr>ap_db := d\<rparr>)"
  by (simp add: db_def map_err_a_def on_db_def)

lemma store_pre_keys_frame:
  assumes "store_pre_keys now i ks d = (r, d')" and "db_faults d = []"
  shows "db_faults d' = []" "t_users (db_tables d') = t_users (db_tables d)"
    "t_devices (db_tables d') = t_devices (db_tables d)" "t_login_attempts (db_tables d') = t_login_attempts (db_tables d)"
proof -
  have "db_faults d' = [] \<and> t_users (db_tables d') = t_users (db_tables d) \<and>
      t_devices (db_tables d') = t_devices (db_tables d) \<and> t_login_attempts (db_tables d') = t_login_attempts (db_tables d)"
    if "store_pre_keys_loop now i ks n d = (r, d')" "db_faults d = []" for n
    using that
  proof (induction ks arbitrary: d n)
    case (Cons k ks)
    let ?d = "d\<lparr>db_tables := snd (insert_pre_key now i k (db_tables d))\<rparr>"
    have frame: "t_users (db_tables ?d) = t_users (db_tables d)" "t_devices (db_tables ?d) = t_devices (db_tables d)"
      "t_login_attempts (db_tables ?d) = t_login_attempts (db_tables d)" "db_faults ?d = []"
      using Cons.prems(2) by (simp_all add: insert_pre_key_def Let_def)
    show ?case
    proof (cases "fst (insert_pre_key now i k (db_tables d))")
      case (Ok u)
      then have "store_pre_keys_loop now i ks (n + 1) ?d = (r, d')"
        using Cons.prems by (simp add: bind_a_split sql_clean)
      from Cons.IH [OF this frame(4)] frame(1-3) show ?thesis by simp
    qed (use Cons.prems frame in \<open>auto simp: bind_a_split sql_clean\<close>)
  qed simp
  from this [of 0] assms show "db_faults d' = []" "t_users (db_tables d') = t_users (db_tables d)"
    "t_devices (db_tables d') = t_devices (db_tables d)" "t_login_attempts (db_tables d') = t_login_attempts (db_tables d)"
    by (simp_all add: store_pre_keys_def)
qed

section \<open>Registration\<close>

text \<open>What a successful registration leaves behind.\<close>

lemma register_leaves:
  fixes E :: "('s, 't) env" and a :: "'s app"
  assumes reg: "register E I hs req a = (Ok r, a1)" and clean: "db_faults (ap_db a) = []"
  shows "\<exists>u d h salt. hash_password (e_argon2 E) (in_salt I) (rq_password req) = Ok (h, salt) \<and>
    u_phone_number u = rq_phone_number req \<and> u_password_hash u = h \<and> \<not> u_has_2fa_enabled u \<and>
    u_phone_number u \<notin> u_phone_number ` set (t_users (db_tables (ap_db a))) \<and>
    u_id u \<notin> u_id ` set (t_users (db_tables (ap_db a))) \<and>
    d_user_id d = u_id u \<and> lr_user_id r = u_id u \<and> lr_device_id r = d_id d \<and>
    db_faults (ap_db a1) = [] \<and>
    t_users (db_tables (ap_db a1)) = t_users (db_tables (ap_db a)) @ [u] \<and>
    t_devices (db_tables (ap_db a1)) = t_devices (db_tables (ap_db a)) @ [d] \<and>
    t_login_attempts (db_tables (ap_db a1)) = t_login_attempts (db_tables (ap_db a))"
proof -
  define username where "username = (case rq_username req of Some n \<Rightarrow> n | None \<Rightarrow> '''')"
  from reg obtain h salt ik u d1 spk sig kyb dev d2 keys n d3 l where
    hash: "hash_password (e_argon2 E) (in_salt I) (rq_password req) = Ok (h, salt)" and
    user: "create_user (in_uuid I 0) (in_now I) username (rq_phone_number req) h salt ik ik (ap_db a) = (Ok u, d1)" and
    dev: "register_device (in_uuid I 1) (in_now I) (u_id u) (rq_device_name req) spk sig kyb d1 = (Ok dev, d2)" and
    keys: "store_pre_keys (in_now I) (d_id dev) keys d2 = (Ok n, d3)" and
    toks: "issue_tokens E I (u_id u) (d_id dev) (u_username u) (a\<lparr>ap_limiter := l, ap_db := d3\<rparr>) = (Ok r, a1)"
    by (auto simp: register_def Let_def limit_OkE db_OkE decode_field_def register_checks_def username_def
        bind_a_assoc case_prod_beta split: prod.splits)
  have u: "u_phone_number u = rq_phone_number req" "u_password_hash u = h" "\<not> u_has_2fa_enabled u"
      "u_phone_number u \<notin> u_phone_number ` set (t_users (db_tables (ap_db a)))"
      "u_id u \<notin> u_id ` set (t_users (db_tables (ap_db a)))"
    and d1: "d1 = (ap_db a)\<lparr>db_tables := (db_tables (ap_db a))\<lparr>t_users := t_users (db_tables (ap_db a)) @ [u]\<rparr>\<rparr>"
    using user clean by (auto simp: create_user_def sql_clean insert_user_def user_exists_def split: if_splits)
  have dv: "d_user_id dev = u_id u"
    and d2: "d2 = d1\<lparr>db_tables := (db_tables d1)\<lparr>t_devices := t_devices (db_tables d1) @ [dev]\<rparr>\<rparr>"
    using dev clean d1 by (auto simp: register_device_def sql_clean insert_device_def split: if_splits)
  have "db_faults d2 = []" using d1 d2 clean by simp
  note d3 = store_pre_keys_frame [OF keys this]
  from toks have r: "lr_user_id r = u_id u" "lr_device_id r = d_id dev" "ap_db a1 = d3"
    by (auto simp: issue_tokens_def)
  show ?thesis using hash u dv r d1 d2 d3 by (intro exI [of _ u] exI [of _ dev] exI [of _ h] exI [of _ salt]) simp
qed

lemma issue_tokens_run:
  fixes E :: "('s, 't) env"
  assumes "jwt_laws (e_jwt E)" and "jwt_encodes (e_jwt E)" and "0 \<le> in_now I" and "in_now I < 2 ^ 63"
  shows "\<exists>access refresh c c'. issue_tokens E I u d n a =
      (Ok \<lparr>lr_access_token = access, lr_refresh_token = refresh, lr_user_id = u, lr_device_id = d, lr_requires_2fa = False\<rparr>, a) \<and>
    (\<forall>now. validate_token (e_jwt E) now access (cf_jwt_secret (e_config E)) =
       (if in_now I + 900 + 60 < now then Err AuthExpired else Ok c)) \<and>
    (\<forall>now. validate_token (e_jwt E) now refresh (cf_jwt_secret (e_config E)) =
       (if in_now I + 2592000 + 60 < now then Err AuthExpired else Ok c')) \<and>
    cl_sub c = u \<and> cl_device_id c = d \<and> cl_username c = n \<and> cl_sub c' = u \<and> cl_device_id c' = d \<and> cl_username c' = n"
proof -
  from issued_tokens [OF assms(1-4), of u d n "cf_jwt_secret (e_config E)"] obtain access refresh c c' where
    t: "create_access_token (e_jwt E) (in_now I) u d n (cf_jwt_secret (e_config E)) = Ok access"
      "create_refresh_token (e_jwt E) (in_now I) u d n (cf_jwt_secret (e_config E)) = Ok refresh"
      "\<forall>now. validate_token (e_jwt E) now access (cf_jwt_secret (e_config E)) =
         (if in_now I + 900 + 60 < now then Err AuthExpired else Ok c)"
      "\<forall>now. validate_token (e_jwt E) now refresh (cf_jwt_secret (e_config E)) =
         (if in_now I + 2592000 + 60 < now then Err AuthExpired else Ok c')"
      "cl_sub c = u" "cl_device_id c = d" "cl_username c = n" "cl_sub c' = u" "cl_device_id c' = d" "cl_username c' = n"
    by (elim exE conjE)
  from t(1,2) have "issue_tokens E I u d n a =
      (Ok \<lparr>lr_access_token = access, lr_refresh_token = refresh, lr_user_id = u, lr_device_id = d, lr_requires_2fa = False\<rparr>, a)"
    by (simp add: issue_tokens_def)
  with t(3-10) show ?thesis by blast
qed


section \<open>Login\<close>

lemma bind_limit:
  "fst (check_rate_limit (in_instant I) k m (int w) (ap_limiter a)) \<Longrightarrow>
   bind_a (limit_ok I k m w) f a = f True (a\<lparr>ap_limiter := snd (check_rate_limit (in_instant I) k m (int w) (ap_limiter a))\<rparr>)"
  by (simp add: bind_a_split limit_ok_def case_prod_beta)

lemma bind_db: "q (ap_db a) = (Ok x, d) \<Longrightarrow> bind_a (db q) f a = f x (a\<lparr>ap_db := d\<rparr>)"
  by (simp add: bind_a_split db_def map_err_a_def on_db_def)

lemma bind_require: "c \<Longrightarrow> bind_a (require c e) f = f ()"
  by (simp add: require_def)

text \<open>A login of the one user with a phone number, who has one device and no second factor.\<close>

lemma login_runs:
  fixes E :: "('s, 't) env" and b :: "'s app"
  assumes W: "jwt_laws (e_jwt E)" "jwt_encodes (e_jwt E)" and now: "0 \<le> in_now I" "in_now I < 2 ^ 63"
    and lim: "fst (check_rate_limit (in_instant I) (''login:'' @ extract_ip hs) 100 60 (ap_limiter b))"
    and clean: "db_faults (ap_db b) = []"
    and quiet: "affected (\<lambda>t. la_ip_address t = extract_ip hs \<and> \<not> la_success t \<and> la_attempted_at t > in_now I - 60)
      (t_login_attempts (db_tables (ap_db b))) < 100"
    and user: "filter (\<lambda>v. u_phone_number v = phone) (t_users (db_tables (ap_db b))) = [u]"
      "filter (\<lambda>v. u_id v = u_id u) (t_users (db_tables (ap_db b))) = [u]" "\<not> u_has_2fa_enabled u"
    and pw: "verify_password (e_argon2 E) pwd (u_password_hash u) = Ok True"
    and dev: "filter (\<lambda>v. d_user_id v = u_id u) (t_devices (db_tables (ap_db b))) = [d]"
    and ip: "char_count (extract_ip hs) \<le> 45"
  shows "\<exists>r' b' c. login E I hs \<lparr>lq_phone_number = phone, lq_password = pwd, lq_device_id = None\<rparr> b = (Ok r', b') \<and>
    lr_user_id r' = u_id u \<and> lr_device_id r' = d_id d \<and> \<not> lr_requires_2fa r' \<and>
    (\<forall>t. validate_token (e_jwt E) t (lr_access_token r') (cf_jwt_secret (e_config E)) =
      (if in_now I + 900 + 60 < t then Err AuthExpired else Ok c)) \<and> cl_sub c = u_id u \<and> cl_device_id c = d_id d"
proof -
  let ?T = "db_tables (ap_db b)" and ?ip = "extract_ip hs"
  let ?b = "b\<lparr>ap_limiter := snd (check_rate_limit (in_instant I) (''login:'' @ ?ip) 100 60 (ap_limiter b))\<rparr>"
  have q1: "is_locked_out (in_now I) ?ip LOGIN_MAX LOGIN_LOCKOUT_SECONDS (ap_db ?b) = (Ok False, ap_db ?b)"
    using clean quiet by (simp add: is_locked_out_def count_recent_failures_def Let_def bind_a_split sql_clean
        LOGIN_MAX_def LOGIN_LOCKOUT_SECONDS_def not_le)
  have q2: "find_by_phone_number phone (ap_db ?b) = (Ok (Some u), ap_db ?b)"
    using clean user(1) by (simp add: find_by_phone_number_def sql_clean fetch_optional_def)
  let ?x = "\<lparr>la_ip_address = ?ip, la_user_id = Some (u_id u), la_success = True, la_attempted_at = in_now I\<rparr>"
  let ?d3 = "(ap_db b)\<lparr>db_tables := ?T\<lparr>t_login_attempts := t_login_attempts ?T @ [?x]\<rparr>\<rparr>"
  have "u_id u \<in> u_id ` set (t_users ?T)"
  proof -
    have "u \<in> set (filter (\<lambda>v. u_phone_number v = phone) (t_users ?T))" unfolding user(1) by simp
    then show ?thesis by simp
  qed
  then have q3: "record_attempt (in_now I) ?ip (Some (u_id u)) True (ap_db ?b) = (Ok (), ?d3)"
    using clean ip by (simp add: record_attempt_def sql_clean insert_attempt_def user_exists_def)
  have dv: "login_device (u_id u) None (?b\<lparr>ap_db := ?d3\<rparr>) = (Ok d, ?b\<lparr>ap_db := ?d3\<rparr>)"
    using clean dev by (simp add: find_one_device_for_user_def sql_clean fetch_one_def order_by_def
        login_device_def db_else_def map_err_a_def on_db_def)
  obtain d5 where q5: "update_last_seen (in_now I) (u_id u) ?d3 = (Ok (), d5)"
    using clean user(2) by (auto simp: update_last_seen_def bind_a_split sql_clean update_user_def affected_def rows_or_not_found_def)
  from issue_tokens_run [OF W now, of "u_id u" "d_id d" "u_username u" "?b\<lparr>ap_db := ?d3\<rparr>"] obtain access rt c c' where
    t: "issue_tokens E I (u_id u) (d_id d) (u_username u) (?b\<lparr>ap_db := ?d3\<rparr>) =
        (Ok \<lparr>lr_access_token = access, lr_refresh_token = rt, lr_user_id = u_id u, lr_device_id = d_id d, lr_requires_2fa = False\<rparr>,
         ?b\<lparr>ap_db := ?d3\<rparr>)"
      "\<forall>now. validate_token (e_jwt E) now access (cf_jwt_secret (e_config E)) =
         (if in_now I + 900 + 60 < now then Err AuthExpired else Ok c)"
      "cl_sub c = u_id u" "cl_device_id c = d_id d" by (elim exE conjE)
  let ?r = "\<lparr>lr_access_token = access, lr_refresh_token = rt, lr_user_id = u_id u, lr_device_id = d_id d, lr_requires_2fa = False\<rparr>"
  have "login E I hs \<lparr>lq_phone_number = phone, lq_password = pwd, lq_device_id = None\<rparr> b = (Ok ?r, ?b\<lparr>ap_db := d5\<rparr>)"
    using lim q1 q2 q3 q5 user(3) pw dv t(1)
    by (simp add: login_def Let_def bind_limit bind_db bind_require or_none_def bind_a_Ok LOGIN_MAX_def LOGIN_WINDOW_SECONDS_def)
  with t(2-4) show ?thesis by (intro exI [of _ ?r] exI [of _ "?b\<lparr>ap_db := d5\<rparr>"] exI [of _ c]) simp
qed


definition demo_register :: register_request where
  "demo_register = \<lparr>rq_username = Some ''alice'', rq_phone_number = ''+4712345678'', rq_password = ''password1'',
     rq_identity_public_key = ''ik'', rq_signed_pre_key = ''sp'', rq_signed_pre_key_signature = ''sg'',
     rq_kyber_public_key = ''ky'', rq_one_time_pre_keys = [''k1'', ''k2''], rq_device_name = ''phone''\<rparr>"

lemma demo_registers: "\<exists>r a1. register toy_env (toy_inputs 1000) [] demo_register toy_app = (Ok r, a1) \<and> ap_limiter a1 = [(''register:unknown'', [1000])]"
proof -
  let ?I = "toy_inputs 1000" and ?d = "\<lparr>db_tables = no_tables, db_faults = []\<rparr>"
  let ?h = "''$argon2id$'' @ bytes_str (str_bytes ''password1'')"
  let ?u = "\<lparr>u_id = in_uuid ?I 0, u_username = ''alice'', u_phone_number = ''+4712345678'', u_display_name = None,
    u_password_hash = ?h, u_salt = str_bytes ''salt'', u_identity_public_key = str_bytes ''ik'',
    u_identity_dh_public_key = str_bytes ''ik'', u_totp_secret = None, u_has_2fa_enabled = False,
    u_created_at = 1000, u_last_seen_at = 1000, u_avatar_url = None, u_status = ''online''\<rparr>"
  let ?d1 = "?d\<lparr>db_tables := no_tables\<lparr>t_users := [?u]\<rparr>\<rparr>"
  let ?v = "\<lparr>d_id = in_uuid ?I 1, d_user_id = u_id ?u, d_device_name = ''phone'', d_push_token = None,
    d_signed_pre_key = str_bytes ''sp'', d_signed_pre_key_sig = str_bytes ''sg'', d_kyber_public_key = str_bytes ''ky'',
    d_is_online = False, d_last_active_at = 1000, d_registered_at = 1000\<rparr>"
  let ?d2 = "?d1\<lparr>db_tables := (db_tables ?d1)\<lparr>t_devices := [?v]\<rparr>\<rparr>"
  have app: "ap_db toy_app = ?d" "ap_limiter toy_app = []" by (simp_all add: toy_app_def app_new_def limiter_new_def)
  have env: "e_argon2 toy_env = toy_argon2" "e_b64 toy_env = toy_b64" "e_jwt toy_env = toy_jwt" by (simp_all add: toy_env_def)
  have inp: "in_now ?I = 1000" "in_instant ?I = 1000" "in_salt ?I = ''salt''" by (simp_all add: toy_inputs_def)
  have lim: "check_rate_limit 1000 (''register:'' @ extract_ip []) 100 60 [] = (True, [(''register:unknown'', [1000])])"
    by (simp add: check_rate_limit_def extract_ip_def header_def stamps_def Let_def)
  have hash: "hash_password toy_argon2 ''salt'' ''password1'' = Ok (?h, str_bytes ''salt'')"
    by (simp add: hash_password_def toy_argon2_def)
  have user: "create_user (in_uuid ?I 0) 1000 ''alice'' ''+4712345678'' ?h (str_bytes ''salt'') (str_bytes ''ik'') (str_bytes ''ik'') ?d = (Ok ?u, ?d1)"
    by (simp add: create_user_def sql_clean insert_user_def user_exists_def no_tables_def char_count_short)
  have dev: "register_device (in_uuid ?I 1) 1000 (u_id ?u) ''phone'' (str_bytes ''sp'') (str_bytes ''sg'') (str_bytes ''ky'') ?d1 = (Ok ?v, ?d2)"
    by (simp add: register_device_def sql_clean insert_device_def device_exists_def user_exists_def no_tables_def char_count_short)
  obtain n d3 where keys: "store_pre_keys 1000 (d_id ?v) [str_bytes ''k1'', str_bytes ''k2''] ?d2 = (Ok n, d3)"
    by (simp add: store_pre_keys_def sql_clean insert_pre_key_def device_exists_def Let_def bind_a_split)
  have "0 \<le> in_now ?I" "in_now ?I < 2 ^ 63" by (simp_all add: inp)
  from issue_tokens_run [of toy_env ?I "u_id ?u" "d_id ?v" "''alice''" "toy_app\<lparr>ap_limiter := [(''register:unknown'', [1000])], ap_db := d3\<rparr>", OF _ _ this]
  obtain r where toks: "issue_tokens toy_env ?I (u_id ?u) (d_id ?v) ''alice'' (toy_app\<lparr>ap_limiter := [(''register:unknown'', [1000])], ap_db := d3\<rparr>) =
      (Ok r, toy_app\<lparr>ap_limiter := [(''register:unknown'', [1000])], ap_db := d3\<rparr>)"
    by (auto simp: env)
  have "register toy_env ?I [] demo_register toy_app = (Ok r, toy_app\<lparr>ap_limiter := [(''register:unknown'', [1000])], ap_db := d3\<rparr>)"
    using lim user dev keys toks hash app
    by (simp add: register_def Let_def bind_limit bind_db bind_require register_checks_def bind_a_assoc decode_field_def
        REGISTER_MAX_def REGISTER_WINDOW_SECONDS_def env inp demo_register_def toy_b64_def)
  then show ?thesis by simp
qed



section \<open>The second factor and refreshing\<close>

lemma sql_read_users:
  assumes "\<And>t. snd (q t) = t" and "sql q d = (r, d')"
  shows "db_tables d' = db_tables d"
  using assms(2) by (auto simp: sql_def Let_def assms(1) case_prod_beta split: sql_fault.splits list.splits)

text \<open>
  C38: With the second factor enabled the password alone gives nothing: whatever statements of the database
  fail, a login to such an account never answers with a token; it only asks for the second factor.
\<close>

theorem two_factor_login_gives_no_token:
  fixes E :: "('s, 't) env" and a :: "'s app"
  assumes "login E I hs req a = (Ok r, a')"
    and "\<forall>u \<in> set (t_users (db_tables (ap_db a))). u_phone_number u = lq_phone_number req \<longrightarrow> u_has_2fa_enabled u"
  shows "lr_access_token r = [] \<and> lr_refresh_token r = [] \<and> lr_requires_2fa r"
proof -
  let ?ip = "extract_ip hs"
  let ?d = "ap_db a"
  from assms(1) obtain d1 u d2 l v where
    q1: "is_locked_out (in_now I) ?ip LOGIN_MAX LOGIN_LOCKOUT_SECONDS ?d = (Ok False, d1)" and
    q2: "find_by_phone_number (lq_phone_number req) d1 = (Ok (Some u), d2)" and
    rest: "(if \<not> v then
        bind_a (db (record_attempt (in_now I) ?ip (Some (u_id u)) False)) (\<lambda>_. throw InvalidCredentials)
      else
        bind_a (db (record_attempt (in_now I) ?ip (Some (u_id u)) True)) (\<lambda>_.
        if u_has_2fa_enabled u then
          ret \<lparr>lr_access_token = [], lr_refresh_token = [], lr_user_id = u_id u,
            lr_device_id = nil_uuid, lr_requires_2fa = True\<rparr>
        else
          bind_a (login_device (u_id u) (lq_device_id req)) (\<lambda>device.
          bind_a (issue_tokens E I (u_id u) (d_id device) (u_username u)) (\<lambda>answer.
          bind_a (db (update_last_seen (in_now I) (u_id u))) (\<lambda>_.
          ret answer))))) (a\<lparr>ap_limiter := l, ap_db := d2\<rparr>) = (Ok r, a')"
    by (auto simp: login_def Let_def limit_OkE db_OkE or_none_def bind_a_throw split: option.splits)
  from q1 obtain n where "sql (\<lambda>t. (Ok (affected (\<lambda>x. la_ip_address x = ?ip \<and> \<not> la_success x \<and>
      la_attempted_at x > in_now I - int LOGIN_LOCKOUT_SECONDS) (t_login_attempts t)), t)) ?d = (Ok n, d1)"
    unfolding is_locked_out_def count_recent_failures_def Let_def by (auto elim!: bind_a_OkE simp: ret_def)
  then have t1: "db_tables d1 = db_tables ?d" by (rule sql_read_users [rotated]) simp
  have "u \<in> set (filter (\<lambda>x. u_phone_number x = lq_phone_number req) (t_users (db_tables d1)))"
    using q2 by (auto simp: find_by_phone_number_def sql_def Let_def fetch_optional_def case_prod_beta
        simp del: set_filter split: sql_fault.splits list.splits)
  then have "u \<in> set (t_users (db_tables d1))" "u_phone_number u = lq_phone_number req" by simp_all
  with assms(2) t1 have "u_has_2fa_enabled u" by simp
  with rest show ?thesis by (cases v) (auto simp: db_OkE throw_def bind_a_split split: prod.splits outcome.splits)
qed


definition two_factor_user :: user where
  "two_factor_user = \<lparr>u_id = ''u1'', u_username = ''alice'', u_phone_number = ''+4712345678'', u_display_name = None,
     u_password_hash = ''$argon2id$'' @ bytes_str (str_bytes ''password1''), u_salt = [], u_identity_public_key = [1],
     u_identity_dh_public_key = [1], u_totp_secret = Some [7], u_has_2fa_enabled = True, u_created_at = 0,
     u_last_seen_at = 0, u_avatar_url = None, u_status = ''online''\<rparr>"

definition two_factor_app :: "mem app" where
  "two_factor_app = toy_app\<lparr>ap_db := \<lparr>db_tables = no_tables\<lparr>t_users := [two_factor_user]\<rparr>, db_faults = []\<rparr>\<rparr>"

theorem two_factor_login_gives_no_token_witness:
  "\<exists>r a'. login toy_env (toy_inputs 2000) [] \<lparr>lq_phone_number = ''+4712345678'', lq_password = ''password1'', lq_device_id = None\<rparr>
      two_factor_app = (Ok r, a') \<and> lr_access_token r = [] \<and> lr_requires_2fa r"
proof -
  let ?I = "toy_inputs 2000" and ?u = two_factor_user
  let ?req = "\<lparr>lq_phone_number = ''+4712345678'', lq_password = ''password1'', lq_device_id = None\<rparr>"
  obtain l where lim: "check_rate_limit (in_instant ?I) (''login:'' @ extract_ip []) 100 60 (ap_limiter two_factor_app) = (True, l)"
    by (simp add: check_rate_limit_def stamps_def Let_def toy_inputs_def two_factor_app_def toy_app_def app_new_def limiter_new_def)
  let ?b = "two_factor_app\<lparr>ap_limiter := l\<rparr>"
  have tabs: "db_faults (ap_db two_factor_app) = []" "t_users (db_tables (ap_db two_factor_app)) = [?u]"
      "t_login_attempts (db_tables (ap_db two_factor_app)) = []" "u_id ?u = ''u1''" "u_phone_number ?u = ''+4712345678''"
      "u_has_2fa_enabled ?u" "u_password_hash ?u = ''$argon2id$'' @ bytes_str (str_bytes ''password1'')"
    by (simp_all add: two_factor_app_def two_factor_user_def no_tables_def)
  have ip: "char_count (extract_ip []) \<le> 45"
    using char_count_short [of "''unknown''" 45] by (simp add: extract_ip_def header_def)
  have q1: "is_locked_out (in_now ?I) (extract_ip []) LOGIN_MAX LOGIN_LOCKOUT_SECONDS (ap_db ?b) = (Ok False, ap_db ?b)"
    by (simp add: is_locked_out_def count_recent_failures_def Let_def bind_a_split sql_clean tabs affected_def LOGIN_MAX_def)
  have q2: "find_by_phone_number ''+4712345678'' (ap_db ?b) = (Ok (Some ?u), ap_db ?b)"
    by (simp add: find_by_phone_number_def sql_clean fetch_optional_def tabs)
  obtain d where q3: "record_attempt (in_now ?I) (extract_ip []) (Some ''u1'') True (ap_db ?b) = (Ok (), d)"
    using ip by (simp add: record_attempt_def sql_clean insert_attempt_def user_exists_def tabs)
  have pw: "verify_password (e_argon2 toy_env) ''password1'' (u_password_hash ?u) = Ok True"
    by (simp add: tabs verify_password_def toy_argon2_def toy_env_def)
  have l: "login toy_env ?I [] ?req two_factor_app = (Ok \<lparr>lr_access_token = [], lr_refresh_token = [], lr_user_id = ''u1'',
      lr_device_id = nil_uuid, lr_requires_2fa = True\<rparr>, ?b\<lparr>ap_db := d\<rparr>)"
    using lim pw tabs(4,6)
    by (simp add: login_def Let_def bind_limit 
        bind_db [of "is_locked_out (in_now ?I) (extract_ip []) LOGIN_MAX LOGIN_LOCKOUT_SECONDS" ?b, OF q1, unfolded LOGIN_MAX_def]
        bind_db [of "find_by_phone_number ''+4712345678''" ?b, OF q2]
        bind_db [of "record_attempt (in_now ?I) (extract_ip []) (Some ''u1'') True" ?b, OF q3]
        bind_require or_none_def LOGIN_MAX_def LOGIN_WINDOW_SECONDS_def)
  have "\<forall>u \<in> set (t_users (db_tables (ap_db two_factor_app))). u_phone_number u = lq_phone_number ?req \<longrightarrow> u_has_2fa_enabled u"
    by (simp add: tabs)
  from two_factor_login_gives_no_token [OF l this] l show ?thesis by blast
qed

text \<open>
  The refresh endpoint does not tell the two kinds of tokens apart: an access token, meant for 15
  minutes, is accepted there and exchanged for a refresh token that lives for another 30 days.
\<close>

theorem access_token_refreshes:
  fixes E :: "('s, 't) env" and a :: "'s app"
  assumes W: "jwt_laws (e_jwt E)" "jwt_encodes (e_jwt E)"
    and ids: "e_parse_uuid E u = Some u" "e_parse_uuid E d = Some d"
    and t0: "0 \<le> t0" "t0 < 2 ^ 63" and now: "t0 \<le> in_now I" "in_now I \<le> t0 + 960" "in_now I < 2 ^ 63"
    and access: "create_access_token (e_jwt E) t0 u d n (cf_jwt_secret (e_config E)) = Ok access"
  shows "\<exists>r c. refresh E I \<lparr>rf_refresh_token = access\<rparr> a = (Ok r, a) \<and>
    (\<forall>t. validate_token (e_jwt E) t (lr_refresh_token r) (cf_jwt_secret (e_config E)) =
      (if in_now I + 2592000 + 60 < t then Err AuthExpired else Ok c)) \<and> cl_sub c = u \<and> cl_device_id c = d"
proof -
  from issued_tokens [OF W t0, of u d n "cf_jwt_secret (e_config E)"] access obtain c0 where
    c0: "\<forall>t. validate_token (e_jwt E) t access (cf_jwt_secret (e_config E)) = (if t0 + 900 + 60 < t then Err AuthExpired else Ok c0)"
      "cl_sub c0 = u" "cl_device_id c0 = d" "cl_username c0 = n" by auto
  have "0 \<le> in_now I" using t0(1) now(1) by simp
  from issue_tokens_run [OF W this now(3), of u d n a] obtain access' rt c c' where
    t: "issue_tokens E I u d n a =
        (Ok \<lparr>lr_access_token = access', lr_refresh_token = rt, lr_user_id = u, lr_device_id = d, lr_requires_2fa = False\<rparr>, a)"
      "\<forall>t. validate_token (e_jwt E) t rt (cf_jwt_secret (e_config E)) =
        (if in_now I + 2592000 + 60 < t then Err AuthExpired else Ok c')"
      "cl_sub c' = u" "cl_device_id c' = d" by (elim exE conjE)
  have "validate_token (e_jwt E) (in_now I) access (cf_jwt_secret (e_config E)) = Ok c0"
    using c0(1) now(2) by simp
  then have "refresh E I \<lparr>rf_refresh_token = access\<rparr> a = issue_tokens E I u d n a"
    using c0(2-4) ids by (simp add: refresh_def ids_of_claims_def)
  with t show ?thesis by auto
qed

theorem access_token_refreshes_witness:
  "\<exists>access r. create_access_token toy_jwt 1000 dev_a dev_b ''alice'' ''secret'' = Ok access \<and>
    refresh toy_env (toy_inputs 1500) \<lparr>rf_refresh_token = access\<rparr> toy_app = (Ok r, toy_app)"
proof -
  have env: "jwt_laws (e_jwt toy_env)" "jwt_encodes (e_jwt toy_env)" "e_parse_uuid toy_env dev_a = Some dev_a"
    "e_parse_uuid toy_env dev_b = Some dev_b" by (simp_all add: toy_env_def)
  obtain access where a: "create_access_token toy_jwt 1000 dev_a dev_b ''alice'' ''secret'' = Ok access"
    using toy_jwt_laws(2) unfolding jwt_encodes_def create_access_token_def Let_def by fastforce
  then have a': "create_access_token (e_jwt toy_env) 1000 dev_a dev_b ''alice'' (cf_jwt_secret (e_config toy_env)) = Ok access"
    by (simp add: toy_env_def)
  have now: "1000 \<le> in_now (toy_inputs 1500)" "in_now (toy_inputs 1500) \<le> 1000 + 960" "in_now (toy_inputs 1500) < 2 ^ 63"
    by (simp_all add: toy_inputs_def)
  from access_token_refreshes [OF env _ _ now a', of toy_app] a show ?thesis by auto
qed

end
