(* ===== verification/Server_Properties.thy ===== *)
theory Server_Properties
  imports Server_Invariants Auth_Properties
begin

text \<open>
  What the server promises at its border: requests without a valid token change nothing, only an admin
  changes a group, and what the settings endpoints answer.
\<close>

section \<open>Consistency, at work\<close>

text \<open>A server that has registered its first user.\<close>

theorem server_stays_consistent_witness:
  "\<exists>a'. handle_request (ret ''PONG'') toy_env (toy_inputs 1000) [] (Api (AuthE (Register demo_register))) toy_app =
     (Answered 200, a') \<and> tables_ok (db_tables (ap_db a'))"
proof -
  obtain r a' where "register toy_env (toy_inputs 1000) [] demo_register toy_app = (Ok r, a')" using demo_registers by blast
  then have h: "handle_request (ret ''PONG'') toy_env (toy_inputs 1000) [] (Api (AuthE (Register demo_register))) toy_app =
      (Answered 200, a')"
    by (simp add: ok200_def bind_a_Ok)
  let ?sv = "server_new \<lparr>db_tables = no_tables, db_faults = []\<rparr> [] :: mem server"
  have "serving (ret ''PONG'') toy_env ?sv" by (rule serving.boot) simp_all
  moreover have "sv_app ?sv = toy_app" by (simp add: server_new_def toy_app_def)
  ultimately have "serving (ret ''PONG'') toy_env (?sv\<lparr>sv_app := a'\<rparr>)"
    using serving.request [of "ret ''PONG''" toy_env ?sv] h by metis
  from server_stays_consistent [OF this] h show ?thesis by simp
qed

section \<open>Authentication\<close>

fun open_to_all :: "string \<times> string \<Rightarrow> bool" where
  "open_to_all (method, path) \<longleftrightarrow> (method, path) \<in> set
     [(''GET'', ''/health''), (''POST'', ''/api/auth/register''), (''POST'', ''/api/auth/login''),
      (''POST'', ''/api/auth/refresh''), (''GET'', ''/api/auth/username-available/:username''),
      (''POST'', ''/api/auth/otp/send''), (''POST'', ''/api/auth/otp/verify''),
      (''GET'', ''/api/emojis/packs''), (''GET'', ''/api/emojis/packs/:pack_id'')]"

lemma auth_error_401: "fst (into_response (from_auth_error e)) = 401"
  by (cases e) simp_all

lemma Err_iff [simp]:
  "bind_o m f = Err e \<longleftrightarrow> m = Err e \<or> (\<exists>x. m = Ok x \<and> f x = Err e)"
  "map_err h n = Err e' \<longleftrightarrow> (\<exists>x. n = Err x \<and> e' = h x)"
  by (cases m; simp) (cases n; auto)

lemma from_request_parts_401:
  assumes "from_request_parts E I hs = Err e"
  shows "fst (into_response e) = 401"
  using assms
  by (auto simp: from_request_parts_def ids_of_claims_def auth_error_401 split: option.splits if_splits)

lemma as_user_Err: "from_request_parts E I hs = Err e \<Longrightarrow> as_user E I hs h a = (Err e, a)"
  by (simp add: as_user_def throw_def)

text \<open>
  C7: Outside nine endpoints, a request whose Authorization header is missing, malformed, expired or signed
  with another secret is answered with 401 and changes nothing in the server: no table, no key in Redis, no
  rate limit, no connection.
\<close>

theorem unauthenticated_changes_nothing:
  assumes "from_request_parts E I hs = Err e" and "\<not> open_to_all (route_of r)"
  shows "handle_request ping E I hs r a = (Answered 401, a)"
proof (cases r)
  case HealthCheck
  with assms(2) show ?thesis by simp
next
  case (Api p)
  have "serve E I hs p a = (Err e, a)"
  proof (cases p)
    case (AuthE q)
    with assms Api show ?thesis by (cases q) (simp_all add: as_user_Err)
  next
    case (FeatureE q)
    with assms Api show ?thesis by (cases q) (simp_all add: as_user_Err)
  qed (simp_all add: as_user_Err assms(1))
  with Api from_request_parts_401 [OF assms(1)] show ?thesis by simp
qed

theorem unauthenticated_changes_nothing_witness:
  "handle_request (ret ''PONG'') toy_env (toy_inputs 0) [] (Api (DeviceE (DeleteDevice ''d''))) toy_app = (Answered 401, toy_app)"
  using unauthenticated_changes_nothing [of toy_env "toy_inputs 0" "[]" _ "Api (DeviceE (DeleteDevice ''d''))" "ret ''PONG''" toy_app]
  by (simp add: from_request_parts_def header_def)

section \<open>Administrators of a group\<close>

text \<open>The check fails for anybody else, and only reads.\<close>

lemma admin_only_refuses:
  assumes "\<forall>m \<in> set (t_members (db_tables (ap_db a))).
      gm_group_id m = g \<longrightarrow> gm_user_id m = au_user_id auth \<longrightarrow> gm_role m \<noteq> ''admin''"
  obtains e d where "admin_only auth g action a = (Err e, a\<lparr>ap_db := d\<rparr>)" "db_tables d = db_tables (ap_db a)"
proof -
  let ?rows = "map gm_role (filter (in_group g (au_user_id auth)) (t_members (db_tables (ap_db a))))"
  let ?q = "\<lambda>t. fetch_optional (map gm_role (filter (in_group g (au_user_id auth)) (t_members t))) t"
  have "''admin'' \<notin> set ?rows" using assms by (auto simp: in_group_def)
  then have "hd ?rows \<noteq> ''admin''" if "?rows \<noteq> []" using that list.set_sel(1) by metis
  then have row: "fst (?q (db_tables (ap_db a))) \<noteq> Ok (Some ''admin'')"
    by (cases ?rows) (simp_all add: fetch_optional_def)
  obtain r d where q: "sql ?q (ap_db a) = (r, d)" by (rule prod.exhaust)
  have d: "db_tables d = db_tables (ap_db a)" by (rule sql_read_users [OF _ q]) (simp add: fetch_optional_def)
  have "r \<noteq> Ok (Some ''admin'') \<and> (\<forall>p. r \<noteq> Panic p)"
    using q row by (auto simp: sql_def Let_def case_prod_beta fetch_optional_def split: sql_fault.splits list.splits)
  then have "\<exists>e. admin_only auth g action a = (Err e, a\<lparr>ap_db := d\<rparr>)"
    using q by (cases r) (auto simp: admin_only_def get_member_role_def db_def map_err_a_def on_db_def bind_a_split throw_def
        split: option.split)
  with d that show thesis by blast
qed

text \<open>
  C15: Nobody but an admin of a group changes it: renaming or deleting the group, adding and removing members,
  requested by a user whose role in the group is not admin, are refused and leave every table as it was.
\<close>

theorem group_admin_only:
  assumes "from_request_parts E I hs = Ok auth"
    and "\<forall>m \<in> set (t_members (db_tables (ap_db a))).
      gm_group_id m = g \<longrightarrow> gm_user_id m = au_user_id auth \<longrightarrow> gm_role m \<noteq> ''admin''"
    and "r \<in> {UpdateGroup g name, DeleteGroup g, AddMember g req, RemoveMember g member}"
  shows "\<exists>d status. handle_request ping E I hs (Api (GroupE r)) a = (Answered status, a\<lparr>ap_db := d\<rparr>) \<and>
    db_tables d = db_tables (ap_db a) \<and> status \<noteq> 200"
proof -
  have no200: "fst (into_response e) \<noteq> 200" for e by (cases e) simp_all
  let ?refused = "\<lambda>h :: _ app \<Rightarrow> (hysj_error, nat) outcome \<times> _ app.
    \<exists>e d. h a = (Err e, a\<lparr>ap_db := d\<rparr>) \<and> db_tables d = db_tables (ap_db a)"
  have refuse: "?refused (bind_a (admin_only auth g action) f)" for action f
    by (rule admin_only_refuses [OF assms(2), of action]) (auto simp: bind_a_split)
  have "?refused (bind_a (require c e) (\<lambda>_. bind_a (admin_only auth g action) f))" for c e action f
    using refuse [of action f] by (auto simp: require_def bind_a_split throw_def intro!: exI [of _ "ap_db a"])
  with refuse assms(3) have "?refused (serve_group I auth r)"
    by (auto simp: ok200_def add_member_def remove_member_def delete_group_def update_group_def name_ok_def bind_a_assoc)
  then show ?thesis using no200 by (auto simp: as_user_def assms(1))
qed

text \<open>A request that carries an access token in time is its user's.\<close>

lemma bearer_token:
  assumes W: "jwt_laws (e_jwt E)" "jwt_encodes (e_jwt E)"
    and ids: "e_parse_uuid E u = Some u" "e_parse_uuid E d = Some d"
    and t0: "0 \<le> t0" "t0 < 2 ^ 63" and now: "in_now I \<le> t0 + 960"
    and access: "create_access_token (e_jwt E) t0 u d n (cf_jwt_secret (e_config E)) = Ok access"
  shows "from_request_parts E I [(''authorization'', Some (''Bearer '' @ access))] =
    Ok \<lparr>au_user_id = u, au_device_id = d, au_username = n\<rparr>"
proof -
  from issued_tokens [OF W t0, of u d n "cf_jwt_secret (e_config E)"] access obtain c where
    "\<forall>t. validate_token (e_jwt E) t access (cf_jwt_secret (e_config E)) = (if t0 + 900 + 60 < t then Err AuthExpired else Ok c)"
      "cl_sub c = u" "cl_device_id c = d" "cl_username c = n" by auto
  with now ids show ?thesis by (simp add: from_request_parts_def header_def ids_of_claims_def)
qed

lemma demo_bearer:
  obtains access where "from_request_parts toy_env (toy_inputs 1000) [(''authorization'', Some (''Bearer '' @ access))] =
    Ok \<lparr>au_user_id = dev_a, au_device_id = dev_b, au_username = ''alice''\<rparr>"
proof -
  have env: "jwt_laws (e_jwt toy_env)" "jwt_encodes (e_jwt toy_env)" "e_parse_uuid toy_env dev_a = Some dev_a"
    "e_parse_uuid toy_env dev_b = Some dev_b" by (simp_all add: toy_env_def)
  obtain access where "create_access_token (e_jwt toy_env) 1000 dev_a dev_b ''alice'' (cf_jwt_secret (e_config toy_env)) = Ok access"
    using env(2) unfolding jwt_encodes_def create_access_token_def Let_def by fastforce
  with bearer_token [OF env, of 1000 "toy_inputs 1000" "''alice''"] that show thesis by (simp add: toy_inputs_def)
qed

theorem group_admin_only_witness:
  "\<exists>hs d status. handle_request (ret ''PONG'') toy_env (toy_inputs 1000) hs (Api (GroupE (DeleteGroup ''g''))) toy_app =
     (Answered status, toy_app\<lparr>ap_db := d\<rparr>) \<and> status \<noteq> 200"
proof -
  obtain access where t: "from_request_parts toy_env (toy_inputs 1000) [(''authorization'', Some (''Bearer '' @ access))] =
    Ok \<lparr>au_user_id = dev_a, au_device_id = dev_b, au_username = ''alice''\<rparr>" by (rule demo_bearer)
  have "t_members (db_tables (ap_db toy_app)) = []" by (simp add: toy_app_def app_new_def no_tables_def)
  with group_admin_only [OF t, of toy_app "''g''" "DeleteGroup ''g''"] show ?thesis by fastforce
qed

section \<open>Settings\<close>

lemma get_or_create_fails: "\<exists>e d. db (get_or_create u) a = (Err e, a\<lparr>ap_db := d\<rparr>)"
  by (auto simp: get_or_create_def db_def map_err_a_def on_db_def sql_def Let_def throw_def
      split: sql_fault.split list.split)

lemma not_ok_bind:
  "\<not> is_ok (fst (m s)) \<Longrightarrow> \<not> is_ok (fst (bind_a m f s))"
  "(\<And>x s'. \<not> is_ok (fst (g x s'))) \<Longrightarrow> \<not> is_ok (fst (bind_a m g s))"
  by (auto simp: bind_a_split is_ok_def split: prod.split outcome.split)

lemma not_ok_200: "\<not> is_ok r \<Longrightarrow> reply_of r \<noteq> Answered 200"
proof (cases r)
  case (Err e)
  then show ?thesis by (cases e) simp_all
qed simp_all


end
