(* ===== verification/Interleaving.thy ===== *)
theory Interleaving
  imports Hysj_Prelude
begin

text \<open>
  Handlers that run at the same time. An \<open>async fn\<close> gives up control at every \<open>await\<close>, so between two
  commands of one handler those of others run. A \<open>task\<close> is a handler cut at these points: finished, or
  a step on the shared state that leaves the rest of the task. \<open>run_task\<close> runs a task alone, which gives
  back the \<open>act\<close> of the other theories; \<open>run_schedule\<close> runs several by a schedule of thread numbers. What
  holds for every schedule is proved thread by thread with \<open>sat\<close>, rely and guarantee over the state and
  a ghost value that only proofs see; the locale \<open>non_interfering\<close> composes the threads.
\<close>

section \<open>Tasks\<close>

datatype ('s, 'a) task = Done 'a | Step "'s \<Rightarrow> ('s, 'a) task \<times> 's"

primrec run_task :: "('s, 'a) task \<Rightarrow> 's \<Rightarrow> 'a \<times> 's" where
  "run_task (Done x) = (\<lambda>s. (x, s))"
| "run_task (Step h) = (\<lambda>s. case (map_prod run_task id \<circ> h) s of (k, s') \<Rightarrow> k s')"

primrec bind_t :: "('s, 'a) task \<Rightarrow> ('a \<Rightarrow> ('s, 'b) task) \<Rightarrow> ('s, 'b) task" where
  "bind_t (Done x) f = f x"
| "bind_t (Step h) f = Step (map_prod (\<lambda>t. bind_t t f) id \<circ> h)"

text \<open>A task on a part of the state, as a task on the whole.\<close>

primrec zoom :: "('a \<Rightarrow> 's) \<Rightarrow> ('s \<Rightarrow> 'a \<Rightarrow> 'a) \<Rightarrow> ('s, 'x) task \<Rightarrow> ('a, 'x) task" where
  "zoom get put (Done x) = Done x"
| "zoom get put (Step h) = Step (\<lambda>a. map_prod id (\<lambda>s. put s a) ((map_prod (zoom get put) id \<circ> h) (get a)))"

type_synonym ('s, 'e, 'a) async = "('s, ('e, 'a) outcome) task"

definition atom :: "('s, 'e, 'a) act \<Rightarrow> ('s, 'e, 'a) async" where
  "atom m = Step (\<lambda>s. map_prod Done id (m s))"

definition ret_t :: "'a \<Rightarrow> ('s, 'e, 'a) async" where
  "ret_t x = Done (Ok x)"

definition after :: "(('e, 'a) outcome \<Rightarrow> ('f, 'b) outcome) \<Rightarrow> ('s, 'e, 'a) async \<Rightarrow> ('s, 'f, 'b) async" where
  "after f t = bind_t t (\<lambda>r. Done (f r))"

text \<open>\<open>?\<close>, \<open>map_err\<close> and \<open>let _\<close>, as for an \<open>act\<close>.\<close>

definition seq :: "('s, 'e, 'a) async \<Rightarrow> ('a \<Rightarrow> ('s, 'e, 'b) async) \<Rightarrow> ('s, 'e, 'b) async" where
  "seq t f = bind_t t (\<lambda>r. case r of Ok x \<Rightarrow> f x | Err e \<Rightarrow> Done (Err e) | Panic p \<Rightarrow> Done (Panic p))"

definition map_err_t :: "('e \<Rightarrow> 'f) \<Rightarrow> ('s, 'e, 'a) async \<Rightarrow> ('s, 'f, 'a) async" where
  "map_err_t f = after (map_err f)"

definition catch_t :: "('s, 'e, 'a) async \<Rightarrow> 'a \<Rightarrow> ('s, 'f, 'a) async" where
  "catch_t t d = after (\<lambda>r. case r of Ok x \<Rightarrow> Ok x | Err e \<Rightarrow> Ok d | Panic p \<Rightarrow> Panic p) t"

fun for_t :: "'x list \<Rightarrow> ('x \<Rightarrow> ('s, 'e, unit) async) \<Rightarrow> ('s, 'e, unit) async" where
  "for_t [] f = ret_t ()"
| "for_t (x # xs) f = seq (f x) (\<lambda>_. for_t xs f)"

lemma task_induct [case_names Done Step, induct type: task]:
  fixes P :: "('s, 'a) task \<Rightarrow> bool"
  assumes "\<And>x. P (Done x)" and "\<And>h. (\<And>s. P (fst (h s))) \<Longrightarrow> P (Step h)"
  shows "P t"
proof (rule task.induct)
  fix h :: "'s \<Rightarrow> ('s, 'a) task \<times> 's"
  assume "\<And>r u. r \<in> range h \<Longrightarrow> u \<in> Basic_BNFs.fsts r \<Longrightarrow> P u"
  then have "P (fst (h s))" for s by (metis Basic_BNFs.fsts.intros prod.collapse rangeI)
  then show "P (Step h)" by (rule assms(2))
qed (rule assms(1))

section \<open>A task that runs alone\<close>

named_theorems alone \<open>running a task without interruption\<close>

lemma run_Step: "run_task (Step h) s = run_task (fst (h s)) (snd (h s))"
  by (simp add: case_prod_beta)

lemma run_bind_t [alone]: "run_task (bind_t t f) s = (case run_task t s of (x, s') \<Rightarrow> run_task (f x) s')"
  by (induction t arbitrary: s) (auto simp: case_prod_beta)

lemma run_zoom [alone]:
  assumes "\<And>s a. get (put s a) = s" and "\<And>a. put (get a) a = a" and "\<And>s s' a. put s (put s' a) = put s a"
  shows "run_task (zoom get put t) a = (case run_task t (get a) of (x, s) \<Rightarrow> (x, put s a))"
  by (induction t arbitrary: a) (auto simp: assms case_prod_beta)

lemma run_atom [alone]: "run_task (atom m) = m"
  by (simp add: atom_def fun_eq_iff case_prod_beta)

lemma run_ret [alone]: "run_task (ret_t x) = ret x"
  by (simp add: ret_t_def ret_def)

lemma run_Done [alone]: "run_task (Done (Ok x)) = ret x" "run_task (Done (Err e)) = throw e"
  by (simp_all add: ret_def throw_def)

lemma run_lift: "run_task (Done r) = lift_o r"
  by (simp add: lift_o_def)

lemma run_seq [alone]: "run_task (seq t f) = bind_a (run_task t) (\<lambda>x. run_task (f x))"
  by (auto simp: fun_eq_iff seq_def run_bind_t bind_a_def split: prod.split outcome.split)

lemma run_map_err [alone]: "run_task (map_err_t f t) = map_err_a f (run_task t)"
  by (auto simp: fun_eq_iff map_err_t_def after_def run_bind_t map_err_a_def split: prod.split)

lemma run_catch [alone]: "run_task (catch_t t d) = catch_a (run_task t) d"
  by (auto simp: fun_eq_iff catch_t_def after_def run_bind_t catch_a_def split: prod.split outcome.split)

lemma run_for [alone]: "run_task (for_t xs f) = for_a xs (\<lambda>x. run_task (f x))"
  by (induction xs) (simp_all add: alone)

declare run_task.simps [simp del]

section \<open>Steps on a part of the state\<close>

lemma zoom_bind_t: "zoom get put (bind_t t f) = bind_t (zoom get put t) (\<lambda>x. zoom get put (f x))"
  by (induction t) (auto simp: fun_eq_iff map_prod_def case_prod_beta)

lemma zoom_ret [simp]: "zoom get put (ret_t x) = ret_t x"
  by (simp add: ret_t_def)

lemma zoom_seq [simp]: "zoom get put (seq t f) = seq (zoom get put t) (\<lambda>x. zoom get put (f x))"
  by (simp add: seq_def zoom_bind_t outcome.case_distrib [of "zoom get put"] cong: outcome.case_cong)

lemma zoom_after [simp]: "zoom get put (after f t) = after f (zoom get put t)"
  by (simp add: after_def zoom_bind_t)

lemma zoom_atom [simp]: "zoom get put (atom m) = atom (\<lambda>a. case m (get a) of (r, s) \<Rightarrow> (r, put s a))"
  by (auto simp: atom_def fun_eq_iff map_prod_def case_prod_beta)

lemma after_atom: "after f (atom m) = atom (\<lambda>s. map_prod f id (m s))"
  by (auto simp: after_def atom_def fun_eq_iff map_prod_def case_prod_beta)

text \<open>Laws that bring the first step of a task to the front.\<close>

lemma bind_t_assoc: "bind_t (bind_t t f) g = bind_t t (\<lambda>x. bind_t (f x) g)"
  by (induction t) (auto simp: fun_eq_iff map_prod_def case_prod_beta)

lemma seq_assoc: "seq (seq t f) g = seq t (\<lambda>x. seq (f x) g)"
  unfolding seq_def bind_t_assoc
  by (rule arg_cong [where f = "bind_t t"]) (auto simp: fun_eq_iff split: outcome.split)

lemma map_err_seq: "map_err_t h (seq t f) = seq (map_err_t h t) (\<lambda>x. map_err_t h (f x))"
  unfolding seq_def map_err_t_def after_def bind_t_assoc
  by (rule arg_cong [where f = "bind_t t"]) (auto simp: fun_eq_iff split: outcome.split)

lemma map_err_atom: "map_err_t h (atom m) = atom (map_err_a h m)"
  by (simp add: map_err_t_def after_atom map_err_a_def [abs_def] map_prod_def)

lemma seq_atom: "seq (atom m) f = Step (\<lambda>s. case m s of (Ok x, s') \<Rightarrow> (f x, s') | (Err e, s') \<Rightarrow> (Done (Err e), s')
    | (Panic p, s') \<Rightarrow> (Done (Panic p), s'))"
  by (auto simp: seq_def atom_def fun_eq_iff split: prod.split outcome.split)

lemma ret_laws [simp]: "seq (ret_t x) f = f x" "map_err_t h (ret_t x) = ret_t x"
  by (simp_all add: seq_def map_err_t_def after_def ret_t_def)

lemmas task_laws = seq_assoc map_err_seq map_err_atom

section \<open>Schedules\<close>

type_synonym ('s, 'a) threads = "('s, 'a) task list \<times> 's"

text \<open>The turn of thread \<open>i\<close>; a thread that is finished does nothing.\<close>

definition turn :: "nat \<Rightarrow> ('s, 'a) threads \<Rightarrow> ('s, 'a) threads" where
  "turn i c = (case c of (ts, s) \<Rightarrow>
     if i < length ts then
       (case ts ! i of Done x \<Rightarrow> (ts, s) | Step h \<Rightarrow> (ts[i := fst (h s)], snd (h s)))
     else (ts, s))"

definition run_schedule :: "nat list \<Rightarrow> ('s, 'a) threads \<Rightarrow> ('s, 'a) threads" where
  "run_schedule is c = fold turn is c"

fun finished :: "('s, 'a) task \<Rightarrow> bool" where
  "finished (Done x) = True"
| "finished (Step h) = False"

lemma run_schedule_simps [simp]:
  "run_schedule [] c = c" "run_schedule (i # is) c = run_schedule is (turn i c)"
  "run_schedule (is @ js) c = run_schedule js (run_schedule is c)"
  by (simp_all add: run_schedule_def)

lemma turn_length [simp]: "length (fst (turn i c)) = length (fst c)"
  by (auto simp: turn_def split: prod.split task.split)

lemma run_schedule_length [simp]: "length (fst (run_schedule is c)) = length (fst c)"
  by (induction "is" arbitrary: c) simp_all

lemma turn_other: "j \<noteq> i \<Longrightarrow> fst (turn i c) ! j = fst c ! j"
  by (auto simp: turn_def split: prod.split task.split)

lemma not_scheduled: "j \<notin> set is \<Longrightarrow> fst (run_schedule is c) ! j = fst c ! j"
  by (induction "is" arbitrary: c) (simp_all add: turn_other)

text \<open>One thread runs to its end while the others wait.\<close>

lemma schedule_alone:
  assumes "i < length ts"
  shows "\<exists>n. run_schedule (replicate n i) (ts, s) = (ts[i := Done (fst (run_task (ts ! i) s))], snd (run_task (ts ! i) s))"
proof -
  have "\<exists>n. run_schedule (replicate n i) (ts[i := t], s) = (ts[i := Done (fst (run_task t s))], snd (run_task t s))" for t
  proof (induction t arbitrary: s)
    case (Done x)
    show ?case by (rule exI [of _ 0]) (simp add: run_task.simps)
  next
    case (Step h)
    from Step obtain n where "run_schedule (replicate n i) (ts[i := fst (h s)], snd (h s)) =
        (ts[i := Done (fst (run_task (fst (h s)) (snd (h s))))], snd (run_task (fst (h s)) (snd (h s))))" by blast
    moreover have "turn i (ts[i := Step h], s) = (ts[i := fst (h s)], snd (h s))"
      using assms by (simp add: turn_def)
    ultimately show ?case by (intro exI [of _ "Suc n"]) (simp add: run_Step)
  qed
  from this [of "ts ! i"] show ?thesis by simp
qed

text \<open>Whatever has run, there is a way to finish everything.\<close>

lemma schedule_completes: "\<exists>is. list_all finished (fst (run_schedule is (ts, s)))"
proof -
  have "\<exists>is. \<forall>i < n. finished (fst (run_schedule is (ts, s)) ! i)" if "n \<le> length ts" for n
    using that
  proof (induction n)
    case (Suc n)
    then obtain "is" where *: "\<forall>i < n. finished (fst (run_schedule is (ts, s)) ! i)" by auto
    obtain us u where c: "run_schedule is (ts, s) = (us, u)" by fastforce
    have n: "n < length us" using Suc.prems run_schedule_length [of "is" "(ts, s)"] by (simp add: c)
    from schedule_alone [OF n] obtain k x v where "run_schedule (replicate k n) (us, u) = (us[n := Done x], v)" by blast
    with * c n show ?case by (intro exI [of _ "is @ replicate k n"]) (auto simp: less_Suc_eq)
  qed simp
  from this [of "length ts"] show ?thesis by (simp add: list_all_length)
qed

text \<open>Every thread takes one step, in turn; then each runs to its end.\<close>

lemma schedule_round:
  assumes "\<And>i s. i < n \<Longrightarrow> I s \<Longrightarrow> \<exists>h. f i = Step h \<and> fst (h s) = g i \<and> I (snd (h s))" and "I s"
  shows "\<exists>s'. run_schedule [0 ..< n] (map f [0 ..< n], s) = (map g [0 ..< n], s') \<and> I s'"
proof -
  have "\<exists>s'. run_schedule [0 ..< k] (map f [0 ..< n], s) = (map g [0 ..< k] @ map f [k ..< n], s') \<and> I s'" if "k \<le> n" for k
    using that
  proof (induction k)
    case 0
    show ?case using assms(2) by simp
  next
    case (Suc k)
    then obtain s' where s': "run_schedule [0 ..< k] (map f [0 ..< n], s) = (map g [0 ..< k] @ map f [k ..< n], s')" "I s'"
      by auto
    from Suc.prems have k: "k < n" "[k ..< n] = k # [Suc k ..< n]" by (simp_all add: upt_conv_Cons)
    from assms(1) [OF k(1) s'(2)] obtain h where h: "f k = Step h" "fst (h s') = g k" "I (snd (h s'))" by blast
    have "turn k (map g [0 ..< k] @ map f [k ..< n], s') = (map g [0 ..< Suc k] @ map f [Suc k ..< n], snd (h s'))"
      using h k by (simp add: turn_def nth_append list_update_append)
    with s'(1) h(3) show ?case by auto
  qed
  from this [of n] show ?thesis by simp
qed

lemma schedule_finish:
  assumes "\<And>i s. i < n \<Longrightarrow> I s \<Longrightarrow> \<exists>s'. run_task (f i) s = (x i, s') \<and> I s'" and "I s"
  shows "\<exists>is s'. run_schedule is (map f [0 ..< n], s) = (map (\<lambda>i. Done (x i)) [0 ..< n], s') \<and> I s'"
proof -
  have "\<exists>is s'. run_schedule is (map f [0 ..< n], s) = (map (\<lambda>i. Done (x i)) [0 ..< k] @ map f [k ..< n], s') \<and> I s'"
    if "k \<le> n" for k
    using that
  proof (induction k)
    case 0
    show ?case using assms(2) by (intro exI [of _ "[]"]) simp
  next
    case (Suc k)
    let ?ts = "map (\<lambda>i. Done (x i)) [0 ..< k] @ map f [k ..< n]"
    from Suc obtain "is" s' where s': "run_schedule is (map f [0 ..< n], s) = (?ts, s')" "I s'" by auto
    from Suc.prems have k: "k < n" "[k ..< n] = k # [Suc k ..< n]" by (simp_all add: upt_conv_Cons)
    from assms(1) [OF k(1) s'(2)] obtain t where t: "run_task (f k) s' = (x k, t)" "I t" by blast
    have "?ts ! k = f k" "?ts[k := Done (x k)] = map (\<lambda>i. Done (x i)) [0 ..< Suc k] @ map f [Suc k ..< n]"
      using k by (simp_all add: nth_append list_update_append)
    with schedule_alone [of k ?ts s'] k(1) t(1) obtain m where
      "run_schedule (replicate m k) (?ts, s') = (map (\<lambda>i. Done (x i)) [0 ..< Suc k] @ map f [Suc k ..< n], t)" by auto
    with s'(1) t(2) show ?case by (intro exI [of _ "is @ replicate m k"]) auto
  qed
  from this [of n] show ?thesis by simp
qed

section \<open>Rely and guarantee\<close>

text \<open>
  Assertions speak of the shared state and of a ghost value, \<open>rely\<close> of what other threads may do between
  two steps, \<open>guar\<close> of what a step of this thread does. The ghost is updated by the proof, not the code.
\<close>

type_synonym ('s, 'g) assn = "'s \<times> 'g \<Rightarrow> bool"
type_synonym ('s, 'g) change = "'s \<times> 'g \<Rightarrow> 's \<times> 'g \<Rightarrow> bool"

definition stable :: "('s, 'g) change \<Rightarrow> ('s, 'g) assn \<Rightarrow> bool" where
  "stable R P \<longleftrightarrow> (\<forall>x y. P x \<longrightarrow> R x y \<longrightarrow> P y)"

inductive sat ::
    "('s, 'g) change \<Rightarrow> ('s, 'g) change \<Rightarrow> ('a \<Rightarrow> ('s, 'g) assn) \<Rightarrow> ('s, 'g) assn \<Rightarrow> ('s, 'a) task \<Rightarrow> bool"
  for R G Q where
  sat_Done: "stable R P \<Longrightarrow> stable R (Q x) \<Longrightarrow> (\<And>c. P c \<Longrightarrow> Q x c) \<Longrightarrow> sat R G Q P (Done x)"
| sat_Step: "stable R P \<Longrightarrow>
    (\<And>s g. P (s, g) \<Longrightarrow> \<exists>g' P'. G (s, g) (snd (h s), g') \<and> P' (snd (h s), g') \<and> sat R G Q P' (fst (h s))) \<Longrightarrow>
    sat R G Q P (Step h)"

inductive_cases sat_DoneE: "sat R G Q P (Done x)"
inductive_cases sat_StepE: "sat R G Q P (Step h)"

lemma sat_stable: "sat R G Q P t \<Longrightarrow> stable R P"
  by (cases rule: sat.cases) assumption

lemma sat_pre:
  assumes "sat R G Q P t" and "stable R P'" and "\<And>c. P' c \<Longrightarrow> P c"
  shows "sat R G Q P' t"
  using assms(1)
proof (cases rule: sat.cases)
  case (sat_Done x)
  with assms(2,3) show ?thesis by (blast intro: sat.sat_Done)
next
  case (sat_Step h)
  show ?thesis unfolding sat_Step(1)
    by (rule sat.sat_Step [OF assms(2)]) (rule sat_Step(3), rule assms(3))
qed

lemma sat_post:
  assumes "sat R G Q P t" and "\<And>x. stable R (Q' x)" and "\<And>x c. Q x c \<Longrightarrow> Q' x c"
  shows "sat R G Q' P t"
  using assms(1)
proof (induction rule: sat.induct)
  case (sat_Done P x)
  then show ?case using assms(2,3) by (blast intro: sat.sat_Done)
next
  case (sat_Step P h)
  show ?case
  proof (rule sat.sat_Step [OF sat_Step(1)])
    fix s g assume "P (s, g)"
    from sat_Step(2) [OF this] show "\<exists>g' P'. G (s, g) (snd (h s), g') \<and> P' (snd (h s), g') \<and> sat R G Q' P' (fst (h s))"
      by (elim exE conjE) (intro exI conjI)
  qed
qed

lemma sat_bind_t:
  assumes "sat R G M P t" and "\<And>x. sat R G Q (M x) (f x)"
  shows "sat R G Q P (bind_t t f)"
  using assms(1)
proof (induction rule: sat.induct)
  case (sat_Done P x)
  then show ?case by (simp add: sat_pre [OF assms(2) [of x]])
next
  case (sat_Step P h)
  have "\<exists>g' P'. G (s, g) (snd (map_prod (\<lambda>t. bind_t t f) id (h s)), g') \<and>
      P' (snd (map_prod (\<lambda>t. bind_t t f) id (h s)), g') \<and> sat R G Q P' (fst (map_prod (\<lambda>t. bind_t t f) id (h s)))"
    if "P (s, g)" for s g
    using sat_Step(2) [OF that] by auto
  with sat_Step(1) show ?case by (auto intro: sat.sat_Step)
qed

text \<open>What an error and a panic leave to be shown.\<close>

definition on_ok :: "('a \<Rightarrow> ('s, 'g) assn) \<Rightarrow> (('f, 'b) outcome \<Rightarrow> ('s, 'g) assn) \<Rightarrow> ('f, 'a) outcome \<Rightarrow> ('s, 'g) assn" where
  "on_ok M Q r = (case r of Ok x \<Rightarrow> M x | Err e \<Rightarrow> Q (Err e) | Panic p \<Rightarrow> Q (Panic p))"

lemma on_ok_simps [simp]:
  "on_ok M Q (Ok x) = M x" "on_ok M Q (Err e) = Q (Err e)" "on_ok M Q (Panic p) = Q (Panic p)"
  by (simp_all add: on_ok_def)

lemma on_ok_const [simp]: "on_ok (\<lambda>_. P) (\<lambda>_. P) = (\<lambda>_. P)"
  by (auto simp: fun_eq_iff on_ok_def split: outcome.split)

lemma sat_seq:
  assumes "sat R G (on_ok M Q) P t" and "\<And>x. sat R G Q (M x) (f x)" and "\<And>r. stable R (Q r)"
  shows "sat R G Q P (seq t f)"
  unfolding seq_def
proof (rule sat_bind_t [OF assms(1)])
  fix r show "sat R G Q (on_ok M Q r) (case r of Ok x \<Rightarrow> f x | Err e \<Rightarrow> Done (Err e) | Panic p \<Rightarrow> Done (Panic p))"
    using assms(2,3) by (cases r) (auto intro: sat_Done)
qed

lemma seq_Done [simp]: "seq (Done (Ok x)) f = f x" "seq (Done (Err e)) f = Done (Err e)"
  by (simp_all add: seq_def)

lemma sat_after:
  assumes "sat R G (\<lambda>r. Q (f r)) P t" and "\<And>r. stable R (Q r)"
  shows "sat R G Q P (after f t)"
  unfolding after_def by (rule sat_bind_t [OF assms(1)]) (auto intro: sat_Done assms(2))

lemma sat_ret: "stable R P \<Longrightarrow> stable R (Q (Ok x)) \<Longrightarrow> (\<And>c. P c \<Longrightarrow> Q (Ok x) c) \<Longrightarrow> sat R G Q P (ret_t x)"
  by (simp add: ret_t_def sat_Done)

lemma sat_atom:
  assumes "stable R P" and "\<And>r. stable R (Q r)"
    and "\<And>s g. P (s, g) \<Longrightarrow> \<exists>g'. G (s, g) (snd (m s), g') \<and> Q (fst (m s)) (snd (m s), g')"
  shows "sat R G Q P (atom m)"
  unfolding atom_def
proof (rule sat_Step [OF assms(1)])
  fix s g assume "P (s, g)"
  from assms(3) [OF this] obtain g' where g: "G (s, g) (snd (m s), g')" "Q (fst (m s)) (snd (m s), g')" by blast
  have "sat R G Q (Q (fst (m s))) (Done (fst (m s)))" by (rule sat_Done) (simp_all add: assms(2))
  with g show "\<exists>g' P'. G (s, g) (snd (map_prod Done id (m s)), g') \<and> P' (snd (map_prod Done id (m s)), g') \<and>
      sat R G Q P' (fst (map_prod Done id (m s)))" by auto
qed

lemma sat_for:
  assumes "\<And>x xs'. sat R G (on_ok (\<lambda>_. I xs') Q) (I (x # xs')) (f x)"
    and "\<And>c. I [] c \<Longrightarrow> Q (Ok ()) c" and "stable R (I [])" and "\<And>r. stable R (Q r)"
  shows "sat R G Q (I xs) (for_t xs f)"
proof (induction xs)
  case Nil
  show ?case using assms(2-4) by (auto intro: sat_ret)
next
  case (Cons x xs)
  show ?case unfolding for_t.simps by (rule sat_seq [OF assms(1) Cons.IH assms(4)])
qed

text \<open>What an assertion says without looking at the state can be taken as a fact.\<close>

lemma sat_pure:
  assumes "\<And>r. stable R (Q r)" and "\<phi> \<Longrightarrow> sat R G Q P t"
  shows "sat R G Q (\<lambda>c. \<phi> \<and> P c) t"
proof (cases \<phi>)
  case True
  with assms(2) show ?thesis by simp
next
  case False
  have "sat R G Q (\<lambda>_. False) t"
    by (cases t) (auto intro!: sat_Done sat_Step simp: stable_def assms(1) [unfolded stable_def])
  with False show ?thesis by simp
qed

lemma sat_ex:
  assumes "\<And>y. sat R G Q (F y) t"
  shows "sat R G Q (\<lambda>c. \<exists>y. F y c) t"
proof -
  have st: "stable R (\<lambda>c. \<exists>y. F y c)" using sat_stable [OF assms] unfolding stable_def by blast
  show ?thesis
  proof (cases t)
    case (Done x)
    have "stable R (Q x) \<and> (\<forall>c. F y c \<longrightarrow> Q x c)" for y
      using assms [of y] unfolding Done by (auto elim: sat_DoneE)
    then show ?thesis unfolding Done by (intro sat_Done st) blast+
  next
    case (Step h)
    show ?thesis unfolding Step
    proof (rule sat_Step [OF st])
      fix s g assume "\<exists>y. F y (s, g)"
      then obtain y where "F y (s, g)" by blast
      with assms [of y] show "\<exists>g' P'. G (s, g) (snd (h s), g') \<and> P' (snd (h s), g') \<and> sat R G Q P' (fst (h s))"
        unfolding Step by (auto elim: sat_StepE)
    qed
  qed
qed

lemma stable_intros [intro, simp]:
  "stable R (\<lambda>_. b)"
  "stable R P \<Longrightarrow> stable R P' \<Longrightarrow> stable R (\<lambda>c. P c \<and> P' c)"
  "(\<And>x. stable R (F x)) \<Longrightarrow> stable R (\<lambda>c. \<exists>x. F x c)"
  unfolding stable_def by blast+

lemma stable_on_ok [intro]: "(\<And>x. stable R (M x)) \<Longrightarrow> (\<And>r. stable R (Q r)) \<Longrightarrow> stable R (on_ok M Q r)"
  by (cases r) auto

text \<open>
  Threads do not interfere when the guarantee of each is within what the others rely on. Then after every
  schedule each thread still satisfies its contract, from an assertion that holds now.
\<close>

locale non_interfering =
  fixes rely :: "'p \<Rightarrow> nat \<Rightarrow> ('s, 'g) change" and guar :: "'p \<Rightarrow> nat \<Rightarrow> ('s, 'g) change"
  assumes others: "i \<noteq> j \<Longrightarrow> guar p j c c' \<Longrightarrow> rely p i c c'"
begin

definition running :: "'p \<Rightarrow> (nat \<Rightarrow> 'a \<Rightarrow> ('s, 'g) assn) \<Rightarrow> ('s, 'a) threads \<Rightarrow> 'g \<Rightarrow> bool" where
  "running p Q c g \<longleftrightarrow> (\<forall>i < length (fst c). \<exists>P. P (snd c, g) \<and> sat (rely p i) (guar p i) (Q i) P (fst c ! i))"

lemma running_turn:
  assumes "running p Q c g"
  shows "\<exists>g'. running p Q (turn i c) g'"
proof (cases "i < length (fst c) \<and> \<not> finished (fst c ! i)")
  case False
  then have "turn i c = c" by (cases c, cases "fst c ! i") (auto simp: turn_def)
  with assms show ?thesis by metis
next
  case True
  obtain ts s where c: "c = (ts, s)" by (cases c)
  with True obtain h where h: "i < length ts" "ts ! i = Step h" by (cases "ts ! i") auto
  from assms h(1) obtain P where P: "P (s, g)" "sat (rely p i) (guar p i) (Q i) P (Step h)"
    by (auto simp: running_def c h(2) [symmetric])
  from P(2) obtain g' P' where step: "guar p i (s, g) (snd (h s), g')" "P' (snd (h s), g')"
    "sat (rely p i) (guar p i) (Q i) P' (fst (h s))"
    by (rule sat_StepE) (use P(1) in blast)
  have "\<exists>P. P (snd (h s), g') \<and> sat (rely p j) (guar p j) (Q j) P (ts[i := fst (h s)] ! j)" if j: "j < length ts" for j
  proof (cases "j = i")
    case True
    with step(2,3) h(1) show ?thesis by auto
  next
    case False
    from assms j obtain Pj where Pj: "Pj (s, g)" "sat (rely p j) (guar p j) (Q j) Pj (ts ! j)"
      by (auto simp: running_def c)
    from others [OF False step(1)] Pj(1) sat_stable [OF Pj(2)] have "Pj (snd (h s), g')" by (auto simp: stable_def)
    with Pj(2) False show ?thesis by auto
  qed
  then show ?thesis using h by (intro exI [of _ g']) (simp add: running_def c turn_def)
qed

lemma running_schedule:
  assumes "running p Q c g"
  shows "\<exists>g'. running p Q (run_schedule is c) g'"
  using assms
proof (induction "is" arbitrary: c g)
  case (Cons i "is")
  from running_turn [OF Cons.prems] obtain g' where "running p Q (turn i c) g'" by blast
  from Cons.IH [OF this] show ?case by simp
qed auto

lemma running_result:
  assumes "running p Q c g" and "i < length (fst c)" and "fst c ! i = Done x"
  shows "Q i x (snd c, g)"
proof -
  from assms obtain P where "P (snd c, g)" "sat (rely p i) (guar p i) (Q i) P (Done x)"
    by (auto simp: running_def)
  then show ?thesis by (auto elim: sat_DoneE)
qed

end

end
