(* ===== verification/Handler_Tasks.thy ===== *)
theory Handler_Tasks
  imports Interleaving Ws_Properties Otp_Routes
begin

text \<open>
  The handlers that meet at a device's connection and queue, and at a one-time code, as tasks: ws/handler.rs
  (sending a message, opening a socket), ws/connection\_tracker.rs, crates/hysj-messaging/queue.rs, wipe.rs
  and otp.rs, routes/otp.rs. Every command sent to Redis or PostgreSQL and every access to the connection
  table is a step of its own. Run alone, each task is the \<open>act\<close> of the same name (\<open>tasks_alone\<close>).
\<close>

section \<open>Redis\<close>

fun scan_loop_t ::
    "nat \<Rightarrow> 's redis \<Rightarrow> string \<Rightarrow> (string list \<Rightarrow> 'acc \<Rightarrow> ('s, string, 'acc) async) \<Rightarrow> nat \<Rightarrow> 'acc \<Rightarrow>
     ('s, string, 'acc option) async" where
  "scan_loop_t 0 R pat body cursor acc = ret_t None"
| "scan_loop_t (Suc fuel) R pat body cursor acc =
     seq (atom (r_scan R cursor pat)) (\<lambda>(next_cursor, keys).
     seq (body keys acc) (\<lambda>acc'.
     if next_cursor = 0 then ret_t (Some acc')
     else scan_loop_t fuel R pat body next_cursor acc'))"

definition cmd_t :: "('s, string, 'a) async \<Rightarrow> ('s, messaging_error, 'a) async" where
  "cmd_t t = map_err_t RedisError t"

definition enqueue_t :: "'s redis \<Rightarrow> uuid \<Rightarrow> string \<Rightarrow> bytes \<Rightarrow> nat \<Rightarrow> ('s, messaging_error, unit) async" where
  "enqueue_t R recipient_device_id message_id encrypted_blob ttl_seconds =
     (let key = msg_key recipient_device_id message_id in
      seq (cmd_t (atom (r_exists R key))) (\<lambda>exists.
      if exists then ret_t ()
      else cmd_t (atom (r_set_ex R key encrypted_blob ttl_seconds))))"

fun dequeue_page_t ::
    "'s redis \<Rightarrow> string \<Rightarrow> string list \<Rightarrow> queued_message list \<Rightarrow> ('s, string, queued_message list) async" where
  "dequeue_page_t R pre [] messages = ret_t messages"
| "dequeue_page_t R pre (key # keys) messages =
     seq (atom (r_get R key)) (\<lambda>blob.
     case blob of
       None \<Rightarrow> dequeue_page_t R pre keys messages
     | Some data \<Rightarrow>
         seq (atom (r_del R [key])) (\<lambda>_.
         dequeue_page_t R pre keys
           (messages @ [\<lparr>qm_message_id = strip_prefix pre key, qm_encrypted_blob = data\<rparr>])))"

definition dequeue_all_t :: "nat \<Rightarrow> 's redis \<Rightarrow> uuid \<Rightarrow> ('s, messaging_error, queued_message list option) async" where
  "dequeue_all_t fuel R device_id =
     (let pattern = ''msg:'' @ device_id @ '':*'';
          pre = ''msg:'' @ device_id @ '':'' in
      cmd_t (scan_loop_t fuel R pattern (dequeue_page_t R pre) 0 []))"

fun wipes_page_t ::
    "'s redis \<Rightarrow> pending_wipe codec \<Rightarrow> string list \<Rightarrow> pending_wipe list \<Rightarrow> ('s, string, pending_wipe list) async" where
  "wipes_page_t R J [] wipes = ret_t wipes"
| "wipes_page_t R J (key # keys) wipes =
     seq (atom (r_get R key)) (\<lambda>data.
     case data of
       None \<Rightarrow> wipes_page_t R J keys wipes
     | Some bs \<Rightarrow>
         (case from_json J bs of
            Inr wipe \<Rightarrow> wipes_page_t R J keys (wipes @ [wipe])
          | Inl e \<Rightarrow> wipes_page_t R J keys wipes))"

definition get_pending_wipes_t ::
    "nat \<Rightarrow> 's redis \<Rightarrow> pending_wipe codec \<Rightarrow> uuid \<Rightarrow> ('s, messaging_error, pending_wipe list option) async" where
  "get_pending_wipes_t fuel R J device_id =
     cmd_t (scan_loop_t fuel R (''wipe:'' @ device_id @ '':*'') (wipes_page_t R J) 0 [])"

definition verify_otp_t :: "'s redis \<Rightarrow> string \<Rightarrow> string \<Rightarrow> ('s, messaging_error, bool) async" where
  "verify_otp_t R phone_number code =
     (let key = ''otp:'' @ phone_number in
      seq (cmd_t (atom (get_string R key))) (\<lambda>stored.
      case stored of
        Some stored_code \<Rightarrow>
          if stored_code = code then seq (cmd_t (atom (r_del R [key]))) (\<lambda>_. ret_t True)
          else ret_t False
      | None \<Rightarrow> ret_t False))"

section \<open>The server\<close>

definition on_redis_t :: "('s, 'x) task \<Rightarrow> ('s app, 'x) task" where
  "on_redis_t = zoom ap_redis (\<lambda>s a. a\<lparr>ap_redis := s\<rparr>)"

text \<open>The entry is looked up and the text sent under one lock; a stale entry is removed under another.\<close>

definition send_through :: "('s, 't) env \<Rightarrow> uuid \<Rightarrow> ws_message \<Rightarrow> ('s app, unit, bool) act" where
  "send_through E device_id message = (\<lambda>a.
     case map_of (ap_connections a) device_id of
       Some sender \<Rightarrow>
         (case to_json (e_ws_json E) message of
            Inl e \<Rightarrow> (Err (), a)
          | Inr json \<Rightarrow>
              if ch_receiving (ap_channels a sender) then (Ok True, push_frame sender (bytes_str json) a)
              else (Ok False, a))
     | None \<Rightarrow> (Err (), a))"

definition send_to_device_t :: "('s, 't) env \<Rightarrow> uuid \<Rightarrow> ws_message \<Rightarrow> ('s app, unit, unit) async" where
  "send_to_device_t E device_id message =
     seq (atom (send_through E device_id message)) (\<lambda>sent.
     if sent then ret_t ()
     else seq (atom (mod_s (drop_connection device_id))) (\<lambda>_. Done (Err ())))"

definition try_send_t :: "('s, 't) env \<Rightarrow> uuid \<Rightarrow> ws_message \<Rightarrow> ('s app, 'e, unit) async" where
  "try_send_t E device_id message = catch_t (send_to_device_t E device_id message) ()"

definition delivered_to_t :: "('s, 't) env \<Rightarrow> uuid \<Rightarrow> ws_message \<Rightarrow> ('s app, 'e, bool) async" where
  "delivered_to_t E device_id message =
     catch_t (seq (send_to_device_t E device_id message) (\<lambda>_. ret_t True)) False"

definition send_push_notification_t ::
    "('s, 't) env \<Rightarrow> string \<Rightarrow> uuid \<Rightarrow> string \<Rightarrow> string \<Rightarrow> ('s app, string, unit) async" where
  "send_push_notification_t E fcm_server_key device_id title body =
     seq (on_redis_t (atom (get_string (e_redis E) (push_key device_id ''fcm'')))) (\<lambda>token.
     case token of
       None \<Rightarrow> ret_t ()
     | Some t \<Rightarrow>
         (case e_http E \<lparr>hp_url = ''https://fcm.googleapis.com/fcm/send'', hp_auth = ''key='' @ fcm_server_key,
             hp_fields = push_payload t title body\<rparr> of
            Inl e \<Rightarrow> Done (Err (''FCM request failed: '' @ e))
          | Inr status \<Rightarrow> ret_t ()))"

definition notify_offline_t :: "('s, 't) env \<Rightarrow> uuid \<Rightarrow> ('s app, string, unit) async" where
  "notify_offline_t E device_id =
     (case cf_fcm_server_key (e_config E) of
        Some fcm_key \<Rightarrow> catch_t (send_push_notification_t E fcm_key device_id ''Hysj'' ''New message'') ()
      | None \<Rightarrow> ret_t ())"

definition on_send_message_t :: "('s, 't) env \<Rightarrow> encrypted_envelope \<Rightarrow> ('s app, string, unit) async" where
  "on_send_message_t E envelope =
     (let recipient_device_id = en_recipient_device_id envelope;
          message_id = en_message_id envelope;
          ttl = message_ttl envelope in
      seq (delivered_to_t E recipient_device_id (SendMessage envelope)) (\<lambda>delivered.
      if delivered then ret_t ()
      else
        seq (Done (of_sum id (to_json (e_envelope_json E) envelope))) (\<lambda>blob.
        seq (map_err_t messaging_error_str
          (on_redis_t (enqueue_t (e_redis E) recipient_device_id message_id blob ttl))) (\<lambda>_.
        notify_offline_t E recipient_device_id))))"

definition deliver_queued_t :: "('s, 't) env \<Rightarrow> uuid \<Rightarrow> queued_message \<Rightarrow> ('s app, 'e, unit) async" where
  "deliver_queued_t E device_id queued =
     (case from_json (e_envelope_json E) (qm_encrypted_blob queued) of
        Inr envelope \<Rightarrow> try_send_t E device_id (SendMessage envelope)
      | Inl e \<Rightarrow> atom (send_raw device_id (qm_encrypted_blob queued)))"

definition returned_t :: "'a option \<Rightarrow> ('s, 'e, 'a) async" where
  "returned_t r = (case r of Some x \<Rightarrow> ret_t x | None \<Rightarrow> Done (Panic ''the scan did not end''))"

definition deliver_pending_messages_t :: "('s, 't) env \<Rightarrow> uuid \<Rightarrow> ('s app, 'e, unit) async" where
  "deliver_pending_messages_t E device_id =
     seq (catch_t (seq (on_redis_t (dequeue_all_t (e_fuel E) (e_redis E) device_id)) (\<lambda>r.
       seq (returned_t r) (\<lambda>messages. ret_t (Some messages)))) None) (\<lambda>result.
     case result of
       Some messages \<Rightarrow> for_t messages (deliver_queued_t E device_id)
     | None \<Rightarrow> ret_t ())"

definition deliver_pending_wipes_t :: "('s, 't) env \<Rightarrow> uuid \<Rightarrow> ('s app, 'e, unit) async" where
  "deliver_pending_wipes_t E device_id =
     seq (catch_t (seq (on_redis_t (get_pending_wipes_t (e_fuel E) (e_redis E) (e_wipe_json E) device_id)) (\<lambda>r.
       seq (returned_t r) (\<lambda>wipes. ret_t (Some wipes)))) None) (\<lambda>result.
     case result of
       Some wipes \<Rightarrow> for_t wipes (\<lambda>wipe. try_send_t E device_id (WipeCommand (pw_command wipe)))
     | None \<Rightarrow> ret_t ())"

definition open_socket_t :: "('s, 't) env \<Rightarrow> inputs \<Rightarrow> uuid \<Rightarrow> nat \<Rightarrow> ('s app, 'e, unit) async" where
  "open_socket_t E I device_id c =
     seq (atom (mod_s (set_channel c (\<lambda>_. \<lparr>ch_receiving = True, ch_frames = [], ch_pong = True\<rparr>)))) (\<lambda>_.
     seq (atom (mod_s (\<lambda>a. a\<lparr>ap_connections := AList.update device_id c (ap_connections a)\<rparr>))) (\<lambda>_.
     seq (atom (db_or () (set_online (in_now I) device_id True))) (\<lambda>_.
     seq (deliver_pending_messages_t E device_id) (\<lambda>_.
     deliver_pending_wipes_t E device_id))))"

definition close_socket_t :: "inputs \<Rightarrow> uuid \<Rightarrow> nat \<Rightarrow> ('s app, 'e, unit) async" where
  "close_socket_t I device_id c =
     seq (atom (mod_s (drop_connection device_id))) (\<lambda>_.
     seq (atom (mod_s (set_channel c (\<lambda>ch. ch\<lparr>ch_receiving := False\<rparr>)))) (\<lambda>_.
     atom (db_or () (set_online (in_now I) device_id False))))"

definition otp_verify_otp_t ::
    "('s, 't) env \<Rightarrow> inputs \<Rightarrow> verify_otp_request \<Rightarrow> ('s app, hysj_error, verify_otp_response) async" where
  "otp_verify_otp_t E I req =
     seq (Done (if length (vo_code req) = OTP_CODE_LENGTH then Ok ()
       else Err (ValidationError (''Code must be '' @ nat_str OTP_CODE_LENGTH @ '' digits'')))) (\<lambda>_.
     seq (map_err_t (\<lambda>e. InternalError (messaging_error_str e))
       (on_redis_t (verify_otp_t (e_redis E) (vo_phone_number req) (vo_code req)))) (\<lambda>valid.
     if \<not> valid then ret_t \<lparr>ov_verified = False, ov_verification_token = None\<rparr>
     else
       let token = in_uuid I 0 in
       seq (map_err_t (\<lambda>e. InternalError (messaging_error_str e))
         (on_redis_t (atom (store_verification_token (e_redis E) token (vo_phone_number req)
           OTP_VERIFICATION_TOKEN_EXPIRY_SECONDS)))) (\<lambda>_.
       ret_t \<lparr>ov_verified = True, ov_verification_token = Some token\<rparr>)))"

lemma cmd_t_atom [simp]: "cmd_t (atom m) = atom (cmd m)"
  by (simp add: cmd_t_def map_err_t_def after_atom cmd_def map_err_a_def [abs_def] map_prod_def)

section \<open>Run alone\<close>

lemma run_on_redis [alone]: "run_task (on_redis_t t) = on_redis (run_task t)"
  by (simp add: fun_eq_iff on_redis_t_def run_zoom on_redis_def)

lemma on_redis_t_simps [simp]:
  "on_redis_t (ret_t x) = ret_t x" "on_redis_t (seq t f) = seq (on_redis_t t) (\<lambda>x. on_redis_t (f x))"
  "on_redis_t (after h t') = after h (on_redis_t t')" "on_redis_t (atom m) = atom (on_redis m)"
  by (simp_all add: on_redis_t_def on_redis_def [abs_def])

lemma run_cmd [alone]: "run_task (cmd_t t) = cmd (run_task t)"
  by (simp add: cmd_t_def cmd_def alone)

lemma run_scan_loop [alone]:
  "run_task (scan_loop_t fuel R pat body cursor acc) = scan_loop fuel R pat (\<lambda>keys acc. run_task (body keys acc)) cursor acc"
proof (induction fuel arbitrary: cursor acc)
  case (Suc fuel)
  have "(\<lambda>x. run_task (case x of (n, keys) \<Rightarrow> seq (body keys acc) (\<lambda>acc'.
      if n = 0 then ret_t (Some acc') else scan_loop_t fuel R pat body n acc'))) =
    (\<lambda>(n, keys). bind_a (run_task (body keys acc)) (\<lambda>acc'.
      if n = 0 then ret (Some acc') else scan_loop fuel R pat (\<lambda>keys acc. run_task (body keys acc)) n acc'))"
    by (auto simp: fun_eq_iff alone Suc if_distrib [of run_task] split: prod.split cong: if_cong)
  then show ?case by (simp add: alone)
qed (simp add: alone)

lemma run_dequeue_page [alone]: "run_task (dequeue_page_t R pre keys messages) = dequeue_page R pre keys messages"
  by (induction keys arbitrary: messages) (auto simp: alone option.case_distrib [of run_task] cong: option.case_cong)

lemma run_wipes_page [alone]: "run_task (wipes_page_t R J keys wipes) = wipes_page R J keys wipes"
  by (induction keys arbitrary: wipes)
    (auto simp: alone option.case_distrib [of run_task] sum.case_distrib [of run_task] cong: option.case_cong sum.case_cong)

lemmas run_cases = option.case_distrib [of run_task] sum.case_distrib [of run_task] if_distrib [of run_task]

lemma run_send_to_device [alone]: "run_task (send_to_device_t E d m) = send_to_device E d m"
  by (auto simp: fun_eq_iff send_to_device_t_def alone run_cases bind_a_def send_through_def send_to_device_def
      split: option.split sum.split)

lemma run_returned [alone]: "run_task (returned_t r) = returned r"
  by (cases r) (simp_all add: returned_t_def returned_def alone run_lift)

lemma run_push [alone]: "run_task (send_push_notification_t E k d title body) = send_push_notification E k d title body"
  by (simp add: send_push_notification_t_def send_push_notification_def run_cases alone
      cong: option.case_cong sum.case_cong)

lemma run_notify [alone]: "run_task (notify_offline_t E d) = notify_offline E d"
  by (simp add: notify_offline_t_def notify_offline_def run_cases alone cong: option.case_cong)

lemma run_try_send [alone]: "run_task (try_send_t E d m) = try_send E d m"
  by (simp add: try_send_t_def try_send_def alone)

lemma run_enqueue [alone]: "run_task (enqueue_t R d i b ttl) = enqueue R d i b ttl"
  by (simp add: enqueue_t_def enqueue_def alone run_cases Let_def cong: if_cong)

lemma run_deliver_queued [alone]: "run_task (deliver_queued_t E d q) = deliver_queued E d q"
  by (cases "from_json (e_envelope_json E) (qm_encrypted_blob q)")
    (simp_all add: deliver_queued_t_def deliver_queued_def alone)

lemma run_pending_messages [alone]: "run_task (deliver_pending_messages_t E d) = deliver_pending_messages E d"
  by (simp add: deliver_pending_messages_t_def deliver_pending_messages_def dequeue_all_t_def dequeue_all_def
      run_cases alone cong: option.case_cong)

lemma run_pending_wipes [alone]: "run_task (deliver_pending_wipes_t E d) = deliver_pending_wipes E d"
  by (simp add: deliver_pending_wipes_t_def deliver_pending_wipes_def get_pending_wipes_t_def get_pending_wipes_def
      deliver_wipe_def [abs_def] run_cases alone cong: option.case_cong)

lemma run_verify_otp [alone]: "run_task (verify_otp_t R phone code) = verify_otp R phone code"
  by (simp add: verify_otp_t_def verify_otp_def run_cases alone Let_def cong: option.case_cong if_cong)

lemma run_send_message: "run_task (on_send_message_t E e) = on_send_message E e"
  by (simp add: on_send_message_t_def on_send_message_def delivered_to_t_def delivered_to_def messaging_text_def
      run_cases alone run_lift Let_def cong: if_cong)

lemma run_open_socket: "run_task (open_socket_t E I d c) = open_socket E I d c"
  by (simp add: open_socket_t_def open_socket_def alone)

lemma run_close_socket: "run_task (close_socket_t I d c) = close_socket I d c"
  by (simp add: close_socket_t_def close_socket_def alone)

lemma run_otp_verify_otp: "run_task (otp_verify_otp_t E I req) = otp_verify_otp E I req"
  by (cases "length (vo_code req) = OTP_CODE_LENGTH")
    (simp_all add: otp_verify_otp_t_def otp_verify_otp_def require_def or_internal_def run_cases alone Let_def cong: if_cong)

lemmas tasks_alone = run_send_message run_open_socket run_close_socket run_otp_verify_otp

end
