(* ===== verification/Interleaved_Delivery.thy ===== *)
theory Interleaved_Delivery
  imports Handler_Tasks Message_Delivery
begin

text \<open>
  Sending a message while its recipient connects. Any number of \<open>SendMessage\<close> handlers and of opening
  sockets are interleaved between their commands to Redis, PostgreSQL and the connection table. A message
  whose handler has answered is never lost: it is in the queue or on a channel of its device.
\<close>

section \<open>A loop over SCAN among other threads\<close>

text \<open>The result of a loop that has ended, in a state where \<open>F\<close> holds of it.\<close>

definition page_result :: "('x \<Rightarrow> ('s, 'g) assn) \<Rightarrow> ('e, 'x option) outcome \<Rightarrow> ('s, 'g) assn" where
  "page_result F r c \<longleftrightarrow> (\<exists>acc. r = Ok (Some acc) \<and> F acc c)"

lemma page_result_simps [simp]:
  "page_result F (Ok (Some acc)) c \<longleftrightarrow> F acc c" "\<not> page_result F (Ok None) c"
  "\<not> page_result F (Err e) c" "\<not> page_result F (Panic q) c"
  by (simp_all add: page_result_def)

lemma stable_page: "(\<And>acc. stable R (F acc)) \<Longrightarrow> stable R (page_result F r)"
  unfolding page_result_def [abs_def] by (intro stable_intros)

lemma sat_scan_loop:
  fixes R :: "'s redis" and Rl Gr :: "('s app, 'g) change"
  assumes G: "redis_good N R" and p: "plain p"
    and body: "\<And>keys acc. \<forall>k \<in> set keys. prefix p k \<Longrightarrow>
      sat Rl Gr (on_ok I (page_result I)) (I acc) (on_redis_t (body keys acc))"
    and stab: "\<And>acc. stable Rl (I acc)"
    and look: "\<And>acc a g s'. I acc (a, g) \<Longrightarrow> r_look R s' = r_look R (ap_redis a) \<Longrightarrow>
      Gr (a, g) (a\<lparr>ap_redis := s'\<rparr>, g) \<and> I acc (a\<lparr>ap_redis := s'\<rparr>, g)"
    and at: "scan_to R (p @ ''*'') 0 ss cursor" and fuel: "N \<le> length ss + fuel"
  shows "sat Rl Gr (page_result I) (I acc)
    (on_redis_t (scan_loop_t fuel R (p @ ''*'') body cursor acc))"
  using at fuel
proof (induction fuel arbitrary: ss cursor acc)
  case 0
  from scan_bound [OF G 0(1)] 0(2) show ?case by simp
next
  case (Suc fuel)
  let ?Q = "page_result I"
  let ?M = "\<lambda>v x. ((\<forall>k \<in> set (snd v). prefix p k) \<and> (\<exists>s. fst (r_scan R cursor (p @ ''*'') s) = Ok v)) \<and> I acc x"
  have Q: "stable Rl (?Q r)" for r by (rule stable_page [OF stab])
  have scan: "sat Rl Gr (on_ok ?M ?Q) (I acc) (atom (on_redis (r_scan R cursor (p @ ''*''))))"
  proof (rule sat_atom [OF stab])
    show "stable Rl (on_ok ?M ?Q r)" for r by (intro stable_on_ok stable_intros stab Q)
    fix a g assume I: "I acc (a, g)"
    obtain n ks s' where s: "r_scan R cursor (p @ ''*'') (ap_redis a) = (Ok (n, ks), s')"
      "r_look R s' = r_look R (ap_redis a)" "\<forall>k \<in> set ks. has (r_look R (ap_redis a)) k \<and> prefix p k"
      by (rule redis_scan [OF G p])
    have "\<exists>s. fst (r_scan R cursor (p @ ''*'') s) = Ok (n, ks)" using s(1) by (intro exI [of _ "ap_redis a"]) simp
    with look [OF I s(2)] s(1,3) show "\<exists>g'. Gr (a, g) (snd (on_redis (r_scan R cursor (p @ ''*'')) a), g') \<and>
        on_ok ?M ?Q (fst (on_redis (r_scan R cursor (p @ ''*'')) a)) (snd (on_redis (r_scan R cursor (p @ ''*'')) a), g')"
      by (intro exI [of _ g]) simp
  qed
  have rest: "sat Rl Gr ?Q (?M v) (on_redis_t (case v of (next_cursor, keys) \<Rightarrow>
      seq (body keys acc) (\<lambda>acc'. if next_cursor = 0 then ret_t (Some acc')
        else scan_loop_t fuel R (p @ ''*'') body next_cursor acc')))" for v
  proof (rule sat_pure [OF Q])
    obtain n ks where v: "v = (n, ks)" by (cases v)
    assume "(\<forall>k \<in> set (snd v). prefix p k) \<and> (\<exists>s. fst (r_scan R cursor (p @ ''*'') s) = Ok v)"
    then obtain s where k: "\<forall>k \<in> set ks. prefix p k" and s: "fst (r_scan R cursor (p @ ''*'') s) = Ok (n, ks)"
      using v by auto
    have "sat Rl Gr ?Q (I acc') (on_redis_t (if n = 0 then ret_t (Some acc')
        else scan_loop_t fuel R (p @ ''*'') body n acc'))" for acc'
    proof (cases "n = 0")
      case True
      then show ?thesis by (simp, intro sat_ret stab Q) auto
    next
      case False
      from Suc.IH [OF scan_to_snoc [OF Suc.prems(1) s False]] Suc.prems(2) False show ?thesis by simp
    qed
    from sat_seq [OF body [OF k] this Q] show "sat Rl Gr ?Q (I acc) (on_redis_t (case v of (next_cursor, keys) \<Rightarrow>
        seq (body keys acc) (\<lambda>acc'. if next_cursor = 0 then ret_t (Some acc')
          else scan_loop_t fuel R (p @ ''*'') body next_cursor acc')))" by (simp add: v)
  qed
  show ?case unfolding scan_loop_t.simps on_redis_t_simps by (rule sat_seq [OF scan rest Q])
qed

section \<open>What is watched\<close>

text \<open>
  One message and the devices that own channels; \<open>w_opens i\<close> is the channel that thread \<open>i\<close> opens. The
  ghost holds the channels whose thread has taken the message out of the queue and not yet sent it, and
  those that are not open yet.
\<close>

record ('s, 't) watch =
  w_env :: "('s, 't) env"
  w_message :: encrypted_envelope
  w_owner :: "nat \<Rightarrow> uuid"
  w_opens :: "nat \<Rightarrow> nat option"

type_synonym ghost = "nat set \<times> nat set"

definition w_key :: "('s, 't) watch \<Rightarrow> string" where
  "w_key W = msg_key (en_recipient_device_id (w_message W)) (en_message_id (w_message W))"

definition w_blob :: "('s, 't) watch \<Rightarrow> bytes" where
  "w_blob W = json_of (e_envelope_json (w_env W)) (w_message W)"

definition w_text :: "('s, 't) watch \<Rightarrow> string" where
  "w_text W = ws_text (w_env W) (SendMessage (w_message W))"

text \<open>The invariant, where the message is, and what no thread undoes.\<close>

fun sound :: "('s, 't) watch \<Rightarrow> ('s app, ghost) assn" where
  "sound W (a, (hold, closed)) \<longleftrightarrow>
     (\<forall>v. look_of (w_env W) a (w_key W) = Some v \<longrightarrow> fst v = w_blob W) \<and>
     (\<forall>d c. map_of (ap_connections a) d = Some c \<longrightarrow> c \<notin> closed \<and> ch_receiving (ap_channels a c) \<and> w_owner W c = d) \<and>
     (\<forall>c \<in> hold. \<exists>i. w_opens W i = Some c)"

fun reached :: "('s, 't) watch \<Rightarrow> ('s app, ghost) assn" where
  "reached W (a, (hold, closed)) \<longleftrightarrow> look_of (w_env W) a (w_key W) \<noteq> None \<or> hold \<noteq> {} \<or>
     (\<exists>c. c \<notin> closed \<and> w_owner W c = en_recipient_device_id (w_message W) \<and> w_text W \<in> set (ch_frames (ap_channels a c)))"

fun kept :: "('s, 't) watch \<Rightarrow> ('s app, ghost) change" where
  "kept W (a, (hold, closed)) (a', (hold', closed')) \<longleftrightarrow>
     (sound W (a, (hold, closed)) \<longrightarrow> sound W (a', (hold', closed'))) \<and>
     (reached W (a, (hold, closed)) \<longrightarrow> reached W (a', (hold', closed'))) \<and>
     (\<forall>d. map_of (ap_connections a) d \<noteq> None \<longrightarrow> map_of (ap_connections a') d \<noteq> None) \<and>
     (\<forall>c. c \<notin> closed \<and> ch_receiving (ap_channels a c) \<longrightarrow> c \<notin> closed' \<and> ch_receiving (ap_channels a' c))"

fun same_channel :: "nat \<Rightarrow> ghost \<Rightarrow> ghost \<Rightarrow> bool" where
  "same_channel c (hold, closed) (hold', closed') \<longleftrightarrow> (c \<in> hold \<longleftrightarrow> c \<in> hold') \<and> (c \<in> closed \<longleftrightarrow> c \<in> closed')"

definition d_rely :: "('s, 't) watch \<Rightarrow> nat \<Rightarrow> ('s app, ghost) change" where
  "d_rely W i x y \<longleftrightarrow> kept W x y \<and> (\<forall>c. w_opens W i = Some c \<longrightarrow> same_channel c (snd x) (snd y))"

definition d_guar :: "('s, 't) watch \<Rightarrow> nat \<Rightarrow> ('s app, ghost) change" where
  "d_guar W j x y \<longleftrightarrow> kept W x y \<and> (\<forall>i c. i \<noteq> j \<longrightarrow> w_opens W i = Some c \<longrightarrow> same_channel c (snd x) (snd y))"

interpretation delivery: non_interfering d_rely d_guar
  by unfold_locales (auto simp: d_rely_def d_guar_def)

text \<open>What threads assert between their steps.\<close>

definition stored :: "('s, 't) watch \<Rightarrow> bool \<Rightarrow> ('s app, ghost) assn" where
  "stored W b x \<longleftrightarrow> sound W x \<and> (b \<longrightarrow> reached W x)"

fun unopened :: "('s, 't) watch \<Rightarrow> nat \<Rightarrow> ('s app, ghost) assn" where
  "unopened W c (a, (hold, closed)) \<longleftrightarrow> sound W (a, (hold, closed)) \<and> c \<in> closed \<and> c \<notin> hold"

fun opened :: "('s, 't) watch \<Rightarrow> nat \<Rightarrow> ('s app, ghost) assn" where
  "opened W c (a, (hold, closed)) \<longleftrightarrow> sound W (a, (hold, closed)) \<and> c \<notin> closed \<and> ch_receiving (ap_channels a c) \<and> c \<notin> hold"

fun serving_device :: "('s, 't) watch \<Rightarrow> uuid \<Rightarrow> nat \<Rightarrow> bool \<Rightarrow> ('s app, ghost) assn" where
  "serving_device W d c b (a, (hold, closed)) \<longleftrightarrow> sound W (a, (hold, closed)) \<and>
     map_of (ap_connections a) d \<noteq> None \<and> (c \<in> hold \<longrightarrow> b)"

lemma d_stable [intro, simp]:
  "stable (d_rely W i) (stored W b)"
  "w_opens W i = Some c \<Longrightarrow> stable (d_rely W i) (unopened W c)"
  "w_opens W i = Some c \<Longrightarrow> stable (d_rely W i) (opened W c)"
  "w_opens W i = Some c \<Longrightarrow> stable (d_rely W i) (serving_device W d c b)"
  by (auto simp: stable_def d_rely_def stored_def simp del: sound.simps reached.simps)

section \<open>Single steps\<close>

text \<open>A step that leaves the keyspace, the connections and the channels as they are.\<close>

definition quiet :: "('s, 't) env \<Rightarrow> 's app \<Rightarrow> 's app \<Rightarrow> bool" where
  "quiet E a a' \<longleftrightarrow> look_of E a' = look_of E a \<and> ap_connections a' = ap_connections a \<and> ap_channels a' = ap_channels a"

lemma same_channel_refl [simp]: "same_channel c g g"
  by (cases g) simp

lemma quiet_step:
  assumes "quiet (w_env W) a a'"
  shows "d_guar W i (a, g) (a', g)" "stored W b (a', g) \<longleftrightarrow> stored W b (a, g)"
    "serving_device W d c b (a', g) \<longleftrightarrow> serving_device W d c b (a, g)" "opened W c (a', g) \<longleftrightarrow> opened W c (a, g)"
proof -
  have q: "look_of (w_env W) a' = look_of (w_env W) a" "ap_connections a' = ap_connections a" "ap_channels a' = ap_channels a"
    using assms by (simp_all add: quiet_def)
  have s: "sound W (a', g) \<longleftrightarrow> sound W (a, g)" by (cases g) (simp only: sound.simps q)
  have r: "reached W (a', g) \<longleftrightarrow> reached W (a, g)" by (cases g) (simp only: reached.simps q)
  show "d_guar W i (a, g) (a', g)" using s r by (cases g) (simp add: d_guar_def q del: sound.simps reached.simps)
  show "stored W b (a', g) \<longleftrightarrow> stored W b (a, g)" by (simp add: stored_def s r)
  show "serving_device W d c b (a', g) \<longleftrightarrow> serving_device W d c b (a, g)"
    using s by (cases g) (simp only: serving_device.simps q)
  show "opened W c (a', g) \<longleftrightarrow> opened W c (a, g)" using s by (cases g) (simp only: opened.simps q)
qed


text \<open>A frame written to an open channel.\<close>

lemma push_step:
  assumes "sound W (a, g)" and "map_of (ap_connections a) d = Some c'"
  shows "d_guar W i (a, g) (push_frame c' t a, g)" "sound W (push_frame c' t a, g)"
    "t = w_text W \<Longrightarrow> d = en_recipient_device_id (w_message W) \<Longrightarrow> reached W (push_frame c' t a, (hold, snd g))"
proof -
  obtain hold' closed where g: "g = (hold', closed)" by (cases g)
  have c': "c' \<notin> closed" "w_owner W c' = d" "ch_receiving (ap_channels a c')" using assms by (auto simp: g)
  have l: "look_of (w_env W) (push_frame c' t a) = look_of (w_env W) a" by (simp add: look_of_def)
  show "sound W (push_frame c' t a, g)" using assms(1) by (auto simp: g l)
  then show "d_guar W i (a, g) (push_frame c' t a, g)" by (fastforce simp: d_guar_def g l)
  show "reached W (push_frame c' t a, (hold, snd g))" if "t = w_text W" "d = en_recipient_device_id (w_message W)"
    using c' that by (auto simp: g)
qed

text \<open>A value stored in Redis, and a key deleted by the thread that opens channel \<open>c\<close>.\<close>

lemma look_update [simp]:
  "look_of E (a\<lparr>ap_redis := s\<rparr>) = r_look (e_redis E) s" "look_of E (a\<lparr>ap_channels := f\<rparr>) = look_of E a"
  "look_of E (a\<lparr>ap_connections := cs\<rparr>) = look_of E a"
  by (simp_all add: look_of_def)

lemma store_step:
  assumes "sound W (a, g)" and "r_look (e_redis (w_env W)) s' \<in> {look_of (w_env W) a, (look_of (w_env W) a)(k \<mapsto> (v, t))}"
    and "k = w_key W \<Longrightarrow> v = w_blob W"
  shows "d_guar W i (a, g) (a\<lparr>ap_redis := s'\<rparr>, g)" "sound W (a\<lparr>ap_redis := s'\<rparr>, g)"
proof -
  obtain hold closed where g: "g = (hold, closed)" by (cases g)
  let ?a = "a\<lparr>ap_redis := s'\<rparr>"
  have l: "look_of (w_env W) ?a (w_key W) = look_of (w_env W) a (w_key W) \<or>
      look_of (w_env W) ?a (w_key W) = Some (w_blob W, t)"
    using assms(2,3) by (cases "k = w_key W") auto
  show s: "sound W (?a, g)" using assms(1) l unfolding g sound.simps by auto
  moreover have "reached W (a, g) \<longrightarrow> reached W (?a, g)" using l unfolding g reached.simps by auto
  ultimately show "d_guar W i (a, g) (?a, g)"
    by (simp add: d_guar_def g del: sound.simps reached.simps)
qed

lemma delete_step:
  assumes "sound W (a, (hold, closed))" and "r_look (e_redis (w_env W)) s' = look_of (w_env W) a |` (- {k})"
    and "w_opens W i = Some c" and "\<And>j. w_opens W j = Some c \<Longrightarrow> j = i"
    and "hold' = (if k = w_key W then insert c hold else hold)"
  shows "d_guar W i (a, (hold, closed)) (a\<lparr>ap_redis := s'\<rparr>, (hold', closed))"
    and "sound W (a\<lparr>ap_redis := s'\<rparr>, (hold', closed))"
proof -
  have l: "look_of (w_env W) (a\<lparr>ap_redis := s'\<rparr>) (w_key W) = (if k = w_key W then None else look_of (w_env W) a (w_key W))"
    using assms(2) by (simp add: restrict_map_def)
  show s: "sound W (a\<lparr>ap_redis := s'\<rparr>, (hold', closed))"
    using assms(1,3,5) l by (auto split: if_splits)
  have "reached W (a, (hold, closed)) \<longrightarrow> reached W (a\<lparr>ap_redis := s'\<rparr>, (hold', closed))"
    using assms(5) l by (auto split: if_splits)
  moreover have "j \<noteq> i \<longrightarrow> w_opens W j = Some c' \<longrightarrow> same_channel c' (hold, closed) (hold', closed)" for j c'
    using assms(4,5) by (auto split: if_splits)
  ultimately show "d_guar W i (a, (hold, closed)) (a\<lparr>ap_redis := s'\<rparr>, (hold', closed))"
    using s by (auto simp: d_guar_def simp del: sound.simps reached.simps same_channel.simps)
qed

section \<open>The handler that sends\<close>

lemma stored_sound: "stored W b x \<Longrightarrow> sound W x"
  by (simp add: stored_def)

lemma stable_case [intro]:
  "(\<And>b. stable R (F b)) \<Longrightarrow> stable R (\<lambda>x. \<exists>b. r = Ok b \<and> F b x)"
  by (intro stable_intros)

text \<open>The attempt to send: the socket has the text, or there is none.\<close>

definition tried :: "('s, 't) watch \<Rightarrow> encrypted_envelope \<Rightarrow> (unit, unit) outcome \<Rightarrow> ('s app, ghost) assn" where
  "tried W e r x \<longleftrightarrow> (case r of Ok u \<Rightarrow> stored W (e = w_message W) x | Err u \<Rightarrow> stored W False x | Panic q \<Rightarrow> False)"

lemma tried_simps [simp]:
  "tried W e (Ok u) x \<longleftrightarrow> stored W (e = w_message W) x" "tried W e (Err u) x \<longleftrightarrow> stored W False x" "\<not> tried W e (Panic q) x"
  by (simp_all add: tried_def)

lemma stable_tried [intro, simp]: "stable (d_rely W i) (tried W e r)"
  by (cases r) (simp_all add: tried_def [abs_def])

lemma sat_send_through:
  fixes W :: "('s, 't) watch"
  assumes "env_ok (w_env W)"
  shows "sat (d_rely W i) (d_guar W i) (on_ok (\<lambda>sent x. sent \<and> stored W (e = w_message W) x) (tried W e)) (stored W False)
    (atom (send_through (w_env W) (en_recipient_device_id e) (SendMessage e)))"
proof (rule sat_atom)
  let ?E = "w_env W" and ?d = "en_recipient_device_id e"
  let ?G = "d_guar W i" and ?M = "\<lambda>sent x. sent \<and> stored W (e = w_message W) x"
  show "stable (d_rely W i) (on_ok ?M (tried W e) r)" for r by (intro stable_on_ok stable_intros stable_tried d_stable)
  fix a g assume P: "stored W False (a, g)"
  show "\<exists>g'. ?G (a, g) (snd (send_through ?E ?d (SendMessage e) a), g') \<and>
      on_ok ?M (tried W e) (fst (send_through ?E ?d (SendMessage e) a)) (snd (send_through ?E ?d (SendMessage e) a), g')"
  proof (cases "map_of (ap_connections a) ?d")
    case None
    then show ?thesis using P quiet_step(1) [of W a a i g] by (intro exI [of _ g]) (simp add: send_through_def quiet_def)
  next
    case (Some c')
    have ch: "ch_receiving (ap_channels a c')" using stored_sound [OF P] Some by (cases g) auto
    have st: "send_through ?E ?d (SendMessage e) a = (Ok True, push_frame c' (ws_text ?E (SendMessage e)) a)"
      using Some ch env_okD(2) [OF assms] by (simp add: send_through_def ws_text_def)
    have "stored W (e = w_message W) (push_frame c' (ws_text ?E (SendMessage e)) a, g)"
      using push_step(2) [OF stored_sound [OF P] Some, of "ws_text ?E (SendMessage e)"]
        push_step(3) [OF stored_sound [OF P] Some, of "ws_text ?E (SendMessage e)" "fst g"]
      by (auto simp: stored_def w_text_def)
    with push_step(1) [OF stored_sound [OF P] Some] show ?thesis by (intro exI [of _ g]) (simp add: st)
  qed
qed simp

lemma sat_send_to_device:
  assumes "env_ok (w_env W)"
  shows "sat (d_rely W i) (d_guar W i) (tried W e) (stored W False)
    (send_to_device_t (w_env W) (en_recipient_device_id e) (SendMessage e))"
  unfolding send_to_device_t_def
proof (rule sat_seq [OF sat_send_through [OF assms]])
  show "sat (d_rely W i) (d_guar W i) (tried W e) (\<lambda>x. sent \<and> stored W (e = w_message W) x) (if sent then ret_t ()
      else seq (atom (mod_s (drop_connection (en_recipient_device_id e)))) (\<lambda>_. Done (Err ())))" for sent
    by (rule sat_pure [OF stable_tried]) (auto intro!: sat_ret)
qed (rule stable_tried)

lemma sat_delivered:
  fixes W :: "('s, 't) watch"
  assumes "env_ok (w_env W)"
  shows "sat (d_rely W i) (d_guar W i) (\<lambda>r x. \<exists>b. (r :: (string, bool) outcome) = Ok b \<and> stored W (b \<and> e = w_message W) x)
    (stored W False) (delivered_to_t (w_env W) (en_recipient_device_id e) (SendMessage e))"
proof -
  let ?Q = "\<lambda>r x. \<exists>b. (r :: (string, bool) outcome) = Ok b \<and> stored W (b \<and> e = w_message W) x"
  let ?catch = "\<lambda>r. (case r of Ok x \<Rightarrow> Ok x | Err e \<Rightarrow> Ok False | Panic p \<Rightarrow> Panic p) :: (string, bool) outcome"
  let ?M = "on_ok (\<lambda>_. stored W (e = w_message W)) (\<lambda>r. ?Q (?catch r))"
  have "sat (d_rely W i) (d_guar W i) ?M (stored W False) (send_to_device_t (w_env W) (en_recipient_device_id e) (SendMessage e))"
  proof (rule sat_post [OF sat_send_to_device [OF assms]])
    show "stable (d_rely W i) (?M r)" for r :: "(unit, unit) outcome" by (intro stable_on_ok stable_intros d_stable)
    show "?M r x" if "tried W e r x" for r :: "(unit, unit) outcome" and x
    proof (cases r)
      case (Err u)
      with that show ?thesis unfolding Err on_ok_simps by (intro exI [of _ False]) simp
    qed (use that in simp_all)
  qed
  then have "sat (d_rely W i) (d_guar W i) (\<lambda>r. ?Q (?catch r)) (stored W False)
      (seq (send_to_device_t (w_env W) (en_recipient_device_id e) (SendMessage e)) (\<lambda>_. ret_t True))"
    by (rule sat_seq) (auto intro!: sat_ret)
  then show ?thesis unfolding delivered_to_t_def catch_t_def by (rule sat_after) (intro stable_intros d_stable)
qed

text \<open>The steps of queue.rs that store a message.\<close>

lemma sat_enqueue:
  fixes W :: "('s, 't) watch"
  assumes "env_ok (w_env W)" and "k = msg_key d i'" and "k = w_key W \<Longrightarrow> v = w_blob W"
  shows "sat (d_rely W i) (d_guar W i) (\<lambda>r. stored W (is_ok r \<and> k = w_key W)) (stored W False)
    (on_redis_t (enqueue_t (e_redis (w_env W)) d i' v ttl))"
proof -
  let ?E = "w_env W" and ?R = "d_rely W i" and ?G = "d_guar W i" and ?r = "e_redis (w_env W)"
  let ?Q = "\<lambda>r. stored W (is_ok (r :: (messaging_error, unit) outcome) \<and> k = w_key W)"
  let ?M = "\<lambda>exists. stored W (exists \<and> k = w_key W)"
  note G = env_okD(1) [OF assms(1)]
  have stab: "stable ?R (on_ok ?M ?Q r)" for r by (intro stable_on_ok d_stable)
  have E: "sat ?R ?G (on_ok ?M ?Q) (stored W False) (atom (on_redis (cmd (r_exists ?r k))))"
  proof (rule sat_atom [OF d_stable(1) stab])
    fix a g assume P: "stored W False (a, g)"
    obtain s' where s: "r_exists ?r k (ap_redis a) = (Ok (has (look_of ?E a) k), s')" "r_look ?r s' = look_of ?E a"
      unfolding look_of_def by (rule redis_exists [OF G])
    have q: "quiet ?E a (a\<lparr>ap_redis := s'\<rparr>)" by (simp add: quiet_def s(2))
    have "has (look_of ?E a) k \<and> k = w_key W \<longrightarrow> reached W (a, g)" by (cases g) (auto simp: has_def)
    with P have "stored W (has (look_of ?E a) k \<and> k = w_key W) (a\<lparr>ap_redis := s'\<rparr>, g)"
      unfolding quiet_step(2) [OF q] by (simp add: stored_def)
    with quiet_step(1) [OF q] s(1) show "\<exists>g'. ?G (a, g) (snd (on_redis (cmd (r_exists ?r k)) a), g') \<and>
        on_ok ?M ?Q (fst (on_redis (cmd (r_exists ?r k)) a)) (snd (on_redis (cmd (r_exists ?r k)) a), g')"
      by (intro exI [of _ g]) simp
  qed
  have S: "sat ?R ?G ?Q (?M False) (atom (on_redis (cmd (r_set_ex ?r k v ttl))))"
  proof (rule sat_atom [OF d_stable(1) d_stable(1)])
    fix a g assume P: "?M False (a, g)"
    obtain x s' where s: "r_set_ex ?r k v ttl (ap_redis a) = (x, s')" by fastforce
    with redis_good_commands(3) [OF G, of k v ttl "ap_redis a"]
    have l: "r_look ?r s' \<in> {look_of ?E a, (look_of ?E a)(k \<mapsto> (v, Some ttl))}"
      "is_ok x \<Longrightarrow> r_look ?r s' = (look_of ?E a)(k \<mapsto> (v, Some ttl))"
      by (auto simp: performs_def look_of_def is_ok_def split: outcome.splits)
    note st = store_step [OF stored_sound [OF P] l(1) assms(3)]
    have "is_ok (map_err RedisError x) \<and> k = w_key W \<longrightarrow> reached W (a\<lparr>ap_redis := s'\<rparr>, g)"
      using l(2) by (cases g) (auto simp: is_ok_def)
    with st s show "\<exists>g'. ?G (a, g) (snd (on_redis (cmd (r_set_ex ?r k v ttl)) a), g') \<and>
        ?Q (fst (on_redis (cmd (r_set_ex ?r k v ttl)) a)) (snd (on_redis (cmd (r_set_ex ?r k v ttl)) a), g')"
      by (intro exI [of _ g]) (simp add: on_redis_def cmd_def map_err_a_def stored_def)
  qed
  show ?thesis unfolding enqueue_t_def Let_def assms(2) [symmetric] on_redis_t_simps cmd_t_atom
  proof (rule sat_seq [OF E])
    fix exists
    show "sat ?R ?G ?Q (?M exists) (on_redis_t (if exists then ret_t () else atom (cmd (r_set_ex ?r k v ttl))))"
      using S by (cases exists) (auto intro!: sat_ret)
  qed simp
qed

text \<open>Steps that change nothing that is watched.\<close>

lemma sat_quiet:
  assumes "\<And>a. quiet (w_env W) a (snd (m a))" and "stable (d_rely W i) P"
    and "\<And>a a' g. quiet (w_env W) a a' \<Longrightarrow> P (a, g) \<Longrightarrow> P (a', g)"
  shows "sat (d_rely W i) (d_guar W i) (\<lambda>r. P) P (atom m)"
proof (rule sat_atom [OF assms(2) assms(2)])
  fix a g assume "P (a, g)"
  with assms(3) [OF assms(1)] quiet_step(1) [OF assms(1)]
  show "\<exists>g'. d_guar W i (a, g) (snd (m a), g') \<and> P (snd (m a), g')" by blast
qed

lemma get_string_quiet: "env_ok E \<Longrightarrow> quiet E a (snd (on_redis (get_string (e_redis E) k) a))"
  using get_string_look [OF env_okD(1), of E k "ap_redis a"] by (auto simp: quiet_def look_of_def)

lemma sat_notify:
  assumes "env_ok (w_env W)"
  shows "sat (d_rely W i) (d_guar W i) (\<lambda>r. stored W b) (stored W b) (notify_offline_t (w_env W) d)"
proof -
  let ?P = "stored W b" and ?E = "w_env W"
  have get: "sat (d_rely W i) (d_guar W i) (on_ok (\<lambda>_. ?P) (\<lambda>_ :: (string, unit) outcome. ?P)) ?P
      (atom (on_redis (get_string (e_redis ?E) k)))" for k
    unfolding on_ok_const by (rule sat_quiet [OF get_string_quiet [OF assms]]) (simp_all add: quiet_step)
  have push: "sat (d_rely W i) (d_guar W i) (\<lambda>r. ?P) ?P (send_push_notification_t ?E k d t u)" for k t u
    unfolding send_push_notification_t_def on_redis_t_simps
    by (rule sat_seq [OF get]) (auto intro!: sat_ret sat_Done split: option.split sum.split)
  show ?thesis
  proof (cases "cf_fcm_server_key (e_config ?E)")
    case (Some k)
    have "sat (d_rely W i) (d_guar W i) (\<lambda>r. ?P) ?P (catch_t (send_push_notification_t ?E k d ''Hysj'' ''New message'') ())"
      unfolding catch_t_def by (rule sat_after [OF push]) simp
    with Some show ?thesis by (simp add: notify_offline_t_def)
  qed (simp add: notify_offline_t_def sat_ret)
qed

lemma sat_send_message:
  fixes W :: "('s, 't) watch"
  assumes "env_ok (w_env W)" and "msg_key (en_recipient_device_id e) (en_message_id e) = w_key W \<Longrightarrow> e = w_message W"
  shows "sat (d_rely W i) (d_guar W i) (\<lambda>r. stored W (r = Ok () \<and> e = w_message W)) (stored W False)
    (on_send_message_t (w_env W) e)"
proof -
  let ?R = "d_rely W i" and ?G = "d_guar W i" and ?d = "en_recipient_device_id e" and ?i = "en_message_id e"
  let ?Q = "\<lambda>r. stored W ((r :: (string, unit) outcome) = Ok () \<and> e = w_message W)"
  let ?v = "json_of (e_envelope_json (w_env W)) e" and ?b = "msg_key ?d ?i = w_key W"
  have e: "?b \<longleftrightarrow> e = w_message W" using assms(2) by (auto simp: w_key_def)
  have v: "?b \<Longrightarrow> ?v = w_blob W" using assms(2) by (simp add: w_blob_def)
  let ?str = "map_err messaging_error_str :: (messaging_error, unit) outcome \<Rightarrow> (string, unit) outcome"
  have q: "sat ?R ?G (on_ok (\<lambda>_. stored W ?b) ?Q) (stored W False)
      (after ?str (on_redis_t (enqueue_t (e_redis (w_env W)) ?d ?i ?v (message_ttl e))))"
  proof (rule sat_after)
    show "stable ?R (on_ok (\<lambda>_. stored W ?b) ?Q r)" for r :: "(string, unit) outcome" by (intro stable_on_ok d_stable)
    show "sat ?R ?G (\<lambda>r. on_ok (\<lambda>_. stored W ?b) ?Q (?str r)) (stored W False)
        (on_redis_t (enqueue_t (e_redis (w_env W)) ?d ?i ?v (message_ttl e)))"
    proof (rule sat_post [OF sat_enqueue [OF assms(1) refl v]])
      show "stable ?R (on_ok (\<lambda>_. stored W ?b) ?Q (?str x))" for x by (intro stable_on_ok d_stable)
      show "on_ok (\<lambda>_. stored W ?b) ?Q (?str x) c" if "stored W (is_ok x \<and> ?b) c" for x c
        using that by (cases x) simp_all
    qed
  qed
  have n: "sat ?R ?G ?Q (stored W ?b) (notify_offline_t (w_env W) ?d)"
    by (rule sat_post [OF sat_notify [OF assms(1)]]) (auto simp: stored_def e)
  have off: "sat ?R ?G ?Q (stored W False) (seq (Done (of_sum id (to_json (e_envelope_json (w_env W)) e))) (\<lambda>blob.
      seq (map_err_t messaging_error_str (on_redis_t (enqueue_t (e_redis (w_env W)) ?d ?i blob (message_ttl e)))) (\<lambda>_.
      notify_offline_t (w_env W) ?d)))"
    using sat_seq [OF q n] by (simp add: env_okD(3) [OF assms(1)] seq_def map_err_t_def)
  show ?thesis unfolding on_send_message_t_def Let_def
  proof (rule sat_seq)
    show "sat ?R ?G (on_ok (\<lambda>b. stored W (b \<and> e = w_message W)) ?Q) (stored W False)
        (delivered_to_t (w_env W) ?d (SendMessage e))"
      by (rule sat_post [OF sat_delivered [OF assms(1)]]) (auto intro!: stable_on_ok)
    show "sat ?R ?G ?Q (stored W (b \<and> e = w_message W)) (if b then ret_t ()
        else seq (Done (of_sum id (to_json (e_envelope_json (w_env W)) e))) (\<lambda>blob.
          seq (map_err_t messaging_error_str (on_redis_t (enqueue_t (e_redis (w_env W)) ?d ?i blob (message_ttl e)))) (\<lambda>_.
          notify_offline_t (w_env W) ?d)))" for b
      using off by (cases b) (auto intro!: sat_ret)
  qed simp
qed

section \<open>The handler that connects\<close>

lemma serving_sound: "serving_device W d c b x \<Longrightarrow> sound W x"
  by (cases x, cases "snd x") simp

lemma serving_weaken: "serving_device W d c b x \<Longrightarrow> (b \<Longrightarrow> b') \<Longrightarrow> serving_device W d c b' x"
  by (cases x, cases "snd x") simp

text \<open>Thread \<open>i\<close>, and no other, opens channel \<open>c\<close> for device \<open>d\<close>.\<close>

definition connects :: "('s, 't) watch \<Rightarrow> nat \<Rightarrow> uuid \<Rightarrow> nat \<Rightarrow> bool" where
  "connects W i d c \<longleftrightarrow> env_ok (w_env W) \<and> (\<forall>j. w_opens W j = Some c \<longleftrightarrow> j = i) \<and> w_owner W c = d \<and>
     uuid_text d \<and> uuid_text (en_recipient_device_id (w_message W))"

lemma connectsD:
  assumes "connects W i d c"
  shows "env_ok (w_env W)" "w_opens W i = Some c" "\<And>j. w_opens W j = Some c \<Longrightarrow> j = i" "w_owner W c = d"
    "uuid_text d" "uuid_text (en_recipient_device_id (w_message W))"
  using assms by (auto simp: connects_def)

definition served :: "('s, 't) watch \<Rightarrow> uuid \<Rightarrow> nat \<Rightarrow> bool \<Rightarrow> ('e, 'a) outcome \<Rightarrow> ('s app, ghost) assn" where
  "served W d c b r x \<longleftrightarrow> is_ok r \<and> serving_device W d c b x"

lemma served_simps [simp]:
  "served W d c b (Ok u) = serving_device W d c b" "\<not> served W d c b (Err e) x" "\<not> served W d c b (Panic p) x"
  by (auto simp: served_def fun_eq_iff)

lemma stable_served: "connects W i d c \<Longrightarrow> stable (d_rely W i) (served W d c b r)"
  unfolding served_def [abs_def] by (intro stable_intros d_stable) (rule connectsD)

text \<open>A frame written to the device's socket: if it is the message, it is no longer held.\<close>

lemma frame_step:
  assumes C: "connects W i d c" and P: "serving_device W d c b (a, g)" and c': "map_of (ap_connections a) d = Some c'"
    and m: "b \<Longrightarrow> \<not> b' \<Longrightarrow> t = w_text W \<and> d = en_recipient_device_id (w_message W)"
  shows "\<exists>g'. d_guar W i (a, g) (push_frame c' t a, g') \<and> serving_device W d c b' (push_frame c' t a, g')"
proof -
  obtain hold closed where g: "g = (hold, closed)" by (cases g)
  note push = push_step [OF serving_sound [OF P] c']
  show ?thesis
  proof (cases "b' \<or> c \<notin> hold")
    case True
    then have "serving_device W d c b' (push_frame c' t a, g)" using P push(2) [of t] by (simp add: g del: sound.simps) blast
    with push(1) show ?thesis by blast
  next
    case False
    then have "t = w_text W" "d = en_recipient_device_id (w_message W)" using P m by (auto simp: g)
    from push(3) [OF this, of "hold - {c}"] have r: "reached W (push_frame c' t a, (hold - {c}, closed))" by (simp add: g)
    have s: "sound W (push_frame c' t a, (hold - {c}, closed))" using push(2) [of t] by (simp add: g)
    have "same_channel x (hold, closed) (hold - {c}, closed)" if "j \<noteq> i" "w_opens W j = Some x" for j x
      using that connectsD(3) [OF C, of j] by auto
    with push(1) [of i t] s r have "d_guar W i (a, g) (push_frame c' t a, (hold - {c}, closed))"
      by (simp add: g d_guar_def del: sound.simps reached.simps same_channel.simps)
    moreover have "serving_device W d c b' (push_frame c' t a, (hold - {c}, closed))" using s P by (simp add: g)
    ultimately show ?thesis by blast
  qed
qed

lemma serving_live:
  assumes "serving_device W d c b (a, g)"
  obtains c' where "map_of (ap_connections a) d = Some c'" "live a d c'"
  using assms by (cases g) (auto simp: live_def)

lemma sat_try_send:
  fixes W :: "('s, 't) watch"
  assumes C: "connects W i d c"
    and m: "b \<Longrightarrow> \<not> b' \<Longrightarrow> m = SendMessage (w_message W) \<and> d = en_recipient_device_id (w_message W)"
  shows "sat (d_rely W i) (d_guar W i) (served W d c b') (serving_device W d c b) (try_send_t (w_env W) d m)"
proof -
  let ?E = "w_env W" and ?R = "d_rely W i" and ?G = "d_guar W i"
  let ?M = "\<lambda>sent x. sent \<and> serving_device W d c b' x" and ?Q = "served W d c b'"
  note st = stable_served [OF C]
  have stM: "stable ?R (?M sent)" for sent by (intro stable_intros d_stable) (rule connectsD(2) [OF C])
  have step: "sat ?R ?G (on_ok ?M (?Q :: (unit, unit) outcome \<Rightarrow> _)) (serving_device W d c b) (atom (send_through ?E d m))"
  proof (rule sat_atom)
    show "stable ?R (on_ok ?M ?Q r)" for r :: "(unit, bool) outcome" by (rule stable_on_ok [OF stM st])
    fix a g assume P: "serving_device W d c b (a, g)"
    obtain c' where c': "map_of (ap_connections a) d = Some c'" "live a d c'" by (rule serving_live [OF P])
    have "send_through ?E d m a = (Ok True, push_frame c' (ws_text ?E m) a)"
      using c' env_okD(2) [OF connectsD(1) [OF C]] by (simp add: send_through_def ws_text_def live_def)
    with frame_step [OF C P c'(1), of b' "ws_text ?E m"] m
    show "\<exists>g'. ?G (a, g) (snd (send_through ?E d m a), g') \<and>
        on_ok ?M ?Q (fst (send_through ?E d m a)) (snd (send_through ?E d m a), g')"
      by (auto simp: w_text_def)
  qed (rule d_stable(4) [OF connectsD(2) [OF C]])
  have send: "sat ?R ?G ?Q (serving_device W d c b) (send_to_device_t ?E d m)"
    unfolding send_to_device_t_def
  proof (rule sat_seq [OF step])
    show "sat ?R ?G ?Q (?M sent) (if sent then ret_t () else seq (atom (mod_s (drop_connection d))) (\<lambda>_. Done (Err ())))" for sent
      by (rule sat_pure [OF st]) (auto intro!: sat_ret d_stable(4) connectsD(2) [OF C] st)
  qed (rule st)
  show ?thesis unfolding try_send_t_def catch_t_def
  proof (rule sat_after)
    show "sat ?R ?G (\<lambda>r. ?Q (case r of Ok x \<Rightarrow> Ok x | Err e \<Rightarrow> Ok () | Panic p \<Rightarrow> Panic p)) (serving_device W d c b)
        (send_to_device_t ?E d m)"
      by (rule sat_post [OF send st]) (auto simp: served_def is_ok_def)
  qed (rule st)
qed

definition carrying :: "('s, 't) watch \<Rightarrow> uuid \<Rightarrow> queued_message list \<Rightarrow> bool" where
  "carrying W d qs \<longleftrightarrow> d = en_recipient_device_id (w_message W) \<and> w_blob W \<in> qm_encrypted_blob ` set qs"

lemma carrying_simps [simp]:
  "\<not> carrying W d []"
  "carrying W d (q # qs) \<longleftrightarrow> carrying W d qs \<or> d = en_recipient_device_id (w_message W) \<and> qm_encrypted_blob q = w_blob W"
  "carrying W d (qs @ [q]) \<longleftrightarrow> carrying W d qs \<or> d = en_recipient_device_id (w_message W) \<and> qm_encrypted_blob q = w_blob W"
  by (auto simp: carrying_def)

lemma w_blob_read: "env_ok (w_env W) \<Longrightarrow> from_json (e_envelope_json (w_env W)) (w_blob W) = Inr (w_message W)"
  by (simp add: w_blob_def env_okD(4))

lemma sat_deliver_queued:
  fixes W :: "('s, 't) watch"
  assumes C: "connects W i d c"
  shows "sat (d_rely W i) (d_guar W i) (served W d c (carrying W d qs)) (serving_device W d c (carrying W d (q # qs)))
    (deliver_queued_t (w_env W) d q)"
proof (cases "from_json (e_envelope_json (w_env W)) (qm_encrypted_blob q)")
  case (Inr e)
  then have "qm_encrypted_blob q = w_blob W \<Longrightarrow> e = w_message W"
    using w_blob_read [OF connectsD(1) [OF C]] by simp
  then show ?thesis unfolding deliver_queued_t_def Inr sum.case by (intro sat_try_send [OF C]) auto
next
  case (Inl x)
  then have n: "qm_encrypted_blob q \<noteq> w_blob W" using w_blob_read [OF connectsD(1) [OF C]] by auto
  have "sat (d_rely W i) (d_guar W i) (served W d c (carrying W d qs)) (serving_device W d c (carrying W d (q # qs)))
    (atom (send_raw d (qm_encrypted_blob q)))"
  proof (rule sat_atom [OF d_stable(4) [OF connectsD(2) [OF C]] stable_served [OF C]])
    fix a g assume P: "serving_device W d c (carrying W d (q # qs)) (a, g)"
    obtain c' where c': "map_of (ap_connections a) d = Some c'" "live a d c'" by (rule serving_live [OF P])
    have s: "send_raw d (qm_encrypted_blob q) a = (Ok (), push_frame c' (bytes_str (utf8_lossy (qm_encrypted_blob q))) a)"
      using c' by (simp add: send_raw_def live_def)
    from frame_step [OF C P c'(1), of "carrying W d qs"] n
    show "\<exists>g'. d_guar W i (a, g) (snd (send_raw d (qm_encrypted_blob q) a), g') \<and>
        served W d c (carrying W d qs) (fst (send_raw d (qm_encrypted_blob q) a)) (snd (send_raw d (qm_encrypted_blob q) a), g')"
      unfolding s by simp
  qed
  then show ?thesis by (simp only: deliver_queued_t_def Inl sum.case)
qed

lemma sat_deliver_all:
  assumes C: "connects W i d c"
  shows "sat (d_rely W i) (d_guar W i) (served W d c False) (serving_device W d c (carrying W d qs))
    (for_t qs (deliver_queued_t (w_env W) d))"
proof (rule sat_for [where I = "\<lambda>qs. serving_device W d c (carrying W d qs)"])
  fix q and qs :: "queued_message list"
  show "sat (d_rely W i) (d_guar W i) (on_ok (\<lambda>_. serving_device W d c (carrying W d qs)) (served W d c False))
      (serving_device W d c (carrying W d (q # qs))) (deliver_queued_t (w_env W) d q)"
  proof (rule sat_post [OF sat_deliver_queued [OF C]])
    show "stable (d_rely W i) (on_ok (\<lambda>_. serving_device W d c (carrying W d qs)) (served W d c False) r)" for r
      by (rule stable_on_ok [OF d_stable(4) [OF connectsD(2) [OF C]] stable_served [OF C]])
  qed (auto simp: served_def is_ok_def)
next
  show "stable (d_rely W i) (serving_device W d c (carrying W d []))" by (rule d_stable(4) [OF connectsD(2) [OF C]])
qed (rule stable_served [OF C] | simp)+

text \<open>The page of keys: each is read and deleted, and what was read is held.\<close>

definition taking :: "('s, 't) watch \<Rightarrow> uuid \<Rightarrow> nat \<Rightarrow> queued_message list \<Rightarrow> ('s app, ghost) assn" where
  "taking W d c qs = serving_device W d c (carrying W d qs)"

lemma sat_take:
  fixes W :: "('s, 't) watch"
  assumes C: "connects W i d c" and k: "prefix (item_prefix ''msg'' d) key" and v: "key = w_key W \<Longrightarrow> v = w_blob W"
    and Q: "\<And>r. stable (d_rely W i) (Q r)"
  shows "sat (d_rely W i) (d_guar W i) (on_ok (\<lambda>_. taking W d c (qs @ [\<lparr>qm_message_id = n, qm_encrypted_blob = v\<rparr>])) Q)
    (taking W d c qs) (atom (on_redis (r_del (e_redis (w_env W)) [key])))"
proof (rule sat_atom)
  show "stable (d_rely W i) (taking W d c qs)" unfolding taking_def by (rule d_stable(4) [OF connectsD(2) [OF C]])
  show "stable (d_rely W i) (on_ok (\<lambda>_. taking W d c (qs @ [\<lparr>qm_message_id = n, qm_encrypted_blob = v\<rparr>])) Q r)" for r
    unfolding taking_def by (rule stable_on_ok [OF d_stable(4) [OF connectsD(2) [OF C]] Q])
  fix a g assume P: "taking W d c qs (a, g)"
  obtain hold closed where g: "g = (hold, closed)" by (cases g)
  let ?R = "e_redis (w_env W)" and ?hold = "if key = w_key W then insert c hold else hold"
  obtain s' where s: "r_del ?R [key] (ap_redis a) = (Ok (card (dom (r_look ?R (ap_redis a)) \<inter> set [key])), s')"
    "r_look ?R s' = r_look ?R (ap_redis a) |` (- set [key])" by (rule redis_del [OF env_okD(1) [OF connectsD(1) [OF C]]])
  have S: "sound W (a, (hold, closed))" using P serving_sound unfolding taking_def g by blast
  have "r_look ?R s' = look_of (w_env W) a |` (- {key})" using s(2) by (simp add: look_of_def)
  note step = delete_step [OF S this connectsD(2,3) [OF C] refl]
  have "d = en_recipient_device_id (w_message W)" if "key = w_key W"
    using k that connectsD(5,6) [OF C] by (auto simp: w_key_def item_keys prefix_def item_key_inj append_assoc [symmetric]
        simp del: append_assoc)
  then have "taking W d c (qs @ [\<lparr>qm_message_id = n, qm_encrypted_blob = v\<rparr>]) (a\<lparr>ap_redis := s'\<rparr>, (?hold, closed))"
    using P step(2) v by (auto simp: taking_def g simp del: sound.simps)
  with step(1) s(1) show "\<exists>g'. d_guar W i (a, g) (snd (on_redis (r_del ?R [key]) a), g') \<and>
      on_ok (\<lambda>_. taking W d c (qs @ [\<lparr>qm_message_id = n, qm_encrypted_blob = v\<rparr>])) Q (fst (on_redis (r_del ?R [key]) a))
        (snd (on_redis (r_del ?R [key]) a), g')"
    unfolding g by (intro exI [of _ "(?hold, closed)"]) simp
qed

lemma taking_stable: "connects W i d c \<Longrightarrow> stable (d_rely W i) (taking W d c qs)"
  unfolding taking_def by (rule d_stable(4)) (rule connectsD)

text \<open>A GET keeps an assertion on what is watched; what it reads under the message's key is the message.\<close>

lemma sat_get:
  fixes W :: "('s, 't) watch"
  assumes C: "connects W i d c" and Q: "\<And>r. stable (d_rely W i) (Q r)"
  shows "sat (d_rely W i) (d_guar W i)
    (on_ok (\<lambda>v x. (\<forall>data. v = Some data \<longrightarrow> key = w_key W \<longrightarrow> data = w_blob W) \<and> serving_device W d c b x) Q)
    (serving_device W d c b) (atom (on_redis (r_get (e_redis (w_env W)) key)))"
proof (rule sat_atom [OF d_stable(4) [OF connectsD(2) [OF C]]])
  let ?M = "\<lambda>v x. (\<forall>data. v = Some data \<longrightarrow> key = w_key W \<longrightarrow> data = w_blob W) \<and> serving_device W d c b x"
  show "stable (d_rely W i) (on_ok ?M Q r)" for r
    by (intro stable_on_ok stable_intros d_stable Q) (rule connectsD(2) [OF C])
  fix a g assume P: "serving_device W d c b (a, g)"
  let ?R = "e_redis (w_env W)"
  obtain s' where s: "r_get ?R key (ap_redis a) = (Ok (map_option fst (r_look ?R (ap_redis a) key)), s')"
    "r_look ?R s' = r_look ?R (ap_redis a)" by (rule redis_get [OF env_okD(1) [OF connectsD(1) [OF C]]])
  have q: "quiet (w_env W) a (a\<lparr>ap_redis := s'\<rparr>)" by (simp add: quiet_def look_of_def s(2))
  have "data = w_blob W" if "map_option fst (r_look ?R (ap_redis a) key) = Some data" "key = w_key W" for data
    using serving_sound [OF P] that by (cases g) (auto simp: look_of_def)
  then show "\<exists>g'. d_guar W i (a, g) (snd (on_redis (r_get ?R key) a), g') \<and>
      on_ok ?M Q (fst (on_redis (r_get ?R key) a)) (snd (on_redis (r_get ?R key) a), g')"
    using P s(1) quiet_step(1) [OF q] quiet_step(3) [OF q] by (intro exI [of _ g]) auto
qed

lemma sat_dequeue_page:
  fixes W :: "('s, 't) watch"
  assumes C: "connects W i d c" and keys: "\<forall>k \<in> set keys. prefix (item_prefix ''msg'' d) k"
  shows "sat (d_rely W i) (d_guar W i) (on_ok (taking W d c) (page_result (taking W d c))) (taking W d c qs)
    (on_redis_t (dequeue_page_t (e_redis (w_env W)) pre keys qs))"
  using keys
proof (induction keys arbitrary: qs)
  let ?Q = "on_ok (taking W d c) (page_result (taking W d c)) ::
    (string, queued_message list) outcome \<Rightarrow> _"
  have Q: "stable (d_rely W i) (?Q r)" for r
    by (intro stable_on_ok stable_page taking_stable [OF C])
  {
    case Nil
    show ?case using Q [of "Ok qs"] by (auto intro!: sat_ret taking_stable [OF C])
  next
    case (Cons key keys)
    let ?R = "e_redis (w_env W)"
    let ?item = "\<lambda>data. \<lparr>qm_message_id = strip_prefix pre key, qm_encrypted_blob = data\<rparr>"
    let ?rest = "\<lambda>blob. on_redis_t (case blob of None \<Rightarrow> dequeue_page_t ?R pre keys qs
      | Some data \<Rightarrow> seq (atom (r_del ?R [key])) (\<lambda>_. dequeue_page_t ?R pre keys (qs @ [?item data])))"
    have IH: "sat (d_rely W i) (d_guar W i) ?Q (taking W d c qs') (on_redis_t (dequeue_page_t ?R pre keys qs'))" for qs'
      using Cons by simp
    have "sat (d_rely W i) (d_guar W i) ?Q
      (\<lambda>x. (\<forall>data. blob = Some data \<longrightarrow> key = w_key W \<longrightarrow> data = w_blob W) \<and> serving_device W d c (carrying W d qs) x)
      (?rest blob)" for blob
    proof (rule sat_pure [OF Q])
      assume b: "\<forall>data. blob = Some data \<longrightarrow> key = w_key W \<longrightarrow> data = w_blob W"
      show "sat (d_rely W i) (d_guar W i) ?Q (serving_device W d c (carrying W d qs)) (?rest blob)"
      proof (cases blob)
        case None
        then show ?thesis using IH [of qs] by (simp add: taking_def [abs_def])
      next
        case (Some data)
        have k: "prefix (item_prefix ''msg'' d) key" using Cons.prems by simp
        have "key = w_key W \<Longrightarrow> data = w_blob W" using b Some by simp
        from sat_seq [OF sat_take [OF C k this Q] IH Q] Some show ?thesis by (simp add: taking_def [abs_def])
      qed
    qed
    from sat_seq [OF sat_get [OF C Q] this Q] show ?case by (simp add: taking_def [abs_def])
  }
qed

lemma taking_quiet:
  assumes "taking W d c qs (a, g)" and "r_look (e_redis (w_env W)) s' = r_look (e_redis (w_env W)) (ap_redis a)"
  shows "d_guar W i (a, g) (a\<lparr>ap_redis := s'\<rparr>, g) \<and> taking W d c qs (a\<lparr>ap_redis := s'\<rparr>, g)"
proof -
  have q: "quiet (w_env W) a (a\<lparr>ap_redis := s'\<rparr>)" using assms(2) by (simp add: quiet_def look_of_def)
  show ?thesis using assms(1) quiet_step(1) [OF q] quiet_step(3) [OF q] by (simp add: taking_def)
qed

text \<open>Reading all pages of a box, and what is done with the result.\<close>

lemma sat_pending:
  fixes W :: "('s, 't) watch" and body :: "string list \<Rightarrow> 'x list \<Rightarrow> ('s, string, 'x list) async"
  assumes C: "connects W i d c" and kind: "plain kind"
    and stab: "\<And>acc. stable (d_rely W i) (F acc)"
    and body: "\<And>keys acc. \<forall>k \<in> set keys. prefix (item_prefix kind d) k \<Longrightarrow> sat (d_rely W i) (d_guar W i)
      (on_ok F (page_result F)) (F acc) (on_redis_t (body keys acc))"
    and look: "\<And>acc a g s'. F acc (a, g) \<Longrightarrow> r_look (e_redis (w_env W)) s' = r_look (e_redis (w_env W)) (ap_redis a) \<Longrightarrow>
      d_guar W i (a, g) (a\<lparr>ap_redis := s'\<rparr>, g) \<and> F acc (a\<lparr>ap_redis := s'\<rparr>, g)"
    and rest: "\<And>acc. sat (d_rely W i) (d_guar W i) Q (F acc) (k acc)" and Q: "\<And>r. stable (d_rely W i) (Q r)"
  shows "sat (d_rely W i) (d_guar W i) Q (F [])
    (seq (catch_t (seq (on_redis_t (cmd_t (scan_loop_t (e_fuel (w_env W)) (e_redis (w_env W)) (item_prefix kind d @ ''*'') body 0 [])))
       (\<lambda>r. seq (returned_t r) (\<lambda>xs. ret_t (Some xs)))) None)
     (\<lambda>result. case result of Some xs \<Rightarrow> k xs | None \<Rightarrow> ret_t ()))"
proof -
  let ?R = "d_rely W i" and ?G = "d_guar W i" and ?P = "page_result F"
  let ?S = "\<lambda>v x. \<exists>acc. v = Some acc \<and> F acc x"
  note ex = stable_intros(3) [OF stable_intros(2) [OF stable_intros(1) stab]] and page = stable_page [OF stab]
  have scan: "sat ?R ?G (on_ok ?S ?P) (F [])
      (on_redis_t (cmd_t (scan_loop_t (e_fuel (w_env W)) (e_redis (w_env W)) (item_prefix kind d @ ''*'') body 0 [])))"
    unfolding on_redis_t_simps cmd_t_def map_err_t_def
  proof (rule sat_after)
    show "stable ?R (on_ok ?S ?P r)" for r :: "(messaging_error, 'x list option) outcome" by (rule stable_on_ok [OF ex page])
    have "scan_to (e_redis (w_env W)) (item_prefix kind d @ ''*'') 0 [] 0" by simp
    note loop = sat_scan_loop [where I = F, OF env_okD(1) [OF connectsD(1) [OF C]] item_prefix_plain [OF connectsD(5) [OF C] kind]
        body stab look this]
    show "sat ?R ?G (\<lambda>r. on_ok ?S ?P (map_err RedisError r)) (F [])
        (on_redis_t (scan_loop_t (e_fuel (w_env W)) (e_redis (w_env W)) (item_prefix kind d @ ''*'') body 0 []))"
    proof (rule sat_post [OF loop])
      show "stable ?R (on_ok ?S ?P (map_err RedisError x))" for x by (rule stable_on_ok [OF ex page])
    qed (auto simp: page_result_def)
  qed
  have read: "sat ?R ?G ?P (F []) (seq (on_redis_t (cmd_t (scan_loop_t (e_fuel (w_env W)) (e_redis (w_env W))
      (item_prefix kind d @ ''*'') body 0 []))) (\<lambda>r. seq (returned_t r) (\<lambda>xs. ret_t (Some xs))))"
  proof (rule sat_seq [OF scan])
    show "sat ?R ?G ?P (?S r) (seq (returned_t r) (\<lambda>xs. ret_t (Some xs)))" for r
      by (rule sat_ex, rule sat_pure [OF page]) (auto simp: returned_t_def ret_t_def seq_def intro!: sat_Done stab page)
  qed (rule page)
  show ?thesis
  proof (rule sat_seq)
    show "sat ?R ?G (on_ok ?S Q) (F []) (catch_t (seq (on_redis_t (cmd_t (scan_loop_t (e_fuel (w_env W)) (e_redis (w_env W))
        (item_prefix kind d @ ''*'') body 0 []))) (\<lambda>r. seq (returned_t r) (\<lambda>xs. ret_t (Some xs)))) None)"
      unfolding catch_t_def
    proof (rule sat_after)
      show "stable ?R (on_ok ?S Q r)" for r by (rule stable_on_ok [OF ex Q])
      show "sat ?R ?G (\<lambda>r. on_ok ?S Q (case r of Ok x \<Rightarrow> Ok x | Err e \<Rightarrow> Ok None | Panic p \<Rightarrow> Panic p)) (F [])
          (seq (on_redis_t (cmd_t (scan_loop_t (e_fuel (w_env W)) (e_redis (w_env W))
            (item_prefix kind d @ ''*'') body 0 []))) (\<lambda>r. seq (returned_t r) (\<lambda>xs. ret_t (Some xs))))"
        by (rule sat_post [OF read]) (auto simp: page_result_def intro!: stable_on_ok [OF ex Q])
    qed
    show "sat ?R ?G Q (?S result) (case result of Some xs \<Rightarrow> k xs | None \<Rightarrow> ret_t ())" for result
      by (rule sat_ex, rule sat_pure [OF Q]) (use rest in simp)
  qed (rule Q)
qed

lemma sat_pending_messages:
  fixes W :: "('s, 't) watch"
  assumes C: "connects W i d c"
  shows "sat (d_rely W i) (d_guar W i) (served W d c False) (serving_device W d c False)
    (deliver_pending_messages_t (w_env W) d)"
proof -
  have pat: "''msg:'' @ d @ '':*'' = item_prefix ''msg'' d @ ''*''" by (simp add: item_prefix_def)
  have F: "serving_device W d c False = taking W d c []" by (simp add: taking_def)
  show ?thesis unfolding deliver_pending_messages_t_def dequeue_all_t_def Let_def pat F
  proof (rule sat_pending [where F = "taking W d c", OF C plain_kinds(1) taking_stable [OF C]])
    show "sat (d_rely W i) (d_guar W i) (served W d c False) (taking W d c acc)
        (for_t acc (deliver_queued_t (w_env W) d))" for acc
      unfolding taking_def by (rule sat_deliver_all [OF C])
    show "stable (d_rely W i) (served W d c False r)" for r :: "('e, unit) outcome"
      by (rule stable_served [OF C])
  qed (rule sat_dequeue_page [OF C], assumption, rule taking_quiet)
qed

lemma sat_wipes_page:
  fixes W :: "('s, 't) watch"
  assumes C: "connects W i d c"
  shows "sat (d_rely W i) (d_guar W i) (on_ok (\<lambda>_. taking W d c []) (page_result (\<lambda>_ :: pending_wipe list. taking W d c []))) (taking W d c [])
    (on_redis_t (wipes_page_t (e_redis (w_env W)) J keys wipes))"
proof (induction keys arbitrary: wipes)
  let ?Q = "on_ok (\<lambda>_. taking W d c []) (page_result (\<lambda>_ :: pending_wipe list. taking W d c [])) ::
    (string, pending_wipe list) outcome \<Rightarrow> _"
  have Q: "stable (d_rely W i) (?Q r)" for r by (intro stable_on_ok stable_page taking_stable [OF C])
  {
    case Nil
    show ?case using Q [of "Ok wipes"] by (auto intro!: sat_ret taking_stable [OF C])
  next
    case (Cons key keys)
    have "sat (d_rely W i) (d_guar W i) ?Q
      (\<lambda>x. (\<forall>data. blob = Some data \<longrightarrow> key = w_key W \<longrightarrow> data = w_blob W) \<and> serving_device W d c False x)
      (on_redis_t (case blob of None \<Rightarrow> wipes_page_t (e_redis (w_env W)) J keys wipes
        | Some bs \<Rightarrow> (case from_json J bs of Inr wipe \<Rightarrow> wipes_page_t (e_redis (w_env W)) J keys (wipes @ [wipe])
          | Inl e \<Rightarrow> wipes_page_t (e_redis (w_env W)) J keys wipes)))" for blob
      by (rule sat_pure [OF Q])
        (use Cons.IH in \<open>auto simp: taking_def split: option.split sum.split\<close>)
    from sat_seq [OF sat_get [OF C Q] this Q] show ?case by (simp add: taking_def)
  }
qed

lemma sat_pending_wipes:
  fixes W :: "('s, 't) watch"
  assumes C: "connects W i d c"
  shows "sat (d_rely W i) (d_guar W i) (served W d c False) (serving_device W d c False)
    (deliver_pending_wipes_t (w_env W) d)"
proof -
  have pat: "''wipe:'' @ d @ '':*'' = item_prefix ''wipe'' d @ ''*''" by (simp add: item_prefix_def)
  let ?Q = "served W d c False :: ('e, unit) outcome \<Rightarrow> _"
  have F: "serving_device W d c False = (\<lambda>_ :: pending_wipe list. taking W d c []) []" by (simp add: taking_def)
  have one: "sat (d_rely W i) (d_guar W i) (on_ok (\<lambda>_. taking W d c []) ?Q) (taking W d c [])
      (try_send_t (w_env W) d m)" for m
  proof (rule sat_post)
    show "sat (d_rely W i) (d_guar W i) (served W d c False) (taking W d c []) (try_send_t (w_env W) d m)"
      unfolding taking_def by (rule sat_try_send [OF C]) simp_all
    show "stable (d_rely W i) (on_ok (\<lambda>_. taking W d c []) ?Q r)" for r :: "('e, unit) outcome"
      by (rule stable_on_ok [OF taking_stable [OF C] stable_served [OF C]])
  qed (auto simp: taking_def served_def is_ok_def)
  show ?thesis unfolding deliver_pending_wipes_t_def get_pending_wipes_t_def pat F
  proof (rule sat_pending [where F = "\<lambda>_. taking W d c []", OF C plain_kinds(2) taking_stable [OF C]])
    show "sat (d_rely W i) (d_guar W i) ?Q (taking W d c [])
        (for_t acc (\<lambda>wipe. try_send_t (w_env W) d (WipeCommand (pw_command wipe))))" for acc :: "pending_wipe list"
      by (rule sat_for [where I = "\<lambda>_. taking W d c []", OF one _ taking_stable [OF C] stable_served [OF C]])
        (simp add: taking_def)
    show "stable (d_rely W i) (?Q r)" for r by (rule stable_served [OF C])
  qed (rule sat_wipes_page [OF C], rule taking_quiet)
qed

text \<open>The steps that open a socket: its channel is created and registered, and the device marked online.\<close>

definition fresh_channel :: "nat \<Rightarrow> 's app \<Rightarrow> 's app" where
  "fresh_channel c = set_channel c (\<lambda>_. \<lparr>ch_receiving = True, ch_frames = [], ch_pong = True\<rparr>)"

lemma create_step:
  assumes C: "connects W i d c" and P: "unopened W c (a, (hold, closed))"
  shows "d_guar W i (a, (hold, closed)) (fresh_channel c a, (hold, closed - {c}))"
    and "opened W c (fresh_channel c a, (hold, closed - {c}))"
proof -
  have "same_channel x (hold, closed) (hold, closed - {c})" if "j \<noteq> i" "w_opens W j = Some x" for j x
    using that connectsD(3) [OF C, of j] by auto
  moreover have "reached W (a, (hold, closed)) \<longrightarrow> reached W (fresh_channel c a, (hold, closed - {c}))"
  proof
    assume r: "reached W (a, (hold, closed))"
    have "x \<notin> closed \<Longrightarrow> x \<noteq> c" for x using P by auto
    with r show "reached W (fresh_channel c a, (hold, closed - {c}))"
      unfolding reached.simps by (fastforce simp: fresh_channel_def set_channel_def)
  qed
  ultimately show "d_guar W i (a, (hold, closed)) (fresh_channel c a, (hold, closed - {c}))" using P
    by (auto simp: d_guar_def fresh_channel_def set_channel_def simp del: same_channel.simps reached.simps)
  show "opened W c (fresh_channel c a, (hold, closed - {c}))" using P by (auto simp: fresh_channel_def set_channel_def)
qed

lemma register_step:
  fixes a :: "'s app"
  assumes "connects W i d c" and "opened W c (a, g)"
  shows "d_guar W i (a, g) (a\<lparr>ap_connections := AList.update d c (ap_connections a)\<rparr>, g)"
    and "serving_device W d c False (a\<lparr>ap_connections := AList.update d c (ap_connections a)\<rparr>, g)"
proof -
  obtain hold closed where g: "g = (hold, closed)" by (cases g)
  show "d_guar W i (a, g) (a\<lparr>ap_connections := AList.update d c (ap_connections a)\<rparr>, g)"
    using assms(2) connectsD(4) [OF assms(1)] by (auto simp: g d_guar_def update_conv' split: if_splits)
  show "serving_device W d c False (a\<lparr>ap_connections := AList.update d c (ap_connections a)\<rparr>, g)"
    using assms(2) connectsD(4) [OF assms(1)] by (auto simp: g update_conv' split: if_splits)
qed

lemma sat_open_socket:
  fixes W :: "('s, 't) watch"
  assumes C: "connects W i d c"
  shows "sat (d_rely W i) (d_guar W i) (served W d c False) (unopened W c) (open_socket_t (w_env W) I d c :: ('s app, 'e, unit) async)"
proof -
  let ?R = "d_rely W i" and ?G = "d_guar W i"
  let ?ok = "\<lambda>M. on_ok (\<lambda>_ :: unit. M) (served W d c False :: ('e, unit) outcome \<Rightarrow> _)"
  note st = stable_served [OF C] and S = d_stable(2-4) [OF connectsD(2) [OF C]]
  have create: "sat ?R ?G (?ok (opened W c)) (unopened W c) (atom (mod_s (fresh_channel c)))"
  proof (rule sat_atom [OF S(1) stable_on_ok [OF S(2) st]])
    fix a :: "'s app" and g assume "unopened W c (a, g)"
    with create_step [OF C, of a "fst g" "snd g"]
    show "\<exists>g'. ?G (a, g) (snd (mod_s (fresh_channel c) a), g') \<and>
        ?ok (opened W c) (fst (mod_s (fresh_channel c) a)) (snd (mod_s (fresh_channel c) a), g')"
      by (intro exI [of _ "(fst g, snd g - {c})"]) simp
  qed
  let ?reg = "\<lambda>a :: 's app. a\<lparr>ap_connections := AList.update d c (ap_connections a)\<rparr>"
  have register: "sat ?R ?G (?ok (serving_device W d c False)) (opened W c) (atom (mod_s ?reg))"
  proof (rule sat_atom [OF S(2) stable_on_ok [OF S(3) st]])
    fix a :: "'s app" and g assume "opened W c (a, g)"
    from register_step [OF C this] show "\<exists>g'. ?G (a, g) (snd (mod_s ?reg a), g') \<and>
        ?ok (serving_device W d c False) (fst (mod_s ?reg a)) (snd (mod_s ?reg a), g')"
      by (intro exI [of _ g]) simp
  qed
  have online: "sat ?R ?G (?ok (serving_device W d c False)) (serving_device W d c False)
      (atom (db_or () (set_online (in_now I) d True)))"
  proof (rule sat_atom [OF S(3) stable_on_ok [OF S(3) st]])
    fix a :: "'s app" and g assume P: "serving_device W d c False (a, g)"
    let ?m = "db_or () (set_online (in_now I) d True) :: ('s app, 'e, unit) act"
    obtain d' where s: "?m a = (Ok (), a\<lparr>ap_db := d'\<rparr>)" using set_online_ignored by blast
    have q: "quiet (w_env W) a (a\<lparr>ap_db := d'\<rparr>)" by (simp add: quiet_def look_of_def)
    show "\<exists>g'. ?G (a, g) (snd (?m a), g') \<and> ?ok (serving_device W d c False) (fst (?m a)) (snd (?m a), g')"
      using P quiet_step(1) [OF q] quiet_step(3) [OF q] by (intro exI [of _ g]) (simp add: s)
  qed
  have messages: "sat ?R ?G (?ok (serving_device W d c False)) (serving_device W d c False)
      (deliver_pending_messages_t (w_env W) d)"
    by (rule sat_post [OF sat_pending_messages [OF C] stable_on_ok [OF S(3) st]]) (auto simp: served_def is_ok_def)
  show ?thesis unfolding open_socket_t_def fresh_channel_def [symmetric]
    by (rule sat_seq [OF create sat_seq [OF register sat_seq [OF online sat_seq [OF messages sat_pending_wipes [OF C] st] st] st] st])
qed

section \<open>No message is lost\<close>

text \<open>Every registered connection is an open channel of one device.\<close>

definition sockets_ready :: "'s app \<Rightarrow> bool" where
  "sockets_ready a \<longleftrightarrow> (\<forall>d c. map_of (ap_connections a) d = Some c \<longrightarrow>
     ch_receiving (ap_channels a c) \<and> (\<forall>d'. map_of (ap_connections a) d' = Some c \<longrightarrow> d' = d))"

text \<open>The senders of \<open>es\<close> and the devices that connect, each with the channel of its socket.\<close>

definition senders_and_sockets ::
    "('s, 't) env \<Rightarrow> (nat \<Rightarrow> inputs) \<Rightarrow> encrypted_envelope list \<Rightarrow> (uuid \<times> nat) list \<Rightarrow> ('s app, (string, unit) outcome) task list" where
  "senders_and_sockets E I es conns =
     map (on_send_message_t E) es @ map (\<lambda>(d, c). open_socket_t E (I c) d c) conns"

text \<open>A channel of the device: it was registered before, or the device opens it now.\<close>

definition channel_for :: "'s app \<Rightarrow> (uuid \<times> nat) list \<Rightarrow> uuid \<Rightarrow> nat \<Rightarrow> bool" where
  "channel_for a conns d c \<longleftrightarrow> map_of (ap_connections a) d = Some c \<or> (d, c) \<in> set conns"

definition new_channels :: "'s app \<Rightarrow> (uuid \<times> nat) list \<Rightarrow> bool" where
  "new_channels a conns \<longleftrightarrow> distinct (map snd conns) \<and>
     (\<forall>c \<in> snd ` set conns. \<forall>d. map_of (ap_connections a) d \<noteq> Some c)"

lemma channel_owner:
  assumes "sockets_ready a" and "new_channels a conns"
  shows "\<exists>own :: nat \<Rightarrow> uuid. (\<forall>d c. channel_for a conns d c \<longrightarrow> own c = d) \<and>
    (\<forall>c. (\<nexists>d. channel_for a conns d c) \<longrightarrow> own c = [])"
proof -
  let ?own = "\<lambda>c. if \<exists>d. channel_for a conns d c then SOME d. channel_for a conns d c else []"
  have one: "d' = d" if c: "channel_for a conns d c" "channel_for a conns d' c" for d d' c
  proof (cases "c \<in> snd ` set conns")
    case True
    then have "(d, c) \<in> set conns" "(d', c) \<in> set conns" using c assms(2) by (auto simp: channel_for_def new_channels_def)
    moreover have "inj_on snd (set conns)" using assms(2) by (simp add: new_channels_def distinct_map)
    ultimately show ?thesis using inj_onD [of snd "set conns" "(d, c)" "(d', c)"] by simp
  next
    case False
    then have "map_of (ap_connections a) d = Some c" "map_of (ap_connections a) d' = Some c"
      using c by (force simp: channel_for_def)+
    with assms(1) show ?thesis by (auto simp: sockets_ready_def)
  qed
  have "?own c = d" if "channel_for a conns d c" for d c
    using someI [of "\<lambda>d. channel_for a conns d c", OF that] one [OF that] that by auto
  then show ?thesis by (intro exI [of _ ?own]) auto
qed

text \<open>The message, with the threads that open channels after those that send.\<close>

definition watching ::
    "('s, 't) env \<Rightarrow> encrypted_envelope \<Rightarrow> (nat \<Rightarrow> uuid) \<Rightarrow> nat \<Rightarrow> (uuid \<times> nat) list \<Rightarrow> ('s, 't) watch" where
  "watching E e own n conns = \<lparr>w_env = E, w_message = e, w_owner = own,
     w_opens = (\<lambda>j. if n \<le> j \<and> j < n + length conns then Some (snd (conns ! (j - n))) else None)\<rparr>"

lemma watching_parts [simp]:
  "w_env (watching E e own n conns) = E" "w_message (watching E e own n conns) = e"
  "w_owner (watching E e own n conns) = own"
  "w_opens (watching E e own n conns) j = (if n \<le> j \<and> j < n + length conns then Some (snd (conns ! (j - n))) else None)"
  by (simp_all add: watching_def)

lemma watching_connects:
  assumes "env_ok E" and "uuid_text (en_recipient_device_id e)" and "\<forall>d \<in> fst ` set conns. uuid_text d"
    and "distinct (map snd conns)" and "\<And>d c. (d, c) \<in> set conns \<Longrightarrow> own c = d" and "k < length conns"
  shows "connects (watching E e own n conns) (n + k) (fst (conns ! k)) (snd (conns ! k))"
proof -
  have "w_opens (watching E e own n conns) j = Some (snd (conns ! k)) \<longleftrightarrow> j = n + k" for j
    using assms(6) nth_eq_iff_index_eq [OF assms(4), of "j - n" k] by auto
  moreover have "own (snd (conns ! k)) = fst (conns ! k)" using assms(5,6) by (metis nth_mem prod.collapse)
  ultimately show ?thesis using assms(1-3,6) by (simp add: connects_def)
qed

definition thread_result ::
    "('s, 't) watch \<Rightarrow> encrypted_envelope list \<Rightarrow> (uuid \<times> nat) list \<Rightarrow> nat \<Rightarrow> (string, unit) outcome \<Rightarrow> ('s app, ghost) assn" where
  "thread_result W es conns j r =
     (if j < length es then stored W (r = Ok () \<and> es ! j = w_message W)
      else served W (fst (conns ! (j - length es))) (snd (conns ! (j - length es))) False r)"

lemma watching_starts:
  fixes E :: "('s, 't) env"
  assumes E: "env_ok E" and dev: "uuid_text (en_recipient_device_id e)" "\<forall>d \<in> fst ` set conns. uuid_text d"
    and new: "new_channels a conns" and a: "sockets_ready a" and own: "\<And>d c. channel_for a conns d c \<Longrightarrow> own c = d"
    and ids: "\<forall>e' \<in> set es. en_recipient_device_id e' = en_recipient_device_id e \<longrightarrow> en_message_id e' = en_message_id e \<longrightarrow> e' = e"
      "\<forall>e' \<in> set es. uuid_text (en_recipient_device_id e')"
    and queue: "items_of ''msg'' (look_of E a) (en_recipient_device_id e) (en_message_id e) \<in> {None, Some (json_of (e_envelope_json E) e)}"
  defines "W \<equiv> watching E e own (length es) conns"
  shows "delivery.running W (thread_result W es conns) (senders_and_sockets E I es conns, a) ({}, snd ` set conns)"
proof -
  let ?g = "({}, snd ` set conns) :: ghost" and ?n = "length es"
  have S: "sound W (a, ?g)"
    using queue new a own by (auto simp: W_def w_key_def w_blob_def item_keys items_of_def sockets_ready_def new_channels_def
        channel_for_def)
  have C: "connects W (?n + k) (fst (conns ! k)) (snd (conns ! k))" if "k < length conns" for k
    unfolding W_def using new own that by (intro watching_connects E dev) (auto simp: new_channels_def channel_for_def)
  have send: "sat (d_rely W j) (d_guar W j) (thread_result W es conns j) (stored W False) (on_send_message_t E (es ! j))"
    if j: "j < ?n" for j
  proof -
    have e: "es ! j \<in> set es" using j by simp
    have "msg_key (en_recipient_device_id (es ! j)) (en_message_id (es ! j)) = w_key W \<Longrightarrow> es ! j = w_message W"
      using ids e item_key_inj [of "en_recipient_device_id (es ! j)" "en_recipient_device_id e" "''msg''"] dev(1)
      by (auto simp: W_def w_key_def item_keys)
    from sat_send_message [of W, OF _ this] E j show ?thesis by (simp add: W_def thread_result_def [abs_def])
  qed
  have conn: "sat (d_rely W (?n + k)) (d_guar W (?n + k)) (thread_result W es conns (?n + k)) (unopened W (snd (conns ! k)))
      (open_socket_t E (I (snd (conns ! k))) (fst (conns ! k)) (snd (conns ! k)))" if "k < length conns" for k
    using sat_open_socket [OF C [OF that], of "I (snd (conns ! k))"]
    by (simp add: W_def thread_result_def [abs_def])
  have "\<exists>P. P (a, ?g) \<and> sat (d_rely W j) (d_guar W j) (thread_result W es conns j) P (senders_and_sockets E I es conns ! j)"
    if j: "j < ?n + length conns" for j
  proof (cases "j < ?n")
    case True
    with send S show ?thesis
      by (intro exI [of _ "stored W False"]) (simp add: senders_and_sockets_def nth_append stored_def del: sound.simps)
  next
    case False
    define k where "k = j - ?n"
    then have k: "j = ?n + k" "k < length conns" using False j by simp_all
    have "unopened W (snd (conns ! k)) (a, ?g)" using S k(2) by (simp del: sound.simps)
    with conn [OF k(2)] k show ?thesis
      by (intro exI [of _ "unopened W (snd (conns ! k))"]) (simp add: senders_and_sockets_def nth_append case_prod_beta)
  qed
  then show ?thesis by (simp add: delivery.running_def senders_and_sockets_def)
qed

text \<open>
  C5: No accepted message is lost, however handlers interleave. Any number of messages are sent and any
  number of sockets opened at the same time, their commands to Redis, the database and the connection table
  in any order. When all sockets are open, every message whose handler has answered with success is in the
  queue of its device or has been written to a channel of that device.
\<close>

theorem no_message_lost:
  fixes E :: "('s, 't) env"
  assumes "env_ok E" and "\<forall>e' \<in> set es. uuid_text (en_recipient_device_id e')" and "\<forall>d \<in> fst ` set conns. uuid_text d"
    and "new_channels a conns" and "sockets_ready a"
    and "\<forall>e' \<in> set es. en_recipient_device_id e' = en_recipient_device_id e \<longrightarrow> en_message_id e' = en_message_id e \<longrightarrow> e' = e"
    and "items_of ''msg'' (look_of E a) (en_recipient_device_id e) (en_message_id e) \<in> {None, Some (json_of (e_envelope_json E) e)}"
    and "run_schedule is (senders_and_sockets E I es conns, a) = (ts, a')"
    and "\<forall>k < length conns. finished (ts ! (length es + k))" and "i < length es" "es ! i = e" "ts ! i = Done (Ok ())"
  shows "items_of ''msg'' (look_of E a') (en_recipient_device_id e) (en_message_id e) = Some (json_of (e_envelope_json E) e) \<or>
    (\<exists>c. channel_for a conns (en_recipient_device_id e) c \<and> ws_text E (SendMessage e) \<in> set (ch_frames (ap_channels a' c)))"
proof -
  let ?n = "length es" and ?d = "en_recipient_device_id e"
  obtain own where own: "\<And>d c. channel_for a conns d c \<Longrightarrow> own c = d" "\<And>c. \<nexists>d. channel_for a conns d c \<Longrightarrow> own c = []"
    using channel_owner [OF assms(5,4)] by metis
  have u: "uuid_text ?d" using assms(2,10,11) by (metis nth_mem)
  let ?W = "watching E e own ?n conns"
  have "delivery.running ?W (thread_result ?W es conns) (senders_and_sockets E I es conns, a) ({}, snd ` set conns)"
    by (rule watching_starts [OF assms(1) u assms(3,4,5) own(1) assms(6,2,7)])
  from delivery.running_schedule [OF this, of "is"] assms(8) obtain g where
    r: "delivery.running ?W (thread_result ?W es conns) (ts, a') g" by auto
  have n: "length ts = ?n + length conns"
    using run_schedule_length [of "is" "(senders_and_sockets E I es conns, a)", unfolded assms(8)]
    by (simp add: senders_and_sockets_def)
  obtain hold closed where g: "g = (hold, closed)" by (cases g)
  have st: "sound ?W (a', g)" "reached ?W (a', g)"
    using delivery.running_result [OF r, of i "Ok ()"] assms(10-12) n by (simp_all add: thread_result_def stored_def)
  have "snd (conns ! k) \<notin> hold" if k: "k < length conns" for k
  proof -
    obtain x where "ts ! (?n + k) = Done x" using assms(9) k by (cases "ts ! (?n + k)") auto
    with delivery.running_result [OF r, of "?n + k" x] k n show ?thesis by (simp add: thread_result_def served_def g)
  qed
  then have "hold = {}" using st(1) by (auto simp: g split: if_splits)
  have "channel_for a conns ?d c" if "own c = ?d" for c
    using own(2) [of c] own(1) [of _ c] that u by (cases "\<exists>d. channel_for a conns d c") (auto simp: uuid_text_def)
  with st \<open>hold = {}\<close> show ?thesis
    by (auto simp: g w_key_def w_blob_def w_text_def item_keys items_of_def)
qed

end
