(* ===== verification/Delivery_Races.thy ===== *)
theory Delivery_Races
  imports Interleaved_Delivery
begin

text \<open>
  Schedules of senders and sockets that go wrong: a message that is queued just after its device has looked
  through the queue, and a reconnect in which the cleanup of the old socket makes the new one lose the queue.
  The first is also the run on which the witness of \<open>Interleaved_Delivery\<close> rests.
\<close>

section \<open>A message overtaken by a socket\<close>

text \<open>What is left of sending after the device was found to be away.\<close>

definition queueing :: "('s, 't) env \<Rightarrow> encrypted_envelope \<Rightarrow> ('s app, string, unit) async" where
  "queueing E e = seq (map_err_t messaging_error_str
       (on_redis_t (enqueue_t (e_redis E) (en_recipient_device_id e) (en_message_id e)
         (json_of (e_envelope_json E) e) (message_ttl e)))) (\<lambda>_.
     notify_offline_t E (en_recipient_device_id e))"

lemma sending_starts:
  assumes "env_ok E" and "map_of (ap_connections a) (en_recipient_device_id e) = None"
  obtains h where "on_send_message_t E e = Step h" "h a = (queueing E e, a)"
  using assms
  by (simp add: on_send_message_t_def delivered_to_t_def send_to_device_t_def catch_t_def after_def seq_def atom_def Let_def
      send_through_def queueing_def env_okD(3) ret_t_def)

lemma run_queueing:
  assumes "env_ok E" and "0 < message_ttl e" and "look_of E a (msg_key (en_recipient_device_id e) (en_message_id e)) = None"
  shows "\<exists>a'. run_task (queueing E e) a = (Ok (), a') \<and> ap_connections a' = ap_connections a \<and> ap_channels a' = ap_channels a \<and>
    look_of E a' = (look_of E a)(msg_key (en_recipient_device_id e) (en_message_id e) \<mapsto>
      (json_of (e_envelope_json E) e, Some (message_ttl e)))"
proof -
  let ?d = "en_recipient_device_id e" and ?b = "json_of (e_envelope_json E) e"
  have "\<not> has (look_of E a) (msg_key ?d (en_message_id e))" using assms(3) by (simp add: has_def)
  with enqueue_app [OF assms(1,2), of ?d "en_message_id e" ?b a] obtain s' where
    q: "enqueue (e_redis E) ?d (en_message_id e) ?b (message_ttl e) (ap_redis a) = (Ok (), s')"
      "r_look (e_redis E) s' = (look_of E a)(msg_key ?d (en_message_id e) \<mapsto> (?b, Some (message_ttl e)))"
    unfolding if_False by (elim exE conjE) (simp only: if_False)
  let ?a = "a\<lparr>ap_redis := s'\<rparr>"
  from push_ignored [OF assms(1), of ?d ?a] obtain a' where p: "notify_offline E ?d ?a = (Ok (), a')"
    "look_of E a' = look_of E ?a" "ap_connections a' = ap_connections ?a" "ap_channels a' = ap_channels ?a" by blast
  have "run_task (queueing E e) a = (Ok (), a')"
    using q(1) p(1) by (simp add: queueing_def alone map_err_a_def bind_a_Ok)
  with p q(2) show ?thesis by simp
qed

lemma ws_text_inj: "env_ok E \<Longrightarrow> ws_text E m = ws_text E m' \<longleftrightarrow> m = m'"
  using env_okD(7) [of E m] env_okD(7) [of E m'] str_bytes_bytes_str unfolding ws_text_def by (metis sum.inject(2))

lemma overtaken:
  fixes E :: "('s, 't) env"
  assumes E: "env_ok E" and d: "uuid_text (en_recipient_device_id e)" and reads: "queue_reads E a (en_recipient_device_id e)"
    and away: "map_of (ap_connections a) (en_recipient_device_id e) = None" and ttl: "0 < message_ttl e"
    and new: "items_of ''msg'' (look_of E a) (en_recipient_device_id e) (en_message_id e) = None"
  shows "\<exists>is a'. run_schedule is (senders_and_sockets E I [e] [(en_recipient_device_id e, c)], a) = ([Done (Ok ()), Done (Ok ())], a') \<and>
    live a' (en_recipient_device_id e) c \<and> ws_text E (SendMessage e) \<notin> set (ch_frames (ap_channels a' c)) \<and>
    items_of ''msg'' (look_of E a') (en_recipient_device_id e) (en_message_id e) = Some (json_of (e_envelope_json E) e) \<and>
    queue_reads E a' (en_recipient_device_id e)"
proof -
  let ?d = "en_recipient_device_id e" and ?open = "open_socket_t E (I c) (en_recipient_device_id e) c :: ('s app, string, unit) async"
  obtain h where h: "on_send_message_t E e = Step h" "h a = (queueing E e, a)" by (rule sending_starts [OF E away])
  obtain a1 es and ws :: "pending_wipe list" where
    o: "open_socket E (I c) ?d c a = (Ok () :: (string, unit) outcome, a1)" "live a1 ?d c"
      "ch_frames (ap_channels a1 c) = map (\<lambda>e. ws_text E (SendMessage e)) es @ map (\<lambda>w. ws_text E (WipeCommand (pw_command w))) ws"
      "set es = queued_for E a ?d" "look_of E a1 = look_of E a |` {k. \<not> prefix (item_prefix ''msg'' ?d) k}"
    using open_socket_run [OF E d reads, of "I c" c, where 'e = string]
    by (elim exE conjE) (rule that; assumption)
  have "look_of E a1 (msg_key ?d (en_message_id e)) = None" by (simp add: o(5) item_keys)
  from run_queueing [OF E ttl this] obtain a2 where q: "run_task (queueing E e) a1 = (Ok (), a2)"
    "ap_connections a2 = ap_connections a1" "ap_channels a2 = ap_channels a1"
    "look_of E a2 = (look_of E a1)(msg_key ?d (en_message_id e) \<mapsto> (json_of (e_envelope_json E) e, Some (message_ttl e)))"
    by (elim exE conjE)
  from schedule_alone [of "Suc 0" "[queueing E e, ?open]" a] obtain n where
    n: "run_schedule (replicate n (Suc 0)) ([queueing E e, ?open], a) = ([queueing E e, Done (Ok ())], a1)"
    by (auto simp: run_open_socket o(1))
  from schedule_alone [of 0 "[queueing E e, Done (Ok ())]" a1] obtain m where
    m: "run_schedule (replicate m 0) ([queueing E e, Done (Ok ())], a1) = ([Done (Ok ()), Done (Ok ())], a2)" by (auto simp: q(1))
  have "run_schedule (0 # replicate n (Suc 0) @ replicate m 0) (senders_and_sockets E I [e] [(?d, c)], a) =
      ([Done (Ok ()), Done (Ok ())], a2)"
    by (simp add: senders_and_sockets_def turn_def h n m)
  moreover have "ws_text E (SendMessage e) \<notin> set (ch_frames (ap_channels a2 c))"
    using new o(4) by (auto simp: q(3) o(3) ws_text_inj [OF E] queued_for_def)
  moreover have "queue_reads E a2 ?d"
    unfolding queue_reads_def q(4) o(5) by (auto simp: items_of_def item_keys restrict_map_def)
  ultimately show ?thesis using o(2) q by (intro exI conjI) (assumption | simp add: live_def item_keys items_of_def)+
qed

text \<open>
  C34: A socket can overtake a message. The device is away, its message is being sent, and between the check
  for a connection and the command that queues the message the device connects: its socket looks through the
  queue before the message is there. Both handlers succeed, the socket is open and nothing has been written
  to it, and the message waits in the queue until the device connects another time.
\<close>

theorem socket_overtakes_message:
  fixes E :: "('s, 't) env"
  assumes "env_ok E" and "uuid_text (en_recipient_device_id e)" and "queue_reads E a (en_recipient_device_id e)"
    and "map_of (ap_connections a) (en_recipient_device_id e) = None" and "0 < message_ttl e"
    and "items_of ''msg'' (look_of E a) (en_recipient_device_id e) (en_message_id e) = None"
  shows "\<exists>is a' a''. run_schedule is (senders_and_sockets E I [e] [(en_recipient_device_id e, c)], a) =
      ([Done (Ok ()), Done (Ok ())], a') \<and>
    live a' (en_recipient_device_id e) c \<and> ws_text E (SendMessage e) \<notin> set (ch_frames (ap_channels a' c)) \<and>
    items_of ''msg'' (look_of E a') (en_recipient_device_id e) (en_message_id e) = Some (json_of (e_envelope_json E) e) \<and>
    open_socket E I' (en_recipient_device_id e) c' a' = (Ok () :: (string, unit) outcome, a'') \<and>
    ws_text E (SendMessage e) \<in> set (ch_frames (ap_channels a'' c'))"
proof -
  let ?d = "en_recipient_device_id e"
  obtain "is" a' where r: "run_schedule is (senders_and_sockets E I [e] [(?d, c)], a) = ([Done (Ok ()), Done (Ok ())], a')"
    "live a' ?d c" "ws_text E (SendMessage e) \<notin> set (ch_frames (ap_channels a' c))"
    "items_of ''msg'' (look_of E a') ?d (en_message_id e) = Some (json_of (e_envelope_json E) e)" "queue_reads E a' ?d"
    using overtaken [OF assms, of I c] by (elim exE conjE) (rule that; assumption)
  obtain a2 es and ws :: "pending_wipe list" where o: "open_socket E I' ?d c' a' = (Ok () :: (string, unit) outcome, a2)"
    "ch_frames (ap_channels a2 c') = map (\<lambda>e. ws_text E (SendMessage e)) es @ map (\<lambda>w. ws_text E (WipeCommand (pw_command w))) ws"
    "set es = queued_for E a' ?d"
    using open_socket_run [OF assms(1,2) r(5), of I' c', where 'e = string] by (elim exE conjE) (rule that; assumption)
  have "e \<in> set es" using r(4) by (simp add: o(3) queued_for_def)
  then have "ws_text E (SendMessage e) \<in> set (ch_frames (ap_channels a2 c'))" by (simp add: o(2))
  with r(1-4) o(1) show ?thesis by (intro exI conjI)
qed

lemma demo_away:
  "env_ok toy_env" "uuid_text (en_recipient_device_id (demo_envelope dev_b ''m'' (Some 60)))"
  "queue_reads toy_env toy_app (en_recipient_device_id (demo_envelope dev_b ''m'' (Some 60)))"
  "map_of (ap_connections toy_app) (en_recipient_device_id (demo_envelope dev_b ''m'' (Some 60))) = None"
  "0 < message_ttl (demo_envelope dev_b ''m'' (Some 60))"
  "items_of ''msg'' (look_of toy_env toy_app) (en_recipient_device_id (demo_envelope dev_b ''m'' (Some 60)))
    (en_message_id (demo_envelope dev_b ''m'' (Some 60))) = None"
  by (simp_all add: queue_reads_def items_of_def)

theorem socket_overtakes_message_witness:
  "\<exists>is a' a''. run_schedule is (senders_and_sockets toy_env (\<lambda>_. toy_inputs 5) [demo_envelope dev_b ''m'' (Some 60)] [(dev_b, 1)], toy_app) =
      ([Done (Ok ()), Done (Ok ())], a') \<and> live a' dev_b 1 \<and>
    open_socket toy_env (toy_inputs 9) dev_b 2 a' = (Ok () :: (string, unit) outcome, a'') \<and>
    ws_text toy_env (SendMessage (demo_envelope dev_b ''m'' (Some 60))) \<in> set (ch_frames (ap_channels a'' 2))"
  using socket_overtakes_message [OF demo_away, of "\<lambda>_. toy_inputs 5" 1 "toy_inputs 9" 2]
  by (elim exE conjE) (intro exI conjI; simp only: demo_envelope_parts)

theorem no_message_lost_witness:
  "\<exists>is ts a'. run_schedule is (senders_and_sockets toy_env (\<lambda>_. toy_inputs 5) [demo_envelope dev_b ''m'' (Some 60)] [(dev_b, 1)], toy_app) =
      (ts, a') \<and> list_all finished ts \<and>
    (items_of ''msg'' (look_of toy_env a') dev_b ''m'' = Some (json_of (e_envelope_json toy_env) (demo_envelope dev_b ''m'' (Some 60))) \<or>
     (\<exists>c. channel_for toy_app [(dev_b, 1)] dev_b c \<and>
       ws_text toy_env (SendMessage (demo_envelope dev_b ''m'' (Some 60))) \<in> set (ch_frames (ap_channels a' c))))"
proof -
  let ?e = "demo_envelope dev_b ''m'' (Some 60)" and ?I = "\<lambda>_. toy_inputs 5"
  obtain "is" a' where r: "run_schedule is (senders_and_sockets toy_env ?I [?e] [(dev_b, 1)], toy_app) =
      ([Done (Ok ()), Done (Ok ())], a')"
    using overtaken [OF demo_away, of ?I 1] unfolding demo_envelope_parts by (elim exE conjE) (rule that; assumption)
  have "new_channels toy_app [(dev_b, 1)]" "sockets_ready toy_app" by (simp_all add: new_channels_def sockets_ready_def)
  from no_message_lost [where i = 0 and e = ?e, OF toy_env_ok _ _ this _ _ r] demo_away(6)
  have "items_of ''msg'' (look_of toy_env a') dev_b ''m'' = Some (json_of (e_envelope_json toy_env) ?e) \<or>
     (\<exists>c. channel_for toy_app [(dev_b, 1)] dev_b c \<and> ws_text toy_env (SendMessage ?e) \<in> set (ch_frames (ap_channels a' c)))"
    by simp
  with r show ?thesis by (intro exI conjI) (assumption | simp)+
qed

section \<open>A queue emptied for a socket that is gone\<close>

lemma unregistered_send:
  assumes "env_ok E" and "map_of (ap_connections a) d = None"
  shows "try_send E d m a = (Ok (), a)" "deliver_queued E d q a = (Ok (), a)"
proof -
  have "\<nexists>c. live a d c" using assms(2) by (simp add: live_def)
  from send_not_live(2) [OF assms(1) this] show s: "try_send E d m' a = (Ok (), a)" for m'
    by (simp add: offline_drop_def assms(2))
  show "deliver_queued E d q a = (Ok (), a)"
    by (cases "from_json (e_envelope_json E) (qm_encrypted_blob q)") (simp_all add: deliver_queued_def s send_raw_def assms(2))
qed

lemma for_idle: "(\<And>x. f x a = (Ok (), a)) \<Longrightarrow> for_a xs f a = (Ok (), a)"
  by (induction xs) (simp_all add: bind_a_Ok)

lemma unregistered_delivery:
  assumes E: "env_ok E" and d: "uuid_text d" and none: "map_of (ap_connections a) d = None"
  shows "\<exists>s'. deliver_pending_messages E d a = (Ok (), a\<lparr>ap_redis := s'\<rparr>) \<and>
      r_look (e_redis E) s' = look_of E a |` {k. \<not> prefix (item_prefix ''msg'' d) k}"
    and "\<exists>s'. deliver_pending_wipes E d a = (Ok (), a\<lparr>ap_redis := s'\<rparr>) \<and> r_look (e_redis E) s' = look_of E a"
proof -
  from dequeue_all_run [OF env_okD(1) [OF E] d order_refl, of "ap_redis a"] obtain ms s1 where
    q: "dequeue_all (e_fuel E) (e_redis E) d (ap_redis a) = (Ok (Some ms), s1)"
      "r_look (e_redis E) s1 = look_of E a |` {k. \<not> prefix (item_prefix ''msg'' d) k}"
    unfolding look_of_def by (elim exE conjE)
  have "for_a ms (deliver_queued E d) (a\<lparr>ap_redis := s1\<rparr>) = (Ok (), a\<lparr>ap_redis := s1\<rparr>)"
    by (rule for_idle) (simp add: unregistered_send(2) [OF E] none)
  with q show "\<exists>s'. deliver_pending_messages E d a = (Ok (), a\<lparr>ap_redis := s'\<rparr>) \<and>
      r_look (e_redis E) s' = look_of E a |` {k. \<not> prefix (item_prefix ''msg'' d) k}"
    by (intro exI [of _ s1]) (simp add: deliver_pending_messages_def bind_a_def catch_a_def returned_def)
  from get_pending_wipes_run [OF env_okD(1) [OF E] d order_refl, of "e_wipe_json E" "ap_redis a"] obtain ws s2 where
    w: "get_pending_wipes (e_fuel E) (e_redis E) (e_wipe_json E) d (ap_redis a) = (Ok (Some ws), s2)"
      "r_look (e_redis E) s2 = look_of E a" unfolding look_of_def by (elim exE conjE)
  have "for_a ws (deliver_wipe E d) (a\<lparr>ap_redis := s2\<rparr>) = (Ok (), a\<lparr>ap_redis := s2\<rparr>)"
    by (rule for_idle) (simp add: deliver_wipe_def unregistered_send(1) [OF E] none)
  with w show "\<exists>s'. deliver_pending_wipes E d a = (Ok (), a\<lparr>ap_redis := s'\<rparr>) \<and> r_look (e_redis E) s' = look_of E a"
    by (intro exI [of _ s2]) (simp add: deliver_pending_wipes_def bind_a_def catch_a_def returned_def)
qed

text \<open>Opening a socket from the third step on.\<close>

definition serving_t :: "('s, 't) env \<Rightarrow> inputs \<Rightarrow> uuid \<Rightarrow> ('s app, 'e, unit) async" where
  "serving_t E I device_id =
     seq (atom (db_or () (set_online (in_now I) device_id True))) (\<lambda>_.
     seq (deliver_pending_messages_t E device_id) (\<lambda>_.
     deliver_pending_wipes_t E device_id))"

lemma open_socket_steps:
  "open_socket_t E I d c =
     seq (atom (mod_s (set_channel c (\<lambda>_. \<lparr>ch_receiving = True, ch_frames = [], ch_pong = True\<rparr>)))) (\<lambda>_.
     seq (atom (mod_s (\<lambda>a. a\<lparr>ap_connections := AList.update d c (ap_connections a)\<rparr>))) (\<lambda>_.
     serving_t E I d))"
  by (simp only: open_socket_t_def serving_t_def)

lemma unregistered_serving:
  assumes E: "env_ok E" and d: "uuid_text d" and none: "map_of (ap_connections a) d = None"
  shows "\<exists>a'. run_task (serving_t E I d) a = (Ok () :: ('e, unit) outcome, a') \<and> ap_channels a' = ap_channels a \<and>
    look_of E a' = look_of E a |` {k. \<not> prefix (item_prefix ''msg'' d) k}"
proof -
  obtain d' where on: "db_or () (set_online (in_now I) d True) a = (Ok () :: ('e, unit) outcome, a\<lparr>ap_db := d'\<rparr>)" using set_online_ignored by blast
  let ?a = "a\<lparr>ap_db := d'\<rparr>"
  from unregistered_delivery(1) [OF E d, of ?a] none obtain s1 where
    m: "deliver_pending_messages E d ?a = (Ok () :: ('e, unit) outcome, ?a\<lparr>ap_redis := s1\<rparr>)"
      "r_look (e_redis E) s1 = look_of E ?a |` {k. \<not> prefix (item_prefix ''msg'' d) k}" by auto
  from unregistered_delivery(2) [OF E d, of "?a\<lparr>ap_redis := s1\<rparr>"] none obtain s2 where
    w: "deliver_pending_wipes E d (?a\<lparr>ap_redis := s1\<rparr>) = (Ok () :: ('e, unit) outcome, ?a\<lparr>ap_redis := s2\<rparr>)" "r_look (e_redis E) s2 = r_look (e_redis E) s1"
    by auto
  have "run_task (serving_t E I d) a = (Ok () :: ('e, unit) outcome, ?a\<lparr>ap_redis := s2\<rparr>)"
    by (simp add: serving_t_def alone bind_a_def on m(1) w(1))
  moreover have "look_of E ?a = look_of E a" by (simp add: look_of_def)
  ultimately show ?thesis using m(2) w(2) by (intro exI [of _ "?a\<lparr>ap_redis := s2\<rparr>"]) simp
qed

text \<open>
  C35: A reconnect can lose the whole queue. The device opens a new socket while the handler of its old one
  ends: after the new connection is registered, the cleanup of the old one removes the entry of the device,
  and then the new handler takes every message out of the queue and finds nobody to send it to. Both
  handlers succeed; nothing is left in the queue and no channel has got a frame.
\<close>

theorem reconnect_loses_queue:
  fixes E :: "('s, 't) env"
  assumes E: "env_ok E" and d: "uuid_text d" and c: "c \<noteq> c0"
  shows "\<exists>is a'. run_schedule is ([open_socket_t E I d c, close_socket_t I' d c0], a) =
      ([Done (Ok ()), Done (Ok () :: (string, unit) outcome)], a') \<and>
    (\<forall>i. items_of ''msg'' (look_of E a') d i = None) \<and>
    (\<forall>c'. ch_frames (ap_channels a' c') = (if c' = c then [] else ch_frames (ap_channels a c')))"
proof -
  let ?a1 = "set_channel c (\<lambda>_. \<lparr>ch_receiving = True, ch_frames = [], ch_pong = True\<rparr>) a"
  let ?a2 = "?a1\<lparr>ap_connections := AList.update d c (ap_connections ?a1)\<rparr>"
  let ?close = "close_socket_t I' d c0 :: ('s app, string, unit) async"
  let ?serve = "serving_t E I d :: ('s app, string, unit) async"
  have two: "run_schedule [0, 0] ([open_socket_t E I d c, ?close], a) = ([?serve, ?close], ?a2)"
    by (simp add: open_socket_steps seq_atom turn_def)
  obtain db' where "db_or () (set_online (in_now I') d False) (set_channel c0 (\<lambda>ch. ch\<lparr>ch_receiving := False\<rparr>) (drop_connection d ?a2)) =
      (Ok () :: (string, unit) outcome, (set_channel c0 (\<lambda>ch. ch\<lparr>ch_receiving := False\<rparr>) (drop_connection d ?a2))\<lparr>ap_db := db'\<rparr>)"
    using set_online_ignored by blast
  then obtain a3 where a3: "run_task ?close ?a2 = (Ok (), a3)" "map_of (ap_connections a3) d = None"
    "\<And>c'. ch_frames (ap_channels a3 c') = (if c' = c then [] else ch_frames (ap_channels a c'))"
    using c by (auto simp: run_close_socket close_socket_def set_channel_def drop_connection_def delete_conv')
  from schedule_alone [of "Suc 0" "[?serve, ?close]" ?a2] a3(1) obtain n where
    n: "run_schedule (replicate n (Suc 0)) ([?serve, ?close], ?a2) = ([?serve, Done (Ok ())], a3)" by auto
  from unregistered_serving [OF E d a3(2), of I, where 'e = string] obtain a4 where
    a4: "run_task (serving_t E I d) a3 = (Ok () :: (string, unit) outcome, a4)" "ap_channels a4 = ap_channels a3"
      "look_of E a4 = look_of E a3 |` {k. \<not> prefix (item_prefix ''msg'' d) k}" by blast
  from schedule_alone [of 0 "[?serve, Done (Ok () :: (string, unit) outcome)]" a3] a4(1) obtain m where
    m: "run_schedule (replicate m 0) ([?serve, Done (Ok ())], a3) = ([Done (Ok ()), Done (Ok ())], a4)" by auto
  have "run_schedule ([0, 0] @ replicate n (Suc 0) @ replicate m 0) ([open_socket_t E I d c, ?close], a) =
      ([Done (Ok ()), Done (Ok ())], a4)"
    by (simp only: run_schedule_simps(3) two n m)
  moreover have "\<forall>i. items_of ''msg'' (look_of E a4) d i = None" by (simp add: a4(3) items_of_def)
  ultimately show ?thesis using a3(3) a4(2) by (intro exI conjI) (assumption | simp)+
qed

text \<open>A queue with one message, before and after.\<close>

definition queued_app :: "mem app" where
  "queued_app = toy_app\<lparr>ap_redis := [(item_prefix ''msg'' dev_b @ ''m'', ([1, 2, 3], Some 60))]\<rparr>"

theorem reconnect_loses_queue_witness:
  "items_of ''msg'' (look_of toy_env queued_app) dev_b ''m'' = Some [1, 2, 3] \<and>
   (\<exists>is a'. run_schedule is ([open_socket_t toy_env (toy_inputs 5) dev_b 2, close_socket_t (toy_inputs 5) dev_b 1], queued_app) =
      ([Done (Ok ()), Done (Ok () :: (string, unit) outcome)], a') \<and> items_of ''msg'' (look_of toy_env a') dev_b ''m'' = None)"
  using reconnect_loses_queue [OF toy_env_ok demo_devices(2), of 2 1 "toy_inputs 5" "toy_inputs 5" queued_app]
  by (auto simp: queued_app_def items_of_def toy_env_def mem_redis_def)

end
