(* ===== verification/Interleaved_Codes.thy ===== *)
theory Interleaved_Codes
  imports Handler_Tasks Otp_Properties
begin

text \<open>
  A one-time code tried by several requests at the same time. \<open>verify_otp\<close> reads the code and deletes it
  with two commands, so requests that overlap can all be accepted; one that starts after another has
  answered cannot.
\<close>

section \<open>After an accepted request\<close>

definition code_gone :: "('s, 't) env \<times> string \<Rightarrow> 's app \<Rightarrow> bool" where
  "code_gone p a \<longleftrightarrow> look_of (fst p) a (''otp:'' @ snd p) = None"

text \<open>No request stores a code.\<close>

definition c_rely :: "('s, 't) env \<times> string \<Rightarrow> nat \<Rightarrow> ('s app, unit) change" where
  "c_rely p i x y \<longleftrightarrow> (code_gone p (fst x) \<longrightarrow> code_gone p (fst y))"

interpretation codes_race: non_interfering c_rely c_rely
  by unfold_locales (simp add: c_rely_def)

definition accepts :: "(hysj_error, verify_otp_response) outcome \<Rightarrow> bool" where
  "accepts r \<longleftrightarrow> (\<exists>v. r = Ok v \<and> ov_verified v)"

lemma accepts_simps [simp]: "accepts (Ok v) = ov_verified v" "\<not> accepts (Err e)" "\<not> accepts (Panic q)"
  by (simp_all add: accepts_def)

text \<open>
  What a request promises: if it accepts a code of the phone, the code is gone, and if the code was gone
  when it started (\<open>late\<close>) it does not accept.
\<close>

definition promise ::
    "('s, 't) env \<times> string \<Rightarrow> bool \<Rightarrow> verify_otp_request \<Rightarrow> (hysj_error, verify_otp_response) outcome \<Rightarrow> ('s app, unit) assn" where
  "promise p late req r x \<longleftrightarrow> (accepts r \<and> vo_phone_number req = snd p \<longrightarrow> \<not> late \<and> code_gone p (fst x))"

definition starting :: "('s, 't) env \<times> string \<Rightarrow> bool \<Rightarrow> ('s app, unit) assn" where
  "starting p late x \<longleftrightarrow> (late \<longrightarrow> code_gone p (fst x))"

lemma c_stable [simp, intro]: "stable (c_rely p i) (promise p late req r)" "stable (c_rely p i) (starting p late)"
  by (auto simp: stable_def c_rely_def promise_def starting_def)

lemma set_token_look:
  assumes "redis_good N R" and "store_verification_token R token phone ttl s = (r, s')"
  shows "r_look R s' (''otp:'' @ k) = r_look R s (''otp:'' @ k)"
  using redis_good_commands(3) [OF assms(1), of "''otp_verified:'' @ token" "str_bytes phone" ttl s] assms(2)
  by (auto simp: store_verification_token_def Let_def cmd_def map_err_a_def performs_def split: prod.splits outcome.splits)

lemma del_look:
  assumes "redis_good N R"
  obtains n s' where "cmd (r_del R [k]) s = (Ok n, s')" "r_look R s' = r_look R s |` (- {k})"
proof -
  obtain s' where "r_del R [k] s = (Ok (card (dom (r_look R s) \<inter> set [k])), s')" "r_look R s' = r_look R s |` (- set [k])"
    by (rule redis_del [OF assms])
  then show thesis by (intro that [of _ s']) simp_all
qed

text \<open>The single commands of a request: reading the code, deleting it, storing the token.\<close>

lemma sat_read_code:
  fixes E :: "('s, 't) env"
  assumes E: "env_ok E" and Q: "\<And>r. stable (c_rely p i) (Q r)" and p: "p = (E, phone)"
    and err: "\<And>e x. starting p late x \<Longrightarrow> Q (Err e) x"
  shows "sat (c_rely p i) (c_rely p i)
    (on_ok (\<lambda>stored x. (late \<and> k = phone \<longrightarrow> stored = None) \<and> starting p late x) Q) (starting p late)
    (atom (on_redis (cmd (get_string (e_redis E) (''otp:'' @ k)))))"
proof (rule sat_atom [OF c_stable(2)])
  let ?M = "\<lambda>stored x. (late \<and> k = phone \<longrightarrow> stored = None) \<and> starting p late x"
  show "stable (c_rely p i) (on_ok ?M Q r)" for r by (intro stable_on_ok stable_intros c_stable Q)
  fix a :: "'s app" and g :: unit assume P: "starting p late (a, g)"
  let ?R = "e_redis E"
  obtain s' where s: "r_get ?R (''otp:'' @ k) (ap_redis a) = (Ok (map_option fst (look_of E a (''otp:'' @ k))), s')"
    "r_look ?R s' = look_of E a" unfolding look_of_def by (rule redis_get [OF env_okD(1) [OF E]])
  define r where "r = fst (get_string ?R (''otp:'' @ k) (ap_redis a))"
  have r: "get_string ?R (''otp:'' @ k) (ap_redis a) = (r, s')" "\<forall>q. r \<noteq> Panic q"
    "look_of E a (''otp:'' @ k) = None \<longrightarrow> r = Ok None"
    using s(1) by (auto simp: r_def get_string_def bind_a_Ok simp del: append.simps split: option.split)
  have st: "starting p late (a\<lparr>ap_redis := s'\<rparr>, ())" using P s(2) p by (simp add: starting_def code_gone_def look_of_def)
  have "late \<and> k = phone \<longrightarrow> r = Ok None" using P r(3) p by (simp add: starting_def code_gone_def)
  with st r(1,2) err [OF st] show "\<exists>g'. c_rely p i (a, g) (snd (on_redis (cmd (get_string ?R (''otp:'' @ k))) a), g') \<and>
      on_ok ?M Q (fst (on_redis (cmd (get_string ?R (''otp:'' @ k))) a)) (snd (on_redis (cmd (get_string ?R (''otp:'' @ k))) a), g')"
    using s(2) p by (cases r) (auto simp: on_redis_def cmd_def map_err_a_def c_rely_def code_gone_def look_of_def)
qed

definition redeemed :: "('s, 't) env \<times> string \<Rightarrow> bool \<Rightarrow> string \<Rightarrow> ('s app, unit) assn" where
  "redeemed p late k x \<longleftrightarrow> (k = snd p \<longrightarrow> \<not> late \<and> code_gone p (fst x))"

lemma redeemed_stable [simp, intro]: "stable (c_rely p i) (redeemed p late k)"
  by (auto simp: stable_def c_rely_def redeemed_def)

lemma sat_delete_code:
  fixes E :: "('s, 't) env"
  assumes E: "env_ok E" and Q: "\<And>r. stable (c_rely p i) (Q r)" and p: "p = (E, phone)" and k: "\<not> (late \<and> k = phone)"
  shows "sat (c_rely p i) (c_rely p i) (on_ok (\<lambda>n. redeemed p late k) Q) (starting p late)
    (atom (on_redis (cmd (r_del (e_redis E) [''otp:'' @ k]))))"
proof (rule sat_atom [OF c_stable(2) stable_on_ok [OF redeemed_stable Q]])
  fix a :: "'s app" and g :: unit assume "starting p late (a, g)"
  obtain n s' where s: "cmd (r_del (e_redis E) [''otp:'' @ k]) (ap_redis a) = (Ok n, s')"
    "r_look (e_redis E) s' = r_look (e_redis E) (ap_redis a) |` (- {''otp:'' @ k})" by (rule del_look [OF env_okD(1) [OF E]])
  have "code_gone p a \<Longrightarrow> code_gone p (a\<lparr>ap_redis := s'\<rparr>)" "k = phone \<Longrightarrow> code_gone p (a\<lparr>ap_redis := s'\<rparr>)"
    using s(2) p by (simp_all add: code_gone_def look_of_def restrict_map_def)
  with s(1) k p show "\<exists>g'. c_rely p i (a, g) (snd (on_redis (cmd (r_del (e_redis E) [''otp:'' @ k])) a), g') \<and>
      on_ok (\<lambda>n. redeemed p late k) Q (fst (on_redis (cmd (r_del (e_redis E) [''otp:'' @ k])) a))
        (snd (on_redis (cmd (r_del (e_redis E) [''otp:'' @ k])) a), g')"
    by (auto simp: redeemed_def c_rely_def)
qed

lemma sat_store_token:
  fixes E :: "('s, 't) env"
  assumes E: "env_ok E" and Q: "\<And>r. stable (c_rely p i) (Q r)" and p: "p = (E, phone)"
    and err: "\<And>e x. Q (Err e) x" "\<And>e x. Q (Panic e) x"
  shows "sat (c_rely p i) (c_rely p i) (on_ok (\<lambda>_. redeemed p late k) Q) (redeemed p late k)
    (atom (on_redis (store_verification_token (e_redis E) token k' ttl)))"
proof (rule sat_atom [OF redeemed_stable stable_on_ok [OF redeemed_stable Q]])
  fix a :: "'s app" and g :: unit assume P: "redeemed p late k (a, g)"
  obtain r s' where s: "store_verification_token (e_redis E) token k' ttl (ap_redis a) = (r, s')" by fastforce
  from set_token_look [OF env_okD(1) [OF E] s] have "code_gone p (a\<lparr>ap_redis := s'\<rparr>) \<longleftrightarrow> code_gone p a"
    using p by (simp add: code_gone_def look_of_def)
  with P s show "\<exists>g'. c_rely p i (a, g) (snd (on_redis (store_verification_token (e_redis E) token k' ttl) a), g') \<and>
      on_ok (\<lambda>_. redeemed p late k) Q (fst (on_redis (store_verification_token (e_redis E) token k' ttl) a))
        (snd (on_redis (store_verification_token (e_redis E) token k' ttl) a), g')"
    by (cases r) (auto simp: redeemed_def c_rely_def on_redis_def err)
qed

lemma sat_verify_code:
  fixes E :: "('s, 't) env"
  assumes E: "env_ok E" and p: "p = (E, phone)" and Q: "\<And>r. stable (c_rely p i) (Q r)" and err: "\<And>e x. Q (Err e) x"
  shows "sat (c_rely p i) (c_rely p i) (on_ok (\<lambda>valid x. valid \<longrightarrow> redeemed p late k x) Q) (starting p late)
    (on_redis_t (verify_otp_t (e_redis E) k code))"
proof -
  let ?Q = "on_ok (\<lambda>valid x. valid \<longrightarrow> redeemed p late k x) Q"
  have st: "stable (c_rely p i) (\<lambda>x. valid \<longrightarrow> redeemed p late k x)" for valid by (cases valid) simp_all
  have stQ: "stable (c_rely p i) (?Q r)" for r by (rule stable_on_ok [OF st Q])
  have no: "sat (c_rely p i) (c_rely p i) ?Q (starting p late) (ret_t False)" by (rule sat_ret) (simp_all add: stQ)
  have del: "sat (c_rely p i) (c_rely p i) ?Q (starting p late)
      (seq (atom (on_redis (cmd (r_del (e_redis E) [''otp:'' @ k])))) (\<lambda>_. ret_t True))" if "\<not> (late \<and> k = phone)"
    by (rule sat_seq [OF sat_delete_code [OF E stQ p that] sat_ret stQ]) (simp_all add: stQ)
  show ?thesis unfolding verify_otp_t_def Let_def on_redis_t_simps cmd_t_atom
  proof (rule sat_seq [OF sat_read_code [OF E stQ p] _ stQ])
    fix stored :: "string option"
    show "sat (c_rely p i) (c_rely p i) ?Q (\<lambda>x. (late \<and> k = phone \<longrightarrow> stored = None) \<and> starting p late x)
        (on_redis_t (case stored of Some old \<Rightarrow>
            if old = code then seq (atom (cmd (r_del (e_redis E) [''otp:'' @ k]))) (\<lambda>_. ret_t True) else ret_t False
          | None \<Rightarrow> ret_t False))"
    proof (rule sat_pure [OF stQ])
      assume "late \<and> k = phone \<longrightarrow> stored = None"
      then show "sat (c_rely p i) (c_rely p i) ?Q (starting p late) (on_redis_t (case stored of Some old \<Rightarrow>
            if old = code then seq (atom (cmd (r_del (e_redis E) [''otp:'' @ k]))) (\<lambda>_. ret_t True) else ret_t False
          | None \<Rightarrow> ret_t False))"
        using del no by (cases stored) auto
    qed
  qed (simp add: err)
qed

lemma sat_issue_token:
  fixes E :: "('s, 't) env"
  assumes E: "env_ok E" and p: "p = (E, phone)"
  shows "sat (c_rely p i) (c_rely p i) (promise p late req) (redeemed p late (vo_phone_number req))
      (seq (map_err_t (\<lambda>e. InternalError (messaging_error_str e))
        (on_redis_t (atom (store_verification_token (e_redis E) t (vo_phone_number req) OTP_VERIFICATION_TOKEN_EXPIRY_SECONDS))))
       (\<lambda>_. ret_t \<lparr>ov_verified = True, ov_verification_token = Some t\<rparr>))"
proof (rule sat_seq [where M = "\<lambda>_. redeemed p late (vo_phone_number req)"])
  let ?Q = "promise p late req" and ?k = "vo_phone_number req"
  let ?any = "\<lambda>(r :: (messaging_error, unit) outcome) x :: 's app \<times> unit. True"
  show "sat (c_rely p i) (c_rely p i) (on_ok (\<lambda>_. redeemed p late ?k) ?Q) (redeemed p late ?k)
      (map_err_t (\<lambda>e. InternalError (messaging_error_str e))
        (on_redis_t (atom (store_verification_token (e_redis E) t ?k OTP_VERIFICATION_TOKEN_EXPIRY_SECONDS))))"
    unfolding map_err_t_def on_redis_t_simps
  proof (rule sat_after [OF sat_post [OF sat_store_token [OF E _ p, of i ?any]]])
    fix r :: "(messaging_error, unit) outcome" and x
    show "on_ok (\<lambda>_. redeemed p late ?k) ?Q (map_err (\<lambda>e. InternalError (messaging_error_str e)) r) x"
      if "on_ok (\<lambda>_. redeemed p late ?k) ?any r x" using that by (cases r) (simp_all add: promise_def)
  qed (simp_all add: stable_on_ok)
  show "sat (c_rely p i) (c_rely p i) ?Q (redeemed p late ?k)
      (ret_t \<lparr>ov_verified = True, ov_verification_token = Some t\<rparr>)" for u :: unit
    by (rule sat_ret) (auto simp: promise_def redeemed_def)
qed simp

lemma sat_otp_request:
  fixes E :: "('s, 't) env"
  assumes E: "env_ok E" and p: "p = (E, phone)"
  shows "sat (c_rely p i) (c_rely p i) (promise p late req) (starting p late) (otp_verify_otp_t E I req)"
proof (cases "length (vo_code req) = OTP_CODE_LENGTH")
  case False
  then show ?thesis by (simp add: otp_verify_otp_t_def) (rule sat_Done, simp_all add: promise_def)
next
  case True
  let ?Q = "promise p late req" and ?k = "vo_phone_number req"
  let ?V = "\<lambda>valid x. valid \<longrightarrow> redeemed p late ?k x"
  have st: "stable (c_rely p i) (?V valid)" for valid by (cases valid) simp_all
  have verify: "sat (c_rely p i) (c_rely p i) (on_ok ?V ?Q) (starting p late)
      (map_err_t (\<lambda>e. InternalError (messaging_error_str e)) (on_redis_t (verify_otp_t (e_redis E) ?k (vo_code req))))"
    unfolding map_err_t_def
  proof (rule sat_after)
    let ?err = "map_err (\<lambda>e. InternalError (messaging_error_str e)) :: (messaging_error, bool) outcome \<Rightarrow> (hysj_error, bool) outcome"
    show "stable (c_rely p i) (on_ok ?V ?Q r)" for r :: "(hysj_error, bool) outcome" by (rule stable_on_ok [OF st c_stable(1)])
    let ?any = "\<lambda>(r :: (messaging_error, bool) outcome) x :: 's app \<times> unit. True"
    show "sat (c_rely p i) (c_rely p i) (\<lambda>r. on_ok ?V ?Q (?err r)) (starting p late)
        (on_redis_t (verify_otp_t (e_redis E) ?k (vo_code req)))"
    proof (rule sat_post [OF sat_verify_code [OF E p, of i ?any]])
      show "stable (c_rely p i) (on_ok ?V ?Q (?err r))" for r by (rule stable_on_ok [OF st c_stable(1)])
      show "on_ok ?V ?Q (?err r) x" if "on_ok ?V ?any r x" for r x using that by (cases r) (simp_all add: promise_def)
    qed simp_all
  qed
  have no: "sat (c_rely p i) (c_rely p i) ?Q (?V False) (ret_t \<lparr>ov_verified = False, ov_verification_token = None\<rparr>)"
    by (rule sat_ret) (simp_all add: promise_def)
  show ?thesis unfolding otp_verify_otp_t_def Let_def
    using True by simp (rule sat_seq [OF verify], use sat_issue_token [OF E p] no in \<open>auto split: if_splits\<close>)
qed

definition requests :: "('s, 't) env \<Rightarrow> (inputs \<times> verify_otp_request) list \<Rightarrow>
    ('s app, (hysj_error, verify_otp_response) outcome) task list" where
  "requests E reqs = map (\<lambda>(I, req). otp_verify_otp_t E I req) reqs"

lemma requests_running:
  assumes "env_ok E" and "\<forall>j. late j \<longrightarrow> code_gone (E, phone) (snd c)" and "length (fst c) = length reqs"
    and "\<forall>j < length reqs. if late j then fst c ! j = requests E reqs ! j
      else \<exists>P. P (snd c, ()) \<and> sat (c_rely (E, phone) j) (c_rely (E, phone) j) (promise (E, phone) False (snd (reqs ! j))) P (fst c ! j)"
  shows "codes_race.running (E, phone) (\<lambda>j. promise (E, phone) (late j) (snd (reqs ! j))) c ()"
  unfolding codes_race.running_def
proof (intro allI impI)
  fix j assume j: "j < length (fst c)"
  show "\<exists>P. P (snd c, ()) \<and> sat (c_rely (E, phone) j) (c_rely (E, phone) j) (promise (E, phone) (late j) (snd (reqs ! j))) P (fst c ! j)"
  proof (cases "late j")
    case True
    then have "fst c ! j = otp_verify_otp_t E (fst (reqs ! j)) (snd (reqs ! j))"
      using assms(3,4) j by (simp add: requests_def case_prod_beta)
    moreover have "starting (E, phone) True (snd c, ())" using assms(2) True by (auto simp: starting_def)
    ultimately show ?thesis using sat_otp_request [OF assms(1) refl] True
      by (intro exI [of _ "starting (E, phone) True"]) simp
  qed (use assms(3,4) j in simp)
qed


section \<open>Requests at the same time\<close>

text \<open>What is left of a request after it has read the right code.\<close>

abbreviation "internal \<equiv> map_err_a (\<lambda>e. InternalError (messaging_error_str e))"

definition redeeming :: "('s, 't) env \<Rightarrow> inputs \<Rightarrow> string \<Rightarrow> ('s app, hysj_error, verify_otp_response) async" where
  "redeeming E I phone =
     seq (atom (internal (on_redis (cmd (r_del (e_redis E) [''otp:'' @ phone]))))) (\<lambda>_.
     seq (atom (internal (on_redis (store_verification_token (e_redis E) (in_uuid I 0) phone
       OTP_VERIFICATION_TOKEN_EXPIRY_SECONDS)))) (\<lambda>_.
     ret_t \<lparr>ov_verified = True, ov_verification_token = Some (in_uuid I 0)\<rparr>))"

lemma request_reads:
  fixes E :: "('s, 't) env"
  assumes "env_ok E" and "stored_code E a p = Some c" and "code_readable E a p" and "length c = OTP_CODE_LENGTH"
  shows "\<exists>h. otp_verify_otp_t E I \<lparr>vo_phone_number = p, vo_code = c\<rparr> = Step h \<and> fst (h a) = redeeming E I p \<and>
    look_of E (snd (h a)) = look_of E a"
proof -
  obtain s' where s: "get_string (e_redis E) (''otp:'' @ p) (ap_redis a) = (Ok (Some c), s')"
    "r_look (e_redis E) s' = look_of E a"
    using get_string_run [OF env_okD(1) [OF assms(1)], of "ap_redis a" "''otp:'' @ p"] assms(2,3)
    by (auto simp: stored_code_def code_readable_def look_of_def)
  define F where "F = (\<lambda>stored. seq (map_err_t (\<lambda>e. InternalError (messaging_error_str e)) (on_redis_t (case stored of
        Some old \<Rightarrow> if old = c then seq (atom (cmd (r_del (e_redis E) [''otp:'' @ p]))) (\<lambda>_. ret_t True) else ret_t False
      | None \<Rightarrow> ret_t False))) (\<lambda>valid. if \<not> valid then ret_t \<lparr>ov_verified = False, ov_verification_token = None\<rparr>
        else seq (atom (internal (on_redis (store_verification_token (e_redis E) (in_uuid I 0) p
          OTP_VERIFICATION_TOKEN_EXPIRY_SECONDS)))) (\<lambda>_.
        ret_t \<lparr>ov_verified = True, ov_verification_token = Some (in_uuid I 0)\<rparr>)))"
  have "otp_verify_otp_t E I \<lparr>vo_phone_number = p, vo_code = c\<rparr> =
      seq (atom (internal (on_redis (cmd (get_string (e_redis E) (''otp:'' @ p)))))) F"
    unfolding otp_verify_otp_t_def verify_otp_t_def Let_def on_redis_t_simps cmd_t_atom task_laws F_def verify_otp_request.simps
    using assms(4) by simp
  moreover have "F (Some c) = redeeming E I p"
    by (simp add: F_def redeeming_def task_laws)
  ultimately show ?thesis using s
    by (simp add: seq_atom map_err_a_def look_of_def on_redis_def del: append_Cons)
qed

lemma run_redeeming:
  fixes E :: "('s, 't) env"
  assumes E: "env_ok E"
  shows "\<exists>a'. run_task (redeeming E I p) a = (Ok \<lparr>ov_verified = True, ov_verification_token = Some (in_uuid I 0)\<rparr>, a')"
proof -
  obtain n s1 where d: "cmd (r_del (e_redis E) [''otp:'' @ p]) (ap_redis a) = (Ok n, s1)"
    by (rule del_look [OF env_okD(1) [OF E]])
  obtain s2 where t: "store_verification_token (e_redis E) (in_uuid I 0) p OTP_VERIFICATION_TOKEN_EXPIRY_SECONDS s1 = (Ok (), s2)"
    using cmd_set_run [OF env_okD(1) [OF E], of OTP_VERIFICATION_TOKEN_EXPIRY_SECONDS "''otp_verified:'' @ in_uuid I 0" "str_bytes p" s1]
    by (auto simp: store_verification_token_def Let_def OTP_VERIFICATION_TOKEN_EXPIRY_SECONDS_def)
  show ?thesis unfolding redeeming_def
    by (simp add: alone bind_a_def map_err_a_def on_redis_def d t del: append_Cons)
qed

text \<open>
  C36: Requests at the same time are all accepted: any number of them that send the right code, each with its
  own ids, can be scheduled so that every one reads the code before the first deletes it. All are answered
  with success and a verification token of their own.
\<close>

theorem simultaneous_requests_accepted:
  fixes E :: "('s, 't) env"
  assumes "env_ok E" and "stored_code E a p = Some c" and "code_readable E a p" and "length c = OTP_CODE_LENGTH"
  shows "\<exists>is a'. run_schedule is (requests E (map (\<lambda>i. (I i, \<lparr>vo_phone_number = p, vo_code = c\<rparr>)) [0 ..< n]), a) =
    (map (\<lambda>i. Done (Ok \<lparr>ov_verified = True, ov_verification_token = Some (in_uuid (I i) 0)\<rparr>)) [0 ..< n], a')"
proof -
  let ?f = "\<lambda>i. otp_verify_otp_t E (I i) \<lparr>vo_phone_number = p, vo_code = c\<rparr>"
  have "\<exists>h. ?f i = Step h \<and> fst (h s) = redeeming E (I i) p \<and> look_of E (snd (h s)) = look_of E a"
    if "look_of E s = look_of E a" for i s
    using request_reads [OF assms(1) _ _ assms(4), of s p "I i"] assms(2,3) that
    by (simp add: stored_code_def code_readable_def)
  from schedule_round [of n "\<lambda>s. look_of E s = look_of E a" ?f "\<lambda>i. redeeming E (I i) p", OF this refl] obtain a1 where
    a1: "run_schedule [0 ..< n] (map ?f [0 ..< n], a) = (map (\<lambda>i. redeeming E (I i) p) [0 ..< n], a1)" by blast
  have "\<exists>s'. run_task (redeeming E (I i) p) s = (Ok \<lparr>ov_verified = True, ov_verification_token = Some (in_uuid (I i) 0)\<rparr>, s') \<and> True"
    for i s using run_redeeming [OF assms(1)] by simp
  from schedule_finish [where I = "\<lambda>_. True" and n = n and s = a1 and f = "\<lambda>i. redeeming E (I i) p", OF this] obtain "is" a2 where
    "run_schedule is (map (\<lambda>i. redeeming E (I i) p) [0 ..< n], a1) =
      (map (\<lambda>i. Done (Ok \<lparr>ov_verified = True, ov_verification_token = Some (in_uuid (I i) 0)\<rparr>)) [0 ..< n], a2)" by auto
  with a1 show ?thesis
    by (intro exI [of _ "[0 ..< n] @ is"] exI [of _ a2]) (simp add: requests_def o_def)
qed

lemma coded:
  "stored_code toy_env coded_app ''+4712345678'' = Some ''123456''" "code_readable toy_env coded_app ''+4712345678''"
  "length ''123456'' = OTP_CODE_LENGTH"
proof -
  have look: "look_of toy_env coded_app (''otp:'' @ ''+4712345678'') = Some (str_bytes ''123456'', Some 300)"
    by (simp add: coded_app_def toy_env_def mem_redis_def)
  have "utf8_ok (str_bytes ''123456'')" by (rule utf8_ascii) (simp add: str_bytes_def)
  with look show "stored_code toy_env coded_app ''+4712345678'' = Some ''123456''" "code_readable toy_env coded_app ''+4712345678''"
    by (simp_all only: stored_code_def code_readable_def text_at_def texts_def) simp_all
qed (simp add: OTP_CODE_LENGTH_def)

theorem simultaneous_requests_accepted_witness:
  "\<exists>is a'. run_schedule is (requests toy_env (map (\<lambda>i. (toy_inputs (int i), \<lparr>vo_phone_number = ''+4712345678'', vo_code = ''123456''\<rparr>)) [0 ..< 3]),
      coded_app) =
    (map (\<lambda>i. Done (Ok \<lparr>ov_verified = True, ov_verification_token = Some (in_uuid (toy_inputs (int i)) 0)\<rparr>)) [0 ..< 3], a')"
  by (rule simultaneous_requests_accepted [OF toy_env_ok coded])


end
