(* ===== verification/Spec2Isabelle.thy ===== *)
theory Spec2Isabelle
  imports Ratchet_Properties X3dh_Handshake Sealed_Onion Native_Api Box_Properties Rate_Limiter Auth_Tokens
    Ephemeral_Store Database_Properties Message_Delivery Socket_Steps Media_Properties Sweep_Properties
    Server_Config Server_Properties Delivery_Races Interleaved_Codes
begin

text \<open>
  hysj is a messenger: a server in Rust (crates/) that stores and forwards messages it cannot read, a
  library of cryptography shared by both sides, and a native library (native/) that the Flutter client
  calls. This development models the Rust code, one theory for each of its parts, and proves what makes
  the parts correct alone and together.

  How the code is translated. A struct is a record and an enum a datatype with the constructors of the
  source; \<open>u8\<close>, \<open>u32\<close> and \<open>u64\<close> are words, database integers, timestamps and times to live are \<open>int\<close> and
  \<open>nat\<close>. A text is its list of UTF-8 bytes. A call gives an \<open>outcome\<close>: \<open>Ok\<close>, \<open>Err\<close> or a panic with its
  message. An operation on state is an \<open>act\<close>, from the state to the outcome and the state left behind, so
  that what a failing call has already changed is part of the model; \<open>bind_a\<close> is the \<open>?\<close> of Rust, \<open>catch_a\<close>
  and \<open>map_err_a\<close> are \<open>let _\<close>, \<open>unwrap_or\<close> and \<open>map_err\<close>. Clocks, fresh ids and random bytes are arguments
  (\<open>inputs\<close>). A \<open>HashMap\<close> or \<open>DashMap\<close> is an association list with distinct keys.

  What is not in the repository is a parameter: the cryptographic primitives (\<open>prims\<close>, with \<open>dh_laws\<close>,
  \<open>kdf_laws\<close>, \<open>aead_laws\<close>, \<open>kem_laws\<close>, \<open>sig_laws\<close>), JSON (\<open>codec\<close>), base64, jsonwebtoken, argon2, TOTP, the
  Redis server (\<open>redis\<close>, with the documented effects of its commands in \<open>redis_laws\<close>), outgoing HTTP, and
  the failures of PostgreSQL statements (\<open>sql_fault\<close>: not run, or run with the reply lost). The tables of
  PostgreSQL are lists of rows; the keys, references, lengths and cascades of migrations/ are written into
  the statements. \<open>Reference_Primitives\<close>, \<open>mem_redis\<close> and \<open>toy_env\<close> are executable instances that meet all
  hypotheses together; the witnesses run on them.
\<close>

section \<open>The parts\<close>

text \<open>
  Prelude. \<open>Hysj_Prelude\<close>: outcomes, acts, what an act keeps (\<open>keeps\<close>), UTF-8, maps.

  Cryptography (crates/hysj-crypto). \<open>Crypto_Primitives\<close>: keys.rs, kdf.rs, cipher.rs. \<open>Skipped_Keys\<close>:
  ratchet/skipped.rs behind the locale \<open>key_cache\<close>. \<open>Double_Ratchet\<close>: header.rs, chain.rs, double_ratchet.rs.
  \<open>Ratchet_Session\<close> and \<open>Ratchet_Conversation\<close>: what the two ends of a session agree on, message by message
  and turn by turn. \<open>Ratchet_Properties\<close>: whole conversations decrypt, the cache stays bounded, and what
  failing, repeated and forged messages do. \<open>X3dh_Handshake\<close>: postquantum.rs, x3dh.rs. \<open>Sealed_Onion\<close>:
  sealed.rs, onion.rs. \<open>Native_Api\<close>: native/src/api.rs.

  Short-lived data (crates/hysj-messaging, Redis). \<open>Redis_Service\<close>: the server and the one rule for loops
  over SCAN. \<open>Device_Boxes\<close>: queue.rs and wipe.rs, both providers of the locale \<open>device_box\<close> (the queue also
  of \<open>mailbox\<close>), with \<open>Box_Properties\<close>. \<open>Ephemeral_Store\<close>: otp.rs behind \<open>one_time_secret\<close>, and media_store.rs.

  Tokens (crates/hysj-auth). \<open>Auth_Tokens\<close>: jwt.rs, certificate.rs, password.rs, totp.rs.

  Database (crates/hysj-db). \<open>Database\<close>: models.rs, users.rs and how statements run. \<open>Database_Queries\<close>:
  devices.rs, keys.rs, login_attempts.rs, groups.rs, pinned_messages.rs. \<open>Database_Social\<close>: contacts.rs,
  contact_requests.rs, settings.rs. \<open>Database_Extras\<close>: vpn.rs, emojis.rs, relay.rs, deletion of a user.
  \<open>Table_Invariants\<close>: the locales \<open>table_invariant\<close> and \<open>full_invariant\<close>, what a predicate of the tables has to
  promise of single statements so that every query keeps it; interpreted on \<open>tables_ok\<close> (unique keys,
  resolving references) and \<open>rows_fit\<close> (lengths of columns). \<open>Database_Properties\<close>: these invariants, the
  pre-keys as a refinement of one queue per device, the deletion of an account.

  Server (crates/hysj-api, hysj-shared, hysj-vpn). \<open>Api_State\<close>: state.rs, error.rs, middleware/auth.rs, the
  messages, the connection tracker. \<open>Rate_Limiter\<close>: middleware/rate_limit.rs with its cleanup. \<open>Server_Config\<close>:
  config.rs, the start of main.rs and its CORS layer. Handlers of routes/: \<open>Otp_Routes\<close>, \<open>Auth_Routes\<close>, \<open>Media_Routes\<close>, \<open>Push_Routes\<close>, \<open>Device_Routes\<close>
  (devices, keys, wipe), \<open>Group_Routes\<close>, \<open>Social_Routes\<close> (contacts, contact requests, settings, status, relay),
  \<open>Vpn_Routes\<close> (with crates/hysj-vpn), \<open>Emoji_Routes\<close>. \<open>Ws_Handler\<close>: ws/handler.rs. \<open>Background_Tasks\<close>: one
  round of each sweep. \<open>Server_Routes\<close>: main.rs, from an endpoint to the handler that serves it.
  \<open>Api_Reference\<close>: the hypotheses on an environment and its executable instance.

  Properties of the server. \<open>Ws_Properties\<close> and \<open>Message_Delivery\<close>: a message is written to a socket or
  queued, and what was queued arrives. \<open>Socket_Steps\<close>: sockets as a step relation, invariants of every
  reachable server. \<open>Otp_Properties\<close>, \<open>Auth_Properties\<close>, \<open>Media_Properties\<close>, \<open>Sweep_Properties\<close>: the handlers
  and the sweep. \<open>Server_Invariants\<close>: all handlers, sockets and background rounds in any order (\<open>serving\<close>);
  the locales \<open>app_invariant\<close> and \<open>socket_invariant\<close> say what a predicate of the server has to promise so that
  each of the 67 endpoints keeps it, and are interpreted on the invariants of the tables and on the registered
  connections. \<open>Server_Properties\<close>: authentication, administrators, settings. This theory: a sealed message
  from one client to the other, through the server.

  Handlers that run at the same time. In all theories above a handler runs to its end. \<open>Interleaving\<close>: a \<open>task\<close>
  is an act cut into steps, \<open>run_schedule\<close> runs many tasks one step at a time in a given order, and \<open>run_task\<close>
  runs one alone; \<open>sat\<close> is a logic of rely and guarantee for tasks (each thread tolerates what others do and
  promises what it does itself, over the state and a ghost), and the locale \<open>non_interfering\<close> composes threads
  whose guarantees meet the relies of the others. \<open>Handler_Tasks\<close>: sending a message, opening and closing a
  socket and verifying a code, a step for each command to Redis or PostgreSQL and each access to the
  connection table; alone, each task is the act of the other theories (\<open>tasks_alone\<close>).
  \<open>Interleaved_Delivery\<close> and \<open>Interleaved_Codes\<close> interpret the locale: no message that was accepted is lost while
  devices connect, and a code is refused to requests that start after it was used. \<open>Delivery_Races\<close> and the end
  of \<open>Interleaved_Codes\<close> give the schedules that go wrong: a message overtaken by a socket, a queue lost in a
  reconnect, a code accepted twice.
\<close>

section \<open>Bounds and fuel\<close>

text \<open>
  Two loops of the code need not end by themselves: those over SCAN, whose cursor the Redis server chooses.
  They run with fuel and give \<open>None\<close> when it runs out; \<open>scan_terminates\<close> bounds the calls of one iteration,
  and with at least that fuel the theorems show that the result is there. All other loops are structural.
  Counters of the ratchet are \<open>u32\<close> and wrap; the conversation theorem bounds the messages of a turn. Ages
  of tokens assume clocks below \<open>2 ^ 63\<close>. The sliding window assumes a clock that does not run backwards and
  windows of at most an hour, which all limits of constants.rs meet.
\<close>

section \<open>Not modelled\<close>

text \<open>
  The listener and shutdown of main.rs, tracing and the timers that start background rounds: calls
  of libraries without state of their own. Parsing of requests and the size limits of axum: an endpoint of
  \<open>Server_Routes\<close> has its arguments parsed. Handlers are interleaved at their awaits only
  where \<open>Handler_Tasks\<close> has them; all others run whole, in any order. Keys of Redis do not expire in the middle
  of a request. JSON is an abstract encoding, so
  field names are not checked. The tests inside the Rust files, the SQL of the migrations, which the
  statements restate, and the Flutter client.
\<close>

section \<open>From client to client\<close>

text \<open>
  C4: A sealed message arrives: what a client seals for a recipient and sends to a device that is away is,
  when the device connects, among the frames of its socket, and opening the envelope of that frame with the
  recipient's secret gives the sender's name, its certificate and the text.
\<close>

theorem sealed_message_arrives:
  fixes E :: "('s, 't) env"
  assumes crypto: "dh_laws P" "kdf_laws P" "aead_laws P" "codec_laws J" "b64_laws B" "length sk = 32" "length eph = 32"
      "length nonce = 24" "ed_key_ok P vk" "ed_verify P vk (str_bytes sid) cert"
    and sealed: "api_sealed_sender_seal P B J (eph, nonce) (b64_encode B pt) sid (b64_encode B cert)
      (b64_encode B (x_pub P sk)) = Ok (en_sealed_blob e)"
    and server: "env_ok E" "uuid_text d" "queue_reads E a d" "\<nexists>c. live a d c"
      "items_of ''msg'' (look_of E a) d (en_message_id e) = None"
    and e: "en_recipient_device_id e = d" "0 < message_ttl e"
  shows "\<exists>a1 a2 frame e'. handle_ws_message E I u s (SendMessage e) a = (Ok (), a1) \<and>
    open_socket E I' d c a1 = (Ok () :: ('e, unit) outcome, a2) \<and> frame \<in> set (ch_frames (ap_channels a2 c)) \<and>
    from_json (e_ws_json E) (str_bytes frame) = Inr (SendMessage e') \<and>
    api_sealed_sender_open P B J (en_sealed_blob e') (b64_encode B sk) (b64_encode B vk) =
      Ok (sid, b64_encode B cert, b64_encode B pt)"
proof -
  obtain blob where blob: "seal P J (eph, nonce) pt sid cert (x_pub P sk) = Ok blob" "en_sealed_blob e = b64_encode B blob"
    using sealed crypto(5) by (cases "seal P J (eph, nonce) pt sid cert (x_pub P sk)") (simp_all add: api_sealed_sender_seal_def)
  have opened: "api_sealed_sender_open P B J (en_sealed_blob e) (b64_encode B sk) (b64_encode B vk) =
      Ok (sid, b64_encode B cert, b64_encode B pt)"
    using seal_opens [OF crypto(1-4,6-8) blob(1), of vk] crypto(5,9,10) blob(2) by (simp add: api_sealed_sender_open_def)
  have es: "\<forall>x \<in> set [e]. en_recipient_device_id x = d \<and> 0 < message_ttl x" "distinct (map en_message_id [e])"
    "\<forall>x \<in> set [e]. items_of ''msg'' (look_of E a) d (en_message_id x) = None" using e server(5) by simp_all
  obtain a1 where a1: "handle_ws_message E I u s (SendMessage e) a = (Ok (), a1)"
    using send_message_offline [OF server(1) _ e(2), of a I u s] server(4) e(1) by blast
  obtain a2 sent and wipes :: "pending_wipe list" where
    o: "open_socket E I' d c (post_all E I u s [e] a) = (Ok () :: ('e, unit) outcome, a2)"
      "ch_frames (ap_channels a2 c) = map (\<lambda>e. ws_text E (SendMessage e)) sent @
        map (\<lambda>w. ws_text E (WipeCommand (pw_command w))) wipes" "set sent = set [e] \<union> queued_for E a d"
    using posted_then_connected [OF server(1-3) es(1,2) server(4) es(3), of I' c I u s, where 'e = 'e] by blast
  have "ws_text E (SendMessage e) \<in> set (ch_frames (ap_channels a2 c))" using o(2,3) by simp
  moreover have "from_json (e_ws_json E) (str_bytes (ws_text E (SendMessage e))) = Inr (SendMessage e)"
    using server(1) by (simp add: ws_text_def env_ok_def json_of_read)
  ultimately show ?thesis using a1 o(1) opened by (intro exI [of _ a1] exI [of _ a2]) auto
qed

theorem sealed_message_arrives_witness:
  "\<exists>blob a1 (a2 :: mem app) frame e'.
    handle_ws_message toy_env (toy_inputs 0) ''u'' dev_a
      (SendMessage ((demo_envelope dev_b ''m1'' (Some 60))\<lparr>en_sealed_blob := blob\<rparr>)) toy_app = (Ok (), a1) \<and>
    open_socket toy_env (toy_inputs 5) dev_b 1 a1 = (Ok () :: (unit, unit) outcome, a2) \<and>
    frame \<in> set (ch_frames (ap_channels a2 1)) \<and>
    from_json (e_ws_json toy_env) (str_bytes frame) = Inr (SendMessage e') \<and>
    api_sealed_sender_open toy_prims toy_b64 toy_inner_codec (en_sealed_blob e') (b64_encode toy_b64 (replicate 32 2))
      (b64_encode toy_b64 (ed_pub toy_prims [9])) =
      Ok (''alice'', b64_encode toy_b64 (ed_sign toy_prims [9] (str_bytes ''alice'')), b64_encode toy_b64 [1, 2])"
proof -
  let ?cert = "ed_sign toy_prims [9] (str_bytes ''alice'')" and ?vk = "ed_pub toy_prims [9]"
  have cert: "ed_key_ok toy_prims ?vk" "ed_verify toy_prims ?vk (str_bytes ''alice'') ?cert"
    using toy_sig_laws by (simp_all add: sig_laws_def)
  obtain b where "seal toy_prims toy_inner_codec (replicate 32 1, replicate 24 0) [1, 2] ''alice'' ?cert
      (x_pub toy_prims (replicate 32 2)) = Ok b" using toy_seal_ok by blast
  then have b: "api_sealed_sender_seal toy_prims toy_b64 toy_inner_codec (replicate 32 1, replicate 24 0) (b64_encode toy_b64 [1, 2])
      ''alice'' (b64_encode toy_b64 ?cert) (b64_encode toy_b64 (x_pub toy_prims (replicate 32 2))) =
      Ok (en_sealed_blob ((demo_envelope dev_b ''m1'' (Some 60))\<lparr>en_sealed_blob := b64_encode toy_b64 b\<rparr>))"
    by (simp add: api_sealed_sender_seal_def)
  let ?e = "(demo_envelope dev_b ''m1'' (Some 60))\<lparr>en_sealed_blob := b64_encode toy_b64 b\<rparr>"
  have e: "en_recipient_device_id ?e = dev_b" "0 < message_ttl ?e"
    by (simp_all add: demo_envelope_def message_ttl_def)
  have h: "queue_reads toy_env toy_app dev_b" "\<nexists>c. live toy_app dev_b c"
    "items_of ''msg'' (look_of toy_env toy_app) dev_b (en_message_id ?e) = None"
    by (simp_all add: queue_reads_def items_of_def live_def)
  have n: "length (replicate 32 2 :: bytes) = 32" "length (replicate 32 1 :: bytes) = 32" "length (replicate 24 0 :: bytes) = 24"
    by (simp_all only: length_replicate)
  from sealed_message_arrives [OF toy_dh_laws toy_kdf_laws toy_aead_laws toy_inner_laws toy_b64_laws n cert b toy_env_ok
      demo_devices(2) h e, of "toy_inputs 0" "''u''" dev_a "toy_inputs 5" 1, where 'e = unit]
  show ?thesis by blast
qed

end
